(* ===== verification/Prelude.thy ===== *)
theory Prelude
  imports Main "HOL-Library.Word" "HOL-Library.Monad_Syntax"
begin

unbundle bit_operations_syntax

text \<open>
  The shared vocabulary of the development: the machine integer types of the wedge
  (\<^verbatim>\<open>afterburn-wedge/ia32/types.h\<close>), the panic model, C bit-fields inside a word, and the
  list, option and word lemmas that the component theories use.

  Failure. A build without \<^verbatim>\<open>CONFIG_OPTIMIZE\<close> compiles \<^verbatim>\<open>ASSERT(x)\<close> to a call of the
  non-returning \<^verbatim>\<open>panic()\<close>. A function of the source that can panic (or that would touch an
  array outside its bounds) is a function into \<open>option\<close>, with \<open>None\<close> for the panic;
  the \<open>do\<close>-notation of \<open>HOL-Library.Monad_Syntax\<close> sequences such calls.
  \<^verbatim>\<open>printf\<close>, \<^verbatim>\<open>dprintf\<close>, the burn counters and \<^verbatim>\<open>DEBUGGER_ENTER\<close> (a
  breakpoint from which execution resumes) only produce output and have no counterpart.
\<close>

section \<open>Machine integers\<close>

type_synonym u8 = "8 word"
type_synonym u16 = "16 word"
type_synonym u32 = "32 word"
type_synonym u64 = "64 word"

text \<open>On IA32 \<^verbatim>\<open>word_t\<close> is a 32-bit unsigned integer.\<close>

type_synonym word_t = u32

named_theorems bitfield_simps \<open>reading and writing C bit-fields\<close>
named_theorems bitset_simps \<open>the set of positions at which a word has a one\<close>

section \<open>Panics\<close>

definition ASSERT :: "bool \<Rightarrow> unit option" where
  "ASSERT b = (if b then Some () else None)"

lemma ASSERT_simps [simp]: "ASSERT True = Some ()" "ASSERT False = None"
  by (simp_all add: ASSERT_def)

lemma ASSERT_bind_Some [simp]:
  "(ASSERT b \<bind> f = Some y) \<longleftrightarrow> b \<and> f () = Some y"
  by (cases b) simp_all

lemma ASSERT_bind_None:
  "(ASSERT b \<bind> f = None) \<longleftrightarrow> \<not> b \<or> f () = None"
  by (cases b) simp_all

section \<open>Bit-fields\<close>

text \<open>
  \<open>getf lo n w\<close> reads the \<open>n\<close>-bit field that starts at bit \<open>lo\<close> of \<open>w\<close>;
  \<open>putf lo n v w\<close> assigns \<open>v\<close>, truncated to \<open>n\<close> bits, to it. GCC on IA32 allocates
  the bit-fields of a struct from the least significant bit upwards.
\<close>

definition getf :: "nat \<Rightarrow> nat \<Rightarrow> 'a::len word \<Rightarrow> 'a word" where
  "getf lo n w = take_bit n (drop_bit lo w)"

definition putf :: "nat \<Rightarrow> nat \<Rightarrow> 'a::len word \<Rightarrow> 'a word \<Rightarrow> 'a word" where
  "putf lo n v w = (w AND NOT (push_bit lo (mask n))) OR push_bit lo (take_bit n v)"

lemma bit_getf [bitfield_simps]:
  "bit (getf lo n w) i \<longleftrightarrow> i < n \<and> bit w (lo + i)"
  by (auto simp: getf_def bit_simps ac_simps)

lemma bit_putf [bitfield_simps]:
  "bit (putf lo n v w) i \<longleftrightarrow>
     i < LENGTH('a) \<and> (if lo \<le> i \<and> i < lo + n then bit v (i - lo) else bit w i)"
  for v w :: "'a::len word"
  by (auto simp: putf_def bit_simps)

lemma getf_putf_same:
  fixes v w :: "'a::len word"
  assumes "lo + n \<le> LENGTH('a)"
  shows "getf lo n (putf lo n v w) = take_bit n v"
  using assms by (intro bit_word_eqI) (auto simp: bitfield_simps bit_simps)

lemma getf_putf_other:
  fixes v w :: "'a::len word"
  assumes "lo' + n' \<le> lo \<or> lo + n \<le> lo'" and "lo' + n' \<le> LENGTH('a)"
  shows "getf lo' n' (putf lo n v w) = getf lo' n' w"
  using assms by (intro bit_word_eqI) (auto simp: bitfield_simps)

lemma putf_getf:
  fixes w :: "'a::len word"
  shows "putf lo n (getf lo n w) w = w"
  by (intro bit_word_eqI) (auto simp: bitfield_simps)

lemma putf_putf:
  fixes u v w :: "'a::len word"
  shows "putf lo n u (putf lo n v w) = putf lo n u w"
  by (intro bit_word_eqI) (auto simp: bitfield_simps)

lemma putf_commute:
  fixes u v w :: "'a::len word"
  assumes "lo' + n' \<le> lo \<or> lo + n \<le> lo'"
  shows "putf lo' n' u (putf lo n v w) = putf lo n v (putf lo' n' u w)"
  using assms by (intro bit_word_eqI) (auto simp: bitfield_simps)

lemma getf_less:
  fixes w :: "'a::len word"
  assumes "n < LENGTH('a)"
  shows "unat (getf lo n w) < 2 ^ n"
  by (simp add: getf_def unsigned_take_bit_eq take_bit_nat_less_exp)

section \<open>Bit sets\<close>

definition bits :: "'a::len word \<Rightarrow> nat set" where
  "bits w = {i. bit w i}"

lemma mem_bits [simp]: "i \<in> bits w \<longleftrightarrow> bit w i"
  by (simp add: bits_def)

lemma bits_subset: "bits (w :: 'a::len word) \<subseteq> {..<LENGTH('a)}"
  by (auto dest: bit_imp_le_length)

lemma bit_u32_less: "bit w n \<Longrightarrow> n < 32" for w :: u32
  using bit_imp_le_length [of w n] by simp

lemma bit_u8_less: "bit w n \<Longrightarrow> n < 8" for w :: u8
  using bit_imp_le_length [of w n] by simp

lemma finite_bits [simp, intro]: "finite (bits w)"
  by (rule finite_subset [OF bits_subset]) simp

lemma bits_eq_empty [bitset_simps]: "bits w = {} \<longleftrightarrow> w = 0"
  by (auto simp: bits_def intro: bit_word_eqI)

lemma bits_filter: "bits w = set (filter (bit w) [0..<32])" for w :: u32
  by (auto dest: bit_u32_less)

lemma bits_zero [simp]: "bits 0 = {}"
  by (simp add: bits_def)

lemma bits_inject: "bits v = bits w \<longleftrightarrow> v = w"
  by (auto simp: set_eq_iff intro: bit_word_eqI)

lemma bits_set_bit [bitset_simps]:
  "n < LENGTH('a) \<Longrightarrow> bits (set_bit n w) = insert n (bits w)"
  for w :: "'a::len word"
  by (auto simp: bit_simps dest: bit_imp_le_length)

lemma bits_unset_bit [bitset_simps]: "bits (unset_bit n w) = bits w - {n}"
  for w :: "'a::len word"
  by (auto simp: bit_simps dest: bit_imp_le_length)

lemma bits_and [bitset_simps]: "bits (v AND w) = bits v \<inter> bits w"
  by (auto simp: bit_simps)

lemma bits_or [bitset_simps]: "bits (v OR w) = bits v \<union> bits w"
  by (auto simp: bit_simps)

lemma bits_not [bitset_simps]: "bits (NOT w) = {..<LENGTH('a)} - bits w"
  for w :: "'a::len word"
  by (auto simp: bit_simps)

lemma bits_Int_Diff [bitset_simps]: "bits v \<inter> ({..<32} - B) = bits v - B"
  for v :: u32
  using bits_subset [of v] by auto

lemma unset_bit_unat_less:
  fixes w :: "'a::len word"
  assumes "bit w n"
  shows "unat (unset_bit n w) < unat w"
proof -
  have ne: "unset_bit n w \<noteq> w"
    using assms by (metis bit_unset_bit_iff)
  have "unset_bit n w = w AND NOT (push_bit n 1)"
    using assms by (intro bit_word_eqI) (auto simp: bit_simps dest: bit_imp_le_length)
  then have "unset_bit n w \<le> w"
    by (simp add: word_and_le2)
  with ne show ?thesis
    by (metis order_le_imp_less_or_eq word_less_nat_alt)
qed

lemma unat_eq_of_nat: "unat w = n \<Longrightarrow> w = of_nat n"
  by auto

section \<open>Lists and function updates\<close>

lemma fold_option_None [simp]:
  "fold (\<lambda>x so. so \<bind> f x) xs None = None"
  by (induction xs) simp_all

lemma find_Some_upt:
  "find P [0..<n] = Some i \<Longrightarrow> i < n \<and> P i \<and> (\<forall>j<i. \<not> P j)"
  by (auto simp: find_Some_iff)

lemma find_None_upt: "find P [0..<n] = None \<longleftrightarrow> (\<forall>i<n. \<not> P i)"
  by (auto simp: find_None_iff)

lemma find_Some_rev_upt:
  assumes "find P (rev [0..<n]) = Some i"
  shows "i < n \<and> P i \<and> (\<forall>j. i < j \<and> j < n \<longrightarrow> \<not> P j)"
proof -
  from assms obtain k where k: "k < n" "P (rev [0..<n] ! k)" "i = rev [0..<n] ! k"
    "\<forall>j<k. \<not> P (rev [0..<n] ! j)"
    by (auto simp: find_Some_iff)
  have i: "i = n - Suc k" using k by (simp add: rev_nth)
  have "\<not> P j" if "i < j" "j < n" for j
  proof -
    have "n - Suc j < k" using that i k(1) by simp
    moreover have "rev [0..<n] ! (n - Suc j) = j" using that by (simp add: rev_nth)
    ultimately show ?thesis using k(4) by metis
  qed
  with k i show ?thesis by auto
qed

section \<open>Word arithmetic without wrap-around\<close>

lemma unat_times_const: "unat a * unat b < 2 ^ 32 \<Longrightarrow> unat (a * b) = unat a * unat b" for a b :: word_t
  by (simp add: unat_word_ariths)

lemma unat_plus_bound: "unat a + unat b < 2 ^ 32 \<Longrightarrow> unat (a + b) = unat a + unat b" for a b :: word_t
  by (simp add: unat_word_ariths)

lemma unat_minus_bound: "unat b \<le> unat a \<Longrightarrow> unat (a - b) = unat a - unat b" for a b :: word_t
  by (simp add: unat_sub word_le_nat_alt)

lemma unat_suc_less: "i < n \<Longrightarrow> unat (i + 1) = unat i + 1" for i n :: word_t
  using unsigned_less [of n, where 'a = nat] by (simp add: unat_word_ariths word_less_nat_alt)

end
