(* ===== verification/Bitops.thy ===== *)
theory Bitops
  imports Prelude
begin

text \<open>
  \<^verbatim>\<open>afterburn-wedge/ia32/bitops.h\<close>: the bit-scan and bit-test instructions the wedge wraps.
  \<open>lsb\<close> and \<open>msb\<close> are \<^verbatim>\<open>bsf\<close> and \<^verbatim>\<open>bsr\<close>; the instructions leave their destination
  undefined for a zero source, and every caller tests for zero first. \<^verbatim>\<open>bts\<close> and \<^verbatim>\<open>btr\<close> with a
  memory destination and a register bit offset address a bit string: the word they touch is
  the operand's address plus four times the (signed) quotient of the offset by 32. The single
  word view (\<open>bit_set_atomic\<close> and its kin) is the effect on the named word, the string
  view (\<open>bts\<close>, \<open>btr\<close>) the effect on the surrounding object.
\<close>

section \<open>Scanning\<close>

definition lsb :: "word_t \<Rightarrow> word_t" where
  "lsb w = (case find (bit w) [0..<32] of None \<Rightarrow> 0 | Some n \<Rightarrow> of_nat n)"

definition msb :: "word_t \<Rightarrow> word_t" where
  "msb w = (case find (bit w) (rev [0..<32]) of None \<Rightarrow> 0 | Some n \<Rightarrow> of_nat n)"

section \<open>Setting, clearing and testing\<close>

text \<open>The word of a bit string that a bit offset names, and the position inside it.\<close>

definition bt_index :: "word_t \<Rightarrow> int" where
  "bt_index b = sint b div 32"

definition bt_offset :: "word_t \<Rightarrow> nat" where
  "bt_offset b = unat b mod 32"

definition bts :: "word_t \<Rightarrow> (int \<Rightarrow> word_t) \<Rightarrow> (int \<Rightarrow> word_t)" where
  "bts b m = m(bt_index b := set_bit (bt_offset b) (m (bt_index b)))"

definition btr :: "word_t \<Rightarrow> (int \<Rightarrow> word_t) \<Rightarrow> (int \<Rightarrow> word_t)" where
  "btr b m = m(bt_index b := unset_bit (bt_offset b) (m (bt_index b)))"

definition bt :: "word_t \<Rightarrow> (int \<Rightarrow> word_t) \<Rightarrow> bool" where
  "bt b m = bit (m (bt_index b)) (bt_offset b)"

definition bit_set_atomic :: "word_t \<Rightarrow> word_t \<Rightarrow> word_t" where
  "bit_set_atomic b w = (if bt_index b = 0 then set_bit (bt_offset b) w else w)"

definition bit_clear_atomic :: "word_t \<Rightarrow> word_t \<Rightarrow> word_t" where
  "bit_clear_atomic b w = (if bt_index b = 0 then unset_bit (bt_offset b) w else w)"

definition bit_clear :: "word_t \<Rightarrow> word_t \<Rightarrow> word_t" where
  "bit_clear b w = (if bt_index b = 0 then unset_bit (bt_offset b) w else w)"

text \<open>\<^verbatim>\<open>sbbl %0, %0\<close> turns the carry (the old bit) into \<open>0\<close> or \<open>~0\<close>.\<close>

definition sbb :: "bool \<Rightarrow> word_t" where
  "sbb c = (if c then - 1 else 0)"

definition bit_test_and_set_atomic :: "word_t \<Rightarrow> word_t \<Rightarrow> word_t \<times> word_t" where
  "bit_test_and_set_atomic b w =
     (sbb (bit w (bt_offset b)), set_bit (bt_offset b) w)"

definition bit_test_and_clear_atomic :: "word_t \<Rightarrow> word_t \<Rightarrow> word_t \<times> word_t" where
  "bit_test_and_clear_atomic b w =
     (sbb (bit w (bt_offset b)), unset_bit (bt_offset b) w)"

text \<open>
  The C expression \<^verbatim>\<open>1 << n\<close>: the IA32 shift instructions take their count modulo 32.
\<close>

definition shl1 :: "word_t \<Rightarrow> word_t" where
  "shl1 n = push_bit (unat n mod 32) 1"

section \<open>Loops over the set bits of a word\<close>

lemma bits_shl1 [bitset_simps]: "bits (shl1 b) = {bt_offset b}"
  by (auto simp: shl1_def bt_offset_def bit_push_bit_iff bit_1_iff simp del: push_bit_of_1)

lemma and_shl1: "w AND shl1 b \<noteq> 0 \<longleftrightarrow> bit w (bt_offset b)"
  by (simp flip: bits_eq_empty add: bitset_simps)

lemma and_shl1_0: "w AND shl1 b = 0 \<longleftrightarrow> \<not> bit w (bt_offset b)"
  using and_shl1 [of w b] by blast

lemma or_shl1: "w OR shl1 b = set_bit (bt_offset b) w"
  by (simp flip: bits_inject add: bitset_simps bt_offset_def)

lemma andnot_shl1: "w AND NOT (shl1 b) = unset_bit (bt_offset b) w"
  by (simp flip: bits_inject add: bitset_simps)

text \<open>
  The interrupt controllers share one loop shape:
  \<^verbatim>\<open>while (w) { b = lsb(w); bit_clear(b, w); body(b); }\<close>.
\<close>

lemma lsb_cases:
  assumes "w \<noteq> 0"
  obtains n where "lsb w = of_nat n" "n < 32" "bit w n" "\<And>j. j < n \<Longrightarrow> \<not> bit w j"
proof -
  have "find (bit w) [0..<32] \<noteq> None"
    using assms by (auto simp: find_None_upt bit_eq_iff dest: bit_imp_le_length)
  then obtain n where n: "find (bit w) [0..<32] = Some n" by blast
  from find_Some_upt [OF n] that [of n] n show thesis
    by (auto simp: lsb_def)
qed

lemma unat_of_nat_32: "n < 32 \<Longrightarrow> unat (of_nat n :: word_t) = n"
  by (simp add: unat_of_nat)

lemma unat_lsb:
  assumes "w \<noteq> 0"
  shows "unat (lsb w) = Min (bits w)"
proof -
  from assms obtain n where n: "lsb w = of_nat n" "n < 32" "bit w n"
    "\<And>j. j < n \<Longrightarrow> \<not> bit w j"
    by (rule lsb_cases) blast
  have "Min (bits w) = n"
    by (rule Min_eqI) (use n in \<open>auto simp: not_less [symmetric]\<close>)
  with n show ?thesis by (simp add: unat_of_nat_32)
qed

lemma lsb_bit: "w \<noteq> 0 \<Longrightarrow> bit w (unat (lsb w))"
  by (metis finite_bits Min_in bits_eq_empty mem_bits unat_lsb)

lemma lsb_less: "w \<noteq> 0 \<Longrightarrow> unat (lsb w) < 32"
  using lsb_bit [of w] bit_imp_le_length [of w] by simp

lemma lsb_le: "bit w n \<Longrightarrow> unat (lsb w) \<le> n"
  by (metis Min_le bit_0_eq bot_apply bot_bool_def finite_bits mem_bits unat_lsb)

lemma unat_msb:
  assumes "w \<noteq> 0"
  shows "unat (msb w) = Max (bits w)"
proof -
  have "find (bit w) (rev [0..<32]) \<noteq> None"
    using assms by (auto simp: find_None_iff bit_eq_iff dest: bit_imp_le_length)
  then obtain n where n: "find (bit w) (rev [0..<32]) = Some n" by blast
  note * = find_Some_rev_upt [OF n]
  have "Max (bits w) = n"
  proof (rule Max_eqI)
    fix y assume "y \<in> bits w"
    then show "y \<le> n" using * bit_imp_le_length [of w y] by (auto simp: not_less [symmetric])
  qed (use * in auto)
  with n * show ?thesis by (simp add: msb_def unat_of_nat_32)
qed

lemma msb_bit: "w \<noteq> 0 \<Longrightarrow> bit w (unat (msb w))"
  by (metis finite_bits Max_in bits_eq_empty mem_bits unat_msb)

lemma msb_less: "w \<noteq> 0 \<Longrightarrow> unat (msb w) < 32"
  using msb_bit [of w] bit_imp_le_length [of w] by simp

lemma bt_index_small: "b < 32 \<Longrightarrow> bt_index b = 0"
proof -
  assume "b < 32"
  then have "uint b < 32" by (simp add: word_less_def)
  then have "sint b = uint b"
    by (simp add: sint_uint signed_take_bit_int_eq_self_iff
        order_less_le_trans [of _ 32] order_trans [of "- 2147483648" 0])
  with \<open>uint b < 32\<close> show ?thesis by (simp add: bt_index_def)
qed

lemma bt_offset_small: "b < 32 \<Longrightarrow> bt_offset b = unat b"
  by (simp add: bt_offset_def word_less_nat_alt)

lemmas bt_small = bt_index_small bt_offset_small

function while_lsb :: "(word_t \<Rightarrow> 's \<Rightarrow> 's) \<Rightarrow> word_t \<Rightarrow> 's \<Rightarrow> 's" where
  "while_lsb body w s =
     (if w = 0 then s
      else (let b = lsb w in while_lsb body (bit_clear b w) (body b s)))"
  by pat_completeness auto
termination
proof (relation "measure (\<lambda>(body, w, s). unat w)", simp)
  fix body :: "word_t \<Rightarrow> 's \<Rightarrow> 's" and w b :: word_t and s :: 's
  assume "w \<noteq> 0" and b: "b = lsb w"
  then have "b < 32" by (simp add: word_less_nat_alt lsb_less)
  with \<open>w \<noteq> 0\<close> b show "((body, bit_clear b w, body b s), body, w, s) \<in> measure (\<lambda>(body, w, s). unat w)"
    by (simp add: bit_clear_def bt_small unset_bit_unat_less lsb_bit)
qed

declare while_lsb.simps [simp del]

lemma while_lsb_0 [simp]: "while_lsb body 0 s = s"
  by (simp add: while_lsb.simps)

lemma bits_clear_lsb: "w \<noteq> 0 \<Longrightarrow> bits (bit_clear (lsb w) w) = bits w - {unat (lsb w)}"
  by (simp add: bit_clear_def bt_small word_less_nat_alt lsb_less bitset_simps)

text \<open>The loop runs its body once for every set bit, in ascending order.\<close>

lemma while_lsb_fold:
  "while_lsb body w s = fold (\<lambda>n. body (of_nat n)) (sorted_list_of_set (bits w)) s"
proof (induction body w s rule: while_lsb.induct)
  case (1 body w s)
  show ?case
  proof (cases "w = 0")
    case False
    have "sorted_list_of_set (bits w) = Min (bits w) # sorted_list_of_set (bits w - {Min (bits w)})"
      using False by (intro sorted_list_of_set_nonempty) (auto simp: bitset_simps)
    moreover have "(of_nat (unat (lsb w)) :: word_t) = lsb w" by simp
    ultimately show ?thesis
      using "1"[OF False refl] False
      by (simp add: while_lsb.simps [of body w s] Let_def bits_clear_lsb unat_lsb [symmetric])
  qed simp
qed

end
