(* ===== verification/Cpu_State.thy ===== *)
theory Cpu_State
  imports Bitops
begin

text \<open>
  \<^verbatim>\<open>afterburn-wedge/ia32/cpu.h\<close>: the IA32 data structures of the virtual CPU. A hardware
  structure that the source reads through a union of bit-fields is the machine word that
  holds it, and a bit-field is \<open>getf\<close>/\<open>putf\<close> at its position; gates and segment
  descriptors are 64-bit words, the control registers, the flags and the page table entries
  are 32-bit words. \<open>cpu_t\<close> itself is a record with the source's fields.
\<close>

section \<open>Gates\<close>

type_synonym gate_t = u64

definition gate_is_present :: "gate_t \<Rightarrow> bool" where
  "gate_is_present g = (getf 47 1 g = 1)"

definition gate_is_trap :: "gate_t \<Rightarrow> bool" where
  "gate_is_trap g = (getf 40 3 g = 7)"

definition gate_is_interrupt :: "gate_t \<Rightarrow> bool" where
  "gate_is_interrupt g = (getf 40 3 g = 6)"

definition gate_is_32bit :: "gate_t \<Rightarrow> bool" where
  "gate_is_32bit g = (getf 43 1 g = 1)"

definition gate_get_offset :: "gate_t \<Rightarrow> u32" where
  "gate_get_offset g = push_bit 16 (ucast (getf 48 16 g)) OR ucast (getf 0 16 g)"

definition gate_get_segment_selector :: "gate_t \<Rightarrow> u32" where
  "gate_get_segment_selector g = ucast (getf 16 16 g)"

section \<open>Segment descriptors and descriptor table registers\<close>

type_synonym segdesc_t = u64

definition segdesc_get_base :: "segdesc_t \<Rightarrow> u32" where
  "segdesc_get_base d = ucast (getf 16 24 d) OR push_bit 24 (ucast (getf 56 8 d))"

record dtr_t =
  dtr_limit :: u16
  dtr_base :: u32

definition dtr_get_total_gates :: "dtr_t \<Rightarrow> u32" where
  "dtr_get_total_gates d = (ucast (dtr_limit d) + 1) div 8"

definition dtr_get_total_desc :: "dtr_t \<Rightarrow> u32" where
  "dtr_get_total_desc d = (ucast (dtr_limit d) + 1) div 8"

definition dtr_boot :: dtr_t where
  "dtr_boot = \<lparr>dtr_limit = 0xffff, dtr_base = 0\<rparr>"

section \<open>Control registers\<close>

definition PAGE_MASK :: u32 where "PAGE_MASK = 0xfffff000"

definition PAGEDIR_MASK :: u32 where "PAGEDIR_MASK = 0xffc00000"

type_synonym cr0_t = u32
type_synonym cr2_t = u32
type_synonym cr3_t = u32
type_synonym cr4_t = u32

definition cr0_protected_mode_enabled :: "cr0_t \<Rightarrow> bool" where
  "cr0_protected_mode_enabled c = (getf 0 1 c \<noteq> 0)"

definition cr0_paging_enabled :: "cr0_t \<Rightarrow> bool" where
  "cr0_paging_enabled c = (getf 31 1 c \<noteq> 0 \<and> cr0_protected_mode_enabled c)"

definition cr0_task_switched :: "cr0_t \<Rightarrow> bool" where
  "cr0_task_switched c = (getf 3 1 c \<noteq> 0)"

definition cr0_boot :: cr0_t where "cr0_boot = 0x60000010"

definition cr2_boot :: cr2_t where "cr2_boot = 0"

definition cr3_get_pdir_addr :: "cr3_t \<Rightarrow> u32" where
  "cr3_get_pdir_addr c = c AND PAGE_MASK"

definition cr3_pwt :: "cr3_t \<Rightarrow> u32" where "cr3_pwt c = getf 3 1 c"

definition cr3_pcd :: "cr3_t \<Rightarrow> u32" where "cr3_pcd c = getf 4 1 c"

definition cr3_boot :: cr3_t where "cr3_boot = 0"

definition cr4_is_page_global_enabled :: "cr4_t \<Rightarrow> bool" where
  "cr4_is_page_global_enabled c = (getf 7 1 c = 1)"

definition cr4_boot :: cr4_t where "cr4_boot = 0x90"

definition cs_boot :: u16 where "cs_boot = 0xf000"

definition segment_boot :: u16 where "segment_boot = 0"

section \<open>Flags\<close>

type_synonym flags_t = u32

definition flags_user_mask :: u32 where "flags_user_mask = 0xffc08cff"

definition flags_system_at_user :: u32 where "flags_system_at_user = 0x00083200"

definition fi_bit :: word_t where "fi_bit = 9"

definition flags_prepare_for_gate :: "gate_t \<Rightarrow> flags_t \<Rightarrow> flags_t" where
  "flags_prepare_for_gate g f =
     (let f1 = putf 8 1 0 (putf 17 1 0 (putf 16 1 0 (putf 14 1 0 f)))
      in if gate_is_interrupt g then putf 9 1 0 f1 else f1)"

definition flags_interrupts_enabled :: "flags_t \<Rightarrow> bool" where
  "flags_interrupts_enabled f = (getf 9 1 f \<noteq> 0)"

definition flags_nt :: "flags_t \<Rightarrow> u32" where
  "flags_nt f = getf 14 1 f"

definition flags_boot :: flags_t where "flags_boot = 2"

section \<open>The virtual CPU\<close>

text \<open>
  \<open>irq_vectors\<close> compresses the pending vectors: one bit for eight vectors. In an APIC build
  the word that follows it is the \<^verbatim>\<open>lapic\<close> pointer (\<^verbatim>\<open>dummy\<close> otherwise);
  \<open>cpu_lapic\<close> holds that word. \<open>cpu_dr\<close> has the eight debug registers.
\<close>

record cpu_t =
  cpu_flags :: flags_t
  cpu_cs :: word_t
  cpu_ss :: word_t
  cpu_tss_base :: word_t
  cpu_tss_seg :: u16
  cpu_idtr :: dtr_t
  cpu_ds :: word_t
  cpu_es :: word_t
  cpu_fs :: word_t
  cpu_gs :: word_t
  cpu_cr2 :: cr2_t
  cpu_cr3 :: cr3_t
  cpu_cr4 :: cr4_t
  cpu_ldtr :: u16
  cpu_gdtr :: dtr_t
  cpu_cr0 :: cr0_t
  cpu_redirect :: word_t
  cpu_dr :: "u32 list"
  cpu_irq_vectors :: word_t
  cpu_lapic :: word_t

definition cpu_interrupts_enabled :: "cpu_t \<Rightarrow> bool" where
  "cpu_interrupts_enabled c = flags_interrupts_enabled (cpu_flags c)"

definition cpu_disable_interrupts :: "cpu_t \<Rightarrow> bool \<times> cpu_t" where
  "cpu_disable_interrupts c =
     (let (old, f) = bit_test_and_clear_atomic fi_bit (cpu_flags c)
      in (old \<noteq> 0, c\<lparr>cpu_flags := f\<rparr>))"

definition cpu_restore_interrupts :: "bool \<Rightarrow> cpu_t \<Rightarrow> cpu_t" where
  "cpu_restore_interrupts old_state c =
     (if \<not> old_state \<and> cpu_interrupts_enabled c then snd (cpu_disable_interrupts c)
      else if old_state then c\<lparr>cpu_flags := snd (bit_test_and_set_atomic fi_bit (cpu_flags c))\<rparr>
      else c)"

definition get_segment_privilege :: "u16 \<Rightarrow> u32" where
  "get_segment_privilege segment = ucast segment AND 3"

definition cpu_segment_exists :: "u16 \<Rightarrow> cpu_t \<Rightarrow> bool" where
  "cpu_segment_exists segment c =
     (let idx = ucast (segment div 8) in \<not> (idx \<ge> dtr_get_total_desc (cpu_gdtr c)))"

text \<open>
  The bit offset of a vector is its number divided by eight. Offsets 32 to 63 reach the
  word after \<^verbatim>\<open>irq_vectors\<close>, larger ones leave the structure.
\<close>

definition cpu_set_irq_vector :: "word_t \<Rightarrow> cpu_t \<Rightarrow> cpu_t option" where
  "cpu_set_irq_vector vector c =
     (let b = drop_bit 3 vector in
      if b < 32 then Some (c\<lparr>cpu_irq_vectors := set_bit (bt_offset b) (cpu_irq_vectors c)\<rparr>)
      else if b < 64 then Some (c\<lparr>cpu_lapic := set_bit (bt_offset b) (cpu_lapic c)\<rparr>)
      else None)"

definition cpu_clear_irq_vector :: "word_t \<Rightarrow> cpu_t \<Rightarrow> cpu_t option" where
  "cpu_clear_irq_vector vector c =
     (let b = drop_bit 3 vector in
      if b < 32 then Some (c\<lparr>cpu_irq_vectors := unset_bit (bt_offset b) (cpu_irq_vectors c)\<rparr>)
      else if b < 64 then Some (c\<lparr>cpu_lapic := unset_bit (bt_offset b) (cpu_lapic c)\<rparr>)
      else None)"

text \<open>
  \<^verbatim>\<open>frontend_init\<close> (\<^verbatim>\<open>ia32/cpu.cc\<close>). The aggregate initialiser zeroes the members it does
  not name; the assertions compare compile-time sizes and offsets.
\<close>

definition frontend_init :: cpu_t where
  "frontend_init =
     \<lparr>cpu_flags = flags_boot, cpu_cs = ucast cs_boot, cpu_ss = ucast segment_boot,
      cpu_tss_base = 0, cpu_tss_seg = segment_boot, cpu_idtr = dtr_boot,
      cpu_ds = ucast segment_boot, cpu_es = ucast segment_boot, cpu_fs = ucast segment_boot,
      cpu_gs = ucast segment_boot, cpu_cr2 = cr2_boot, cpu_cr3 = cr3_boot, cpu_cr4 = cr4_boot,
      cpu_ldtr = segment_boot, cpu_gdtr = dtr_boot, cpu_cr0 = cr0_boot, cpu_redirect = 0,
      cpu_dr = replicate 8 0, cpu_irq_vectors = 0, cpu_lapic = 0\<rparr>"

end
