(* ===== verification/Wedge_State.thy ===== *)
theory Wedge_State
  imports Cpu_State
begin

text \<open>
  The state that every device model of the wedge reaches: the virtual CPUs
  (\<^verbatim>\<open>l4ka/vcpu.h\<close>, \<^verbatim>\<open>get_vcpu\<close> and \<^verbatim>\<open>get_cpu\<close>), the hardware interrupt words of
  \<^verbatim>\<open>intlogic_t\<close> (\<^verbatim>\<open>ia32/intlogic.h\<close>), the guest's memory, and the log of the calls into the
  back-end (\<^verbatim>\<open>l4ka/backend.h\<close>). The back-end's L4 system calls are outside the model: a call of
  a \<^verbatim>\<open>backend_*\<close> function appends its name and arguments to \<open>events\<close>, newest last, so
  that a property can say which calls a handler makes and in which order.

  \<open>cur_vcpu\<close> is the VCPU on which the code runs. The four interrupt words are consecutive in
  the object; \<open>hwirq_words 0\<close> to \<open>hwirq_words 3\<close> are \<^verbatim>\<open>hwirq_latch\<close>,
  \<^verbatim>\<open>hwirq_mask\<close>, \<^verbatim>\<open>hwirq_squash\<close> and \<^verbatim>\<open>hwirq_virtual\<close>.
\<close>

datatype backend_event =
    EnableDeviceInterrupt u32 nat
  | DisableDeviceInterrupt u32 nat
  | UnmaskDeviceInterrupt u32
  | EnablePaging
  | ProtectFpu
  | FlushOldPdir u32 u32
  | FlushUser u32
  | InvalidateTlb
  | FlushVaddr u32
  | SyncDeliverException u32 bool
  | WriteMsr u32 u32 u32
  | InterruptibleIdle u32
  | ActivateUser u32
  | DeviceFlush bool
  | StartupVcpu nat u32

datatype startup_status_e = status_off | status_bootstrap | status_on

record vcpu_t =
  vcpu_cpu :: cpu_t
  startup_status :: startup_status_e
  booted_cpu_id :: word_t
  idle_frame :: word_t
  vaddr_flush_min :: word_t
  vaddr_flush_max :: word_t
  vaddr_global_only :: bool
  global_is_crap :: bool

record wedge =
  cur_vcpu :: nat
  vcpus :: "nat \<Rightarrow> vcpu_t"
  hwirq_words :: "int \<Rightarrow> word_t"
  mem :: "u32 \<Rightarrow> u8"
  events :: "backend_event list"

section \<open>The current virtual CPU\<close>

definition get_cpu :: "'w wedge_scheme \<Rightarrow> cpu_t" where
  "get_cpu w = vcpu_cpu (vcpus w (cur_vcpu w))"

definition upd_cpu :: "(cpu_t \<Rightarrow> cpu_t) \<Rightarrow> 'w wedge_scheme \<Rightarrow> 'w wedge_scheme" where
  "upd_cpu f w =
     w\<lparr>vcpus := (vcpus w)(cur_vcpu w := (vcpus w (cur_vcpu w))\<lparr>vcpu_cpu := f (get_cpu w)\<rparr>)\<rparr>"

definition log_event :: "backend_event \<Rightarrow> 'w wedge_scheme \<Rightarrow> 'w wedge_scheme" where
  "log_event e w = w\<lparr>events := events w @ [e]\<rparr>"

definition set_irq_vector :: "word_t \<Rightarrow> 'w wedge_scheme \<Rightarrow> 'w wedge_scheme option" where
  "set_irq_vector vector w =
     do { c \<leftarrow> cpu_set_irq_vector vector (get_cpu w); Some (upd_cpu (\<lambda>_. c) w) }"

definition clear_irq_vector :: "word_t \<Rightarrow> 'w wedge_scheme \<Rightarrow> 'w wedge_scheme option" where
  "clear_irq_vector vector w =
     do { c \<leftarrow> cpu_clear_irq_vector vector (get_cpu w); Some (upd_cpu (\<lambda>_. c) w) }"

definition get_irq_vectors :: "'w wedge_scheme \<Rightarrow> word_t" where
  "get_irq_vectors w = cpu_irq_vectors (get_cpu w)"

text \<open>A wedge with freshly initialised virtual CPUs, of which only the first has been turned on.\<close>

definition boot_vcpu :: "nat \<Rightarrow> vcpu_t" where
  "boot_vcpu i =
     \<lparr>vcpu_cpu = frontend_init, startup_status = (if i = 0 then status_on else status_off),
      booted_cpu_id = 0, idle_frame = 0, vaddr_flush_min = NOT 0, vaddr_flush_max = 0,
      vaddr_global_only = True, global_is_crap = False\<rparr>"

definition boot_wedge :: wedge where
  "boot_wedge =
     \<lparr>cur_vcpu = 0, vcpus = boot_vcpu, hwirq_words = (\<lambda>_. 0), mem = (\<lambda>_. 0), events = []\<rparr>"

section \<open>Virtual CPU bookkeeping\<close>

definition turn_on :: "vcpu_t \<Rightarrow> vcpu_t option" where
  "turn_on v = do { ASSERT (startup_status v \<noteq> status_on); Some (v\<lparr>startup_status := status_on\<rparr>) }"

definition is_off :: "vcpu_t \<Rightarrow> bool" where
  "is_off v = (startup_status v = status_off)"

definition is_booting_other_vcpu :: "vcpu_t \<Rightarrow> bool" where
  "is_booting_other_vcpu v = (startup_status v = status_bootstrap)"

definition get_booted_cpu_id :: "vcpu_t \<Rightarrow> word_t option" where
  "get_booted_cpu_id v = do { ASSERT (startup_status v = status_bootstrap); Some (booted_cpu_id v) }"

definition bootstrap_other_vcpu :: "word_t \<Rightarrow> vcpu_t \<Rightarrow> vcpu_t option" where
  "bootstrap_other_vcpu dest_id v =
     do { ASSERT (startup_status v \<noteq> status_bootstrap);
          Some (v\<lparr>startup_status := status_bootstrap, booted_cpu_id := dest_id\<rparr>) }"

definition bootstrap_other_vcpu_done :: "vcpu_t \<Rightarrow> vcpu_t option" where
  "bootstrap_other_vcpu_done v =
     do { ASSERT (startup_status v = status_bootstrap); Some (v\<lparr>startup_status := status_on\<rparr>) }"

definition is_idle :: "vcpu_t \<Rightarrow> bool" where
  "is_idle v = (idle_frame v \<noteq> 0)"

definition idle_enter :: "word_t \<Rightarrow> vcpu_t \<Rightarrow> vcpu_t option" where
  "idle_enter frame v = do { ASSERT (\<not> is_idle v); Some (v\<lparr>idle_frame := frame\<rparr>) }"

definition idle_exit :: "vcpu_t \<Rightarrow> vcpu_t option" where
  "idle_exit v = do { ASSERT (is_idle v); Some (v\<lparr>idle_frame := 0\<rparr>) }"

section \<open>Hardware interrupt words\<close>

abbreviation "HW_LATCH \<equiv> 0 :: int"
abbreviation "HW_MASK \<equiv> 1 :: int"
abbreviation "HW_SQUASH \<equiv> 2 :: int"
abbreviation "HW_VIRTUAL \<equiv> 3 :: int"

definition hw_bts :: "int \<Rightarrow> word_t \<Rightarrow> 'w wedge_scheme \<Rightarrow> (word_t \<times> 'w wedge_scheme) option" where
  "hw_bts k b w =
     (let i = k + bt_index b in
      if 0 \<le> i \<and> i < 4
      then Some (sbb (bit (hwirq_words w i) (bt_offset b)),
                 w\<lparr>hwirq_words := (hwirq_words w)(i := set_bit (bt_offset b) (hwirq_words w i))\<rparr>)
      else None)"

definition hw_btr :: "int \<Rightarrow> word_t \<Rightarrow> 'w wedge_scheme \<Rightarrow> (word_t \<times> 'w wedge_scheme) option" where
  "hw_btr k b w =
     (let i = k + bt_index b in
      if 0 \<le> i \<and> i < 4
      then Some (sbb (bit (hwirq_words w i) (bt_offset b)),
                 w\<lparr>hwirq_words := (hwirq_words w)(i := unset_bit (bt_offset b) (hwirq_words w i))\<rparr>)
      else None)"

definition hw_upd :: "int \<Rightarrow> (word_t \<Rightarrow> word_t) \<Rightarrow> 'w wedge_scheme \<Rightarrow> 'w wedge_scheme" where
  "hw_upd k f w = w\<lparr>hwirq_words := (hwirq_words w)(k := f (hwirq_words w k))\<rparr>"

definition set_hwirq_latch :: "word_t \<Rightarrow> 'w wedge_scheme \<Rightarrow> 'w wedge_scheme option" where
  "set_hwirq_latch hwirq w = map_option snd (hw_bts HW_LATCH hwirq w)"

definition test_and_set_hwirq_latch ::
    "word_t \<Rightarrow> 'w wedge_scheme \<Rightarrow> (bool \<times> 'w wedge_scheme) option" where
  "test_and_set_hwirq_latch hwirq w =
     do { (old, w') \<leftarrow> hw_bts HW_LATCH hwirq w; Some (old \<noteq> 0, w') }"

definition get_hwirq_latch :: "'w wedge_scheme \<Rightarrow> word_t" where
  "get_hwirq_latch w = hwirq_words w HW_LATCH"

definition is_hwirq_latched :: "word_t \<Rightarrow> 'w wedge_scheme \<Rightarrow> bool" where
  "is_hwirq_latched hwirq w = (hwirq_words w HW_LATCH AND shl1 hwirq \<noteq> 0)"

definition set_hwirq_mask :: "word_t \<Rightarrow> 'w wedge_scheme \<Rightarrow> 'w wedge_scheme option" where
  "set_hwirq_mask hwirq w = map_option snd (hw_bts HW_MASK hwirq w)"

definition clear_hwirq_mask :: "word_t \<Rightarrow> 'w wedge_scheme \<Rightarrow> 'w wedge_scheme option" where
  "clear_hwirq_mask hwirq w = map_option snd (hw_btr HW_MASK hwirq w)"

definition test_and_clear_hwirq_mask ::
    "word_t \<Rightarrow> 'w wedge_scheme \<Rightarrow> (bool \<times> 'w wedge_scheme) option" where
  "test_and_clear_hwirq_mask hwirq w =
     do { (old, w') \<leftarrow> hw_btr HW_MASK hwirq w; Some (old \<noteq> 0, w') }"

definition get_hwirq_mask :: "'w wedge_scheme \<Rightarrow> word_t" where
  "get_hwirq_mask w = hwirq_words w HW_MASK"

definition add_hwirq_squash :: "word_t \<Rightarrow> 'w wedge_scheme \<Rightarrow> 'w wedge_scheme" where
  "add_hwirq_squash hwirq w = hw_upd HW_SQUASH (\<lambda>x. x OR shl1 hwirq) w"

definition clear_hwirq_squash :: "word_t \<Rightarrow> 'w wedge_scheme \<Rightarrow> 'w wedge_scheme" where
  "clear_hwirq_squash hwirq w = hw_upd HW_SQUASH (\<lambda>x. x AND NOT (shl1 hwirq)) w"

definition is_hwirq_squashed :: "word_t \<Rightarrow> 'w wedge_scheme \<Rightarrow> bool" where
  "is_hwirq_squashed hwirq w = (hwirq_words w HW_SQUASH AND shl1 hwirq \<noteq> 0)"

definition get_hwirq_squash :: "'w wedge_scheme \<Rightarrow> word_t" where
  "get_hwirq_squash w = hwirq_words w HW_SQUASH"

definition add_virtual_hwirq :: "word_t \<Rightarrow> 'w wedge_scheme \<Rightarrow> 'w wedge_scheme" where
  "add_virtual_hwirq virq w = hw_upd HW_VIRTUAL (\<lambda>x. x OR shl1 virq) w"

definition clear_virtual_hwirq :: "word_t \<Rightarrow> 'w wedge_scheme \<Rightarrow> 'w wedge_scheme" where
  "clear_virtual_hwirq virq w = hw_upd HW_VIRTUAL (\<lambda>x. x AND NOT (shl1 virq)) w"

definition is_virtual_hwirq :: "word_t \<Rightarrow> 'w wedge_scheme \<Rightarrow> bool" where
  "is_virtual_hwirq virq w = (hwirq_words w HW_VIRTUAL AND shl1 virq \<noteq> 0)"

text \<open>
  The interrupt words as the constructor of \<^verbatim>\<open>intlogic_t\<close> leaves them in the L4Ka wedge. The two
  arguments are the build options \<^verbatim>\<open>CONFIG_DEVICE_PASSTHRU\<close> and
  \<^verbatim>\<open>CONFIG_DEVICE_PASSTHRU_KEYBOARD\<close>; \<^verbatim>\<open>hwirq_virtual\<close> is not assigned and is zero
  because the object is static.
\<close>

definition intlogic_hwirq_init :: "bool \<Rightarrow> bool \<Rightarrow> int \<Rightarrow> word_t" where
  "intlogic_hwirq_init passthru passthru_kbd =
     (let s0 = shl1 4 OR shl1 3;
          s1 = s0 OR shl1 0;
          s2 = s1 OR (shl1 9 OR shl1 8);
          s3 = s2 OR shl1 2;
          s4 = (if \<not> passthru then NOT 0 else s3);
          s5 = (if passthru_kbd then s4 AND NOT (shl1 1 OR shl1 12 OR shl1 5) else s4)
      in (\<lambda>_. 0)(HW_SQUASH := s5))"

section \<open>Laws of the state\<close>

named_theorems wedge_simps \<open>frame laws of the wedge state operations\<close>

lemma get_cpu_upd_cpu [simp]: "get_cpu (upd_cpu f w) = f (get_cpu w)"
  by (simp add: get_cpu_def upd_cpu_def)

lemma upd_cpu_frame [simp]:
  "cur_vcpu (upd_cpu f w) = cur_vcpu w"
  "hwirq_words (upd_cpu f w) = hwirq_words w"
  "mem (upd_cpu f w) = mem w"
  "events (upd_cpu f w) = events w"
  by (simp_all add: upd_cpu_def)

lemma log_event_frame [simp]:
  "get_cpu (log_event e w) = get_cpu w"
  "cur_vcpu (log_event e w) = cur_vcpu w"
  "vcpus (log_event e w) = vcpus w"
  "hwirq_words (log_event e w) = hwirq_words w"
  "mem (log_event e w) = mem w"
  "events (log_event e w) = events w @ [e]"
  by (simp_all add: log_event_def get_cpu_def)

lemma hw_upd_frame [simp]:
  "get_cpu (hw_upd k f w) = get_cpu w"
  "cur_vcpu (hw_upd k f w) = cur_vcpu w"
  "vcpus (hw_upd k f w) = vcpus w"
  "mem (hw_upd k f w) = mem w"
  "events (hw_upd k f w) = events w"
  "hwirq_words (hw_upd k f w) = (hwirq_words w)(k := f (hwirq_words w k))"
  by (simp_all add: hw_upd_def get_cpu_def)

lemma get_irq_vectors_frame [simp]:
  "get_irq_vectors (log_event e w) = get_irq_vectors w"
  "get_irq_vectors (hw_upd k f w) = get_irq_vectors w"
  by (simp_all add: get_irq_vectors_def)

text \<open>For interrupts below 32 the bit string operations stay inside their word.\<close>

lemma hw_bt_small:
  assumes "b < 32" "0 \<le> k" "k < 4"
  shows "hw_bts k b w = Some (sbb (bit (hwirq_words w k) (unat b)), hw_upd k (set_bit (unat b)) w)"
    and "hw_btr k b w = Some (sbb (bit (hwirq_words w k) (unat b)), hw_upd k (unset_bit (unat b)) w)"
  using assms by (simp_all add: hw_bts_def hw_btr_def hw_upd_def bt_small)

lemma sbb_ne_0 [simp]: "sbb c \<noteq> 0 \<longleftrightarrow> c" "(sbb c = 0) = (\<not> c)"
  by (simp_all add: sbb_def)

lemma hwirq_ops_small:
  assumes "b < 32"
  shows "set_hwirq_latch b w = Some (hw_upd HW_LATCH (set_bit (unat b)) w)"
    and "test_and_set_hwirq_latch b w =
           Some (bit (hwirq_words w HW_LATCH) (unat b), hw_upd HW_LATCH (set_bit (unat b)) w)"
    and "set_hwirq_mask b w = Some (hw_upd HW_MASK (set_bit (unat b)) w)"
    and "clear_hwirq_mask b w = Some (hw_upd HW_MASK (unset_bit (unat b)) w)"
    and "test_and_clear_hwirq_mask b w =
           Some (bit (hwirq_words w HW_MASK) (unat b), hw_upd HW_MASK (unset_bit (unat b)) w)"
  using assms
  by (simp_all add: set_hwirq_latch_def test_and_set_hwirq_latch_def set_hwirq_mask_def
      clear_hwirq_mask_def test_and_clear_hwirq_mask_def hw_bt_small)

lemma is_hwirq_squashed_iff: "is_hwirq_squashed b w \<longleftrightarrow> bit (hwirq_words w HW_SQUASH) (bt_offset b)"
  by (simp add: is_hwirq_squashed_def and_shl1)

text \<open>Flagging a cluster of vectors in the current CPU.\<close>

lemma cluster_small: "v < 256 \<Longrightarrow> drop_bit 3 v < (32 :: word_t)"
  by (simp add: word_less_nat_alt unat_drop_bit_eq drop_bit_nat_def less_mult_imp_div_less)

lemma bt_offset_cluster: "v < 256 \<Longrightarrow> bt_offset (drop_bit 3 v) = unat v div 8"
  using cluster_small [of v]
  by (simp add: bt_offset_small unat_drop_bit_eq drop_bit_nat_def)

definition flag_upd :: "(word_t \<Rightarrow> word_t) \<Rightarrow> 'w wedge_scheme \<Rightarrow> 'w wedge_scheme" where
  "flag_upd f w = upd_cpu (\<lambda>c. c\<lparr>cpu_irq_vectors := f (cpu_irq_vectors c)\<rparr>) w"

lemma flag_upd_frame [simp]:
  "get_irq_vectors (flag_upd f w) = f (get_irq_vectors w)"
  "cur_vcpu (flag_upd f w) = cur_vcpu w"
  "hwirq_words (flag_upd f w) = hwirq_words w"
  "mem (flag_upd f w) = mem w"
  "events (flag_upd f w) = events w"
  by (simp_all add: flag_upd_def get_irq_vectors_def)

lemma irq_vector_small:
  assumes "v < 256"
  shows "set_irq_vector v w = Some (flag_upd (set_bit (unat v div 8)) w)"
    and "clear_irq_vector v w = Some (flag_upd (unset_bit (unat v div 8)) w)"
  using assms cluster_small [of v]
  by (simp_all add: set_irq_vector_def clear_irq_vector_def cpu_set_irq_vector_def
      cpu_clear_irq_vector_def flag_upd_def upd_cpu_def bt_offset_cluster)

end
