(* ===== verification/Paging.thy ===== *)
theory Paging
  imports Wedge_State
begin

text \<open>
  Guest memory and the IA32 page tables: the little-endian accesses the C code performs through
  pointers, the page table entries \<^verbatim>\<open>pgent_t\<close> of
  \<^verbatim>\<open>ia32/cpu.h\<close>, and the page walk \<^verbatim>\<open>backend_resolve_addr\<close> of
  \<^verbatim>\<open>l4ka/common/backend.cc\<close>.
\<close>

section \<open>Memory accesses\<close>

type_synonym memory = "u32 \<Rightarrow> u8"

definition load16 :: "u32 \<Rightarrow> memory \<Rightarrow> u16" where
  "load16 a m = ucast (m a) OR push_bit 8 (ucast (m (a + 1)))"

definition load32 :: "u32 \<Rightarrow> memory \<Rightarrow> u32" where
  "load32 a m = ucast (m a) OR push_bit 8 (ucast (m (a + 1)))
     OR push_bit 16 (ucast (m (a + 2))) OR push_bit 24 (ucast (m (a + 3)))"

definition load64 :: "u32 \<Rightarrow> memory \<Rightarrow> u64" where
  "load64 a m = ucast (load32 a m) OR push_bit 32 (ucast (load32 (a + 4) m))"

definition store32 :: "u32 \<Rightarrow> u32 \<Rightarrow> memory \<Rightarrow> memory" where
  "store32 a v m = m(a := ucast v, a + 1 := ucast (drop_bit 8 v), a + 2 := ucast (drop_bit 16 v),
                     a + 3 := ucast (drop_bit 24 v))"

definition upd_mem :: "(memory \<Rightarrow> memory) \<Rightarrow> 'w wedge_scheme \<Rightarrow> 'w wedge_scheme" where
  "upd_mem f w = w\<lparr>mem := f (mem w)\<rparr>"

section \<open>Page table entries\<close>

type_synonym pgent_t = u32

definition pgent_is_valid :: "pgent_t \<Rightarrow> bool" where "pgent_is_valid p = (getf 0 1 p = 1)"
definition pgent_is_superpage :: "pgent_t \<Rightarrow> bool" where "pgent_is_superpage p = (getf 7 1 p = 1)"
definition pgent_is_kernel :: "pgent_t \<Rightarrow> bool" where "pgent_is_kernel p = (getf 2 1 p = 0)"

definition pgent_set_address :: "u32 \<Rightarrow> pgent_t \<Rightarrow> pgent_t" where
  "pgent_set_address new_addr p = (new_addr AND PAGE_MASK) OR (p AND NOT PAGE_MASK)"

definition pgent_get_address :: "pgent_t \<Rightarrow> u32" where
  "pgent_get_address p = p AND PAGE_MASK"

definition get_pdir_idx :: "u32 \<Rightarrow> u32" where "get_pdir_idx addr = drop_bit 22 addr"

definition get_ptab_idx :: "u32 \<Rightarrow> u32" where
  "get_ptab_idx addr = drop_bit 12 (addr AND NOT PAGEDIR_MASK)"

section \<open>The page walk\<close>

text \<open>
  Where the wedge and the guest kernel are mapped: \<^verbatim>\<open>get_kernel_vaddr\<close>,
  \<^verbatim>\<open>get_wedge_vaddr\<close>, \<^verbatim>\<open>get_wedge_end_vaddr\<close> and \<^verbatim>\<open>get_wedge_paddr\<close> of the
  VCPU.
\<close>

record vm_layout =
  kernel_vaddr :: word_t
  wedge_vaddr :: word_t
  wedge_end_vaddr :: word_t
  wedge_paddr :: word_t

text \<open>
  The result is the entry found and the kernel address assigned to the reference argument;
  for an address of the wedge the entry is the static \<^verbatim>\<open>wedge_pgent\<close>, whose flags are never
  set, and no kernel address is assigned.
\<close>

definition backend_resolve_addr ::
    "vm_layout \<Rightarrow> word_t \<Rightarrow> 'w wedge_scheme \<Rightarrow> (pgent_t \<times> word_t option) option" where
  "backend_resolve_addr lay user_vaddr w =
     (let kernel_start = kernel_vaddr lay in
      if wedge_vaddr lay \<le> user_vaddr \<and> user_vaddr < wedge_end_vaddr lay then
        Some (pgent_set_address (user_vaddr - wedge_vaddr lay + wedge_paddr lay) 0, None)
      else (
        let pdir = cr3_get_pdir_addr (cpu_cr3 (get_cpu w)) + kernel_start;
            pde = load32 (pdir + 4 * get_pdir_idx user_vaddr) (mem w) in
        if \<not> pgent_is_valid pde then None
        else if pgent_is_superpage pde then
          Some (pde, Some ((pgent_get_address pde AND PAGEDIR_MASK)
                           + (user_vaddr AND NOT PAGEDIR_MASK) + kernel_start))
        else (
          let ptab = pgent_get_address pde + kernel_start;
              pte = load32 (ptab + 4 * get_ptab_idx user_vaddr) (mem w) in
          if \<not> pgent_is_valid pte then None
          else Some (pte, Some (pgent_get_address pte + (user_vaddr AND NOT PAGE_MASK) + kernel_start)))))"

section \<open>Memory laws\<close>

lemma bit_ucast_8_32: "bit (ucast (b :: u8) :: u32) i \<longleftrightarrow> bit b i"
  by (auto simp: bit_simps dest: bit_u8_less)

lemma load32_store32_same: "load32 a (store32 a v m) = v"
proof -
  have "bit (load32 a (store32 a v m)) i \<longleftrightarrow> bit v i" if "i < 32" for i
  proof -
    consider "i < 8" | "8 \<le> i" "i < 16" | "16 \<le> i" "i < 24" | "24 \<le> i" "i < 32"
      using \<open>i < 32\<close> by linarith
    then show ?thesis
      by cases (auto simp: load32_def store32_def bit_simps)
  qed
  then show ?thesis by (intro bit_word_eqI) auto
qed

definition separate4 :: "u32 \<Rightarrow> u32 \<Rightarrow> bool" where
  "separate4 a b \<longleftrightarrow> 4 \<le> b - a \<and> 4 \<le> a - b"

lemma separate4_neq:
  assumes "separate4 a b" "x \<in> {0, 1, 2, 3}" "y \<in> {0, 1, 2, 3}"
  shows "b + y \<noteq> a + x"
proof
  assume "b + y = a + x"
  then have "b - a = x - y" "a - b = y - x" by (simp_all add: algebra_simps)
  with assms show False by (auto simp: separate4_def word_le_nat_alt)
qed

lemma load32_store32_other:
  assumes "separate4 a b"
  shows "load32 b (store32 a v m) = load32 b m"
proof -
  have "store32 a v m (b + y) = m (b + y)" if "y \<in> {0, 1, 2, 3}" for y
    using separate4_neq [OF assms _ that, of 0] separate4_neq [OF assms _ that, of 1]
      separate4_neq [OF assms _ that, of 2] separate4_neq [OF assms _ that, of 3]
    by (simp add: store32_def)
  from this [of 0] this [of 1] this [of 2] this [of 3] show ?thesis by (simp add: load32_def)
qed

lemma upd_mem_frame [simp]:
  "mem (upd_mem f w) = f (mem w)" "get_cpu (upd_mem f w) = get_cpu w"
  "cur_vcpu (upd_mem f w) = cur_vcpu w" "hwirq_words (upd_mem f w) = hwirq_words w"
  "events (upd_mem f w) = events w" "vcpus (upd_mem f w) = vcpus w"
  by (simp_all add: upd_mem_def get_cpu_def)

section \<open>Addresses of one page\<close>

lemma and_plus_andnot: "(x AND m) + (x AND NOT m) = x" for x m :: u32
proof -
  have "(x AND m) AND (x AND NOT m) = 0" by (intro bit_word_eqI) (auto simp: bit_simps)
  then have "(x AND m) + (x AND NOT m) = (x AND m) OR (x AND NOT m)"
    by (rule disjunctive_add_eq_or)
  also have "\<dots> = x" by (intro bit_word_eqI) (auto simp: bit_simps)
  finally show ?thesis .
qed

lemma page_bits:
  assumes "a AND PAGE_MASK = b AND PAGE_MASK" "12 \<le> i"
  shows "bit a i = bit b i"
proof (cases "i < 32")
  case True
  have m: "PAGE_MASK = push_bit 12 (mask 20)" by (simp add: PAGE_MASK_def mask_eq_exp_minus_1)
  have "bit (a AND PAGE_MASK) i = bit (b AND PAGE_MASK) i" using assms(1) by simp
  moreover have "i - 12 < 20" using True assms(2) by linarith
  ultimately show ?thesis using True assms(2) unfolding m by (simp add: bit_simps)
qed (use bit_u32_less in blast)

lemma same_page:
  assumes "a AND PAGE_MASK = b AND PAGE_MASK"
  shows "get_pdir_idx a = get_pdir_idx b" "get_ptab_idx a = get_ptab_idx b"
    "a AND PAGEDIR_MASK = b AND PAGEDIR_MASK"
proof -
  show "get_pdir_idx a = get_pdir_idx b"
    unfolding get_pdir_idx_def
    by (intro bit_word_eqI) (simp add: bit_simps page_bits [OF assms])
  show "get_ptab_idx a = get_ptab_idx b"
    unfolding get_ptab_idx_def
    by (intro bit_word_eqI) (simp add: bit_simps page_bits [OF assms])
  have "a AND PAGEDIR_MASK = (a AND PAGE_MASK) AND PAGEDIR_MASK"
    "b AND PAGEDIR_MASK = (b AND PAGE_MASK) AND PAGEDIR_MASK"
    by (simp_all add: PAGE_MASK_def PAGEDIR_MASK_def and.assoc)
  then show "a AND PAGEDIR_MASK = b AND PAGEDIR_MASK" using assms by simp
qed

lemma same_page_offset:
  fixes a b m :: u32
  assumes "a AND m = b AND m"
  shows "(a AND NOT m) - a = (b AND NOT m) - b"
proof -
  have "(x AND NOT m) - x = - (x AND m)" for x :: u32
    using and_plus_andnot [of x m] by (metis add_diff_cancel_right' diff_add_cancel minus_diff_eq)
  then show ?thesis using assms by simp
qed

section \<open>Properties\<close>


definition page_example :: wedge where
  "page_example = upd_mem (\<lambda>m. store32 0x2004 0x5003 (store32 0x1000 0x2003 m))
     (upd_cpu (\<lambda>c. c\<lparr>cpu_cr3 := 0x1000\<rparr>) boot_wedge)"


end
