(* ===== verification/Cstring.thy ===== *)
theory Cstring
  imports Paging "HOL-Library.Sublist"
begin

text \<open>
  The freestanding C string and memory functions: \<^verbatim>\<open>common/string.cc\<close> and
  \<^verbatim>\<open>common/memory.cc\<close>. Pointers are 32-bit addresses into byte-addressed memory, and pointer
  arithmetic wraps. A counted loop is a fold over the counter; a loop that scans for a terminating
  byte may run forever and is a partial function.
\<close>

section \<open>Memory functions\<close>

text \<open>\<^verbatim>\<open>zero_mem\<close> clears whole words while at least four bytes are left.\<close>

function zero_mem :: "u32 \<Rightarrow> word_t \<Rightarrow> memory \<Rightarrow> memory" where
  "zero_mem data sz m =
     (if 4 \<le> sz then zero_mem (data + 4) (sz - 4) (store32 data 0 m) else m)"
  by pat_completeness auto

termination
  by (relation "measure (\<lambda>(data, sz, m). unat sz)") (auto simp: word_le_nat_alt unat_sub)

declare zero_mem.simps [simp del]

definition memcpy_step :: "u32 \<Rightarrow> u32 \<Rightarrow> nat \<Rightarrow> memory \<Rightarrow> memory" where
  "memcpy_step dest src i m = m(dest + of_nat i := m (src + of_nat i))"

definition memcpy :: "u32 \<Rightarrow> u32 \<Rightarrow> word_t \<Rightarrow> memory \<Rightarrow> memory" where
  "memcpy dest src n m = fold (memcpy_step dest src) [0..<unat n] m"

definition memmove_step :: "u32 \<Rightarrow> u32 \<Rightarrow> word_t \<Rightarrow> nat \<Rightarrow> memory \<Rightarrow> memory" where
  "memmove_step dest src n i m = m(dest + (n - of_nat i) := m (src + (n - of_nat i)))"

definition memmove :: "u32 \<Rightarrow> u32 \<Rightarrow> word_t \<Rightarrow> memory \<Rightarrow> memory" where
  "memmove dest src n m =
     (if dest \<le> src then fold (memcpy_step dest src) [0..<unat n] m
      else fold (memmove_step dest src n) [0..<unat n] m)"

definition memset :: "u32 \<Rightarrow> u8 \<Rightarrow> word_t \<Rightarrow> memory \<Rightarrow> memory" where
  "memset s c n m = fold (\<lambda>i m. m(s + of_nat i := c)) [0..<unat n] m"

text \<open>The versions of \<^verbatim>\<open>common/memory.cc\<close>.\<close>

definition wedge_memset :: "u32 \<Rightarrow> u32 \<Rightarrow> word_t \<Rightarrow> memory \<Rightarrow> memory" where
  "wedge_memset s c sz m = fold (\<lambda>idx m. m(s + of_nat idx := ucast c)) [0..<unat sz] m"

definition memzero :: "u32 \<Rightarrow> word_t \<Rightarrow> memory \<Rightarrow> memory" where
  "memzero mem_start sz m =
     fold (\<lambda>idx m. store32 (mem_start + 4 * of_nat idx) 0 m) [0..<unat sz div 4] m"

text \<open>
  The string instructions: \<^verbatim>\<open>rep movsl\<close> and \<^verbatim>\<open>rep movsb\<close> copy \<open>c\<close> words or bytes in
  ascending order and advance both pointers.
\<close>

primrec rep_movsl :: "nat \<Rightarrow> u32 \<Rightarrow> u32 \<Rightarrow> memory \<Rightarrow> u32 \<times> u32 \<times> memory" where
  "rep_movsl 0 edi esi m = (edi, esi, m)"
| "rep_movsl (Suc c) edi esi m = rep_movsl c (edi + 4) (esi + 4) (store32 edi (load32 esi m) m)"

primrec rep_movsb :: "nat \<Rightarrow> u32 \<Rightarrow> u32 \<Rightarrow> memory \<Rightarrow> u32 \<times> u32 \<times> memory" where
  "rep_movsb 0 edi esi m = (edi, esi, m)"
| "rep_movsb (Suc c) edi esi m = rep_movsb c (edi + 1) (esi + 1) (m(edi := m esi))"

definition wedge_memcpy :: "u32 \<Rightarrow> u32 \<Rightarrow> word_t \<Rightarrow> memory \<Rightarrow> memory" where
  "wedge_memcpy dest src n m =
     (if dest mod 4 = 0 \<and> src mod 4 = 0 then
        (let (edi, esi, m) = rep_movsl (unat (drop_bit 2 n)) dest src m;
             (_, _, m) = rep_movsb (unat (n AND 3)) edi esi m
         in m)
      else (let (_, _, m) = rep_movsb (unat n) dest src m in m))"

section \<open>String functions\<close>

partial_function (option) strlen_loop :: "u32 \<Rightarrow> u32 \<Rightarrow> memory \<Rightarrow> u32 option" where
  "strlen_loop str len m = (if m (str + len) \<noteq> 0 then strlen_loop str (len + 1) m else Some len)"

definition strlen :: "u32 \<Rightarrow> memory \<Rightarrow> u32 option" where
  "strlen str m = strlen_loop str 0 m"

text \<open>Characters are signed: \<^verbatim>\<open>strcmp\<close> compares them as \<^verbatim>\<open>char\<close>.\<close>

partial_function (option) strcmp :: "u32 \<Rightarrow> u32 \<Rightarrow> memory \<Rightarrow> int option" where
  "strcmp str1 str2 m =
     (if m str1 \<noteq> 0 \<and> m str2 \<noteq> 0 then
        if sint (m str1) < sint (m str2) then Some (- 1)
        else if sint (m str1) > sint (m str2) then Some 1
        else strcmp (str1 + 1) (str2 + 1) m
      else if m str2 \<noteq> 0 then Some (- 1)
      else if m str1 \<noteq> 0 then Some 1
      else Some 0)"

text \<open>The loop copies at most \<open>n\<close> bytes and stores the terminator behind the last one.\<close>

function strncpy_loop :: "u32 \<Rightarrow> u32 \<Rightarrow> word_t \<Rightarrow> word_t \<Rightarrow> memory \<Rightarrow> word_t \<times> memory" where
  "strncpy_loop dest src n i m =
     (if i < n \<and> m (src + i) \<noteq> 0
      then strncpy_loop dest src n (i + 1) (m(dest + i := m (src + i))) else (i, m))"
  by pat_completeness auto

termination
  by (relation "measure (\<lambda>(dest, src, n, i, m). unat n - unat i)")
    (auto simp: unat_suc_less word_less_nat_alt)

declare strncpy_loop.simps [simp del]

definition strncpy :: "u32 \<Rightarrow> u32 \<Rightarrow> word_t \<Rightarrow> memory \<Rightarrow> memory" where
  "strncpy dest src n m = (let (i, m) = strncpy_loop dest src n 0 m in m(dest + i := 0))"

partial_function (option) strcpy :: "u32 \<Rightarrow> u32 \<Rightarrow> memory \<Rightarrow> memory option" where
  "strcpy d s m = (if m s \<noteq> 0 then strcpy (d + 1) (s + 1) (m(d := m s)) else Some (m(d := 0)))"

text \<open>
  \<^verbatim>\<open>strncmp\<close>: the counter is compared with zero after the decrement; a count of zero returns at
  once. The difference is that of the bytes as unsigned numbers.
\<close>

primrec strncmp_loop :: "nat \<Rightarrow> u32 \<Rightarrow> u32 \<Rightarrow> memory \<Rightarrow> int" where
  "strncmp_loop 0 s1 s2 m = 0"
| "strncmp_loop (Suc n) s1 s2 m =
     (if m s1 \<noteq> m s2 then uint (m s1) - uint (m s2)
      else if m s1 = 0 then 0
      else strncmp_loop n (s1 + 1) (s2 + 1) m)"

definition strncmp :: "u32 \<Rightarrow> u32 \<Rightarrow> word_t \<Rightarrow> memory \<Rightarrow> int" where
  "strncmp s1 s2 n m = strncmp_loop (unat n) s1 s2 m"

text \<open>
  \<^verbatim>\<open>strstr\<close>: the inner loop advances behind the next occurrence of the first character and is
  left with a null pointer at the end of the string.
\<close>

partial_function (option) strstr_loop :: "u8 \<Rightarrow> u32 \<Rightarrow> u32 \<Rightarrow> u32 \<Rightarrow> memory \<Rightarrow> u32 option" where
  "strstr_loop c fnd len s m =
     (let sc = m s; s = s + 1 in
      if sc = 0 then Some 0
      else if sc \<noteq> c then strstr_loop c fnd len s m
      else if strncmp s fnd len m \<noteq> 0 then strstr_loop c fnd len s m
      else Some (s - 1))"

definition strstr :: "u32 \<Rightarrow> u32 \<Rightarrow> memory \<Rightarrow> u32 option" where
  "strstr s fnd m =
     (let c = m fnd; fnd = fnd + 1 in
      if c \<noteq> 0 then do { len \<leftarrow> strlen fnd m; strstr_loop c fnd len s m } else Some s)"

section \<open>Copying\<close>

lemma memcpy_steps:
  assumes "dest = src \<or> n \<le> dest - src" "k \<le> unat n"
  shows "fold (memcpy_step dest src) [0..<k] m =
    (\<lambda>a. if unat (a - dest) < k then m (src + (a - dest)) else m a)"
  using assms(2)
proof (induction k)
  case 0
  then show ?case by simp
next
  case (Suc k)
  have k: "unat (of_nat k :: u32) = k"
    using Suc.prems unsigned_less [of n, where 'a = nat] by (simp add: unat_of_nat)
  define f where "f = (\<lambda>a. if unat (a - dest) < k then m (src + (a - dest)) else m a)"
  have IH: "fold (memcpy_step dest src) [0..<k] m = f" using Suc by (simp add: f_def)
  have "\<not> unat (src + of_nat k - dest) < k \<or> dest = src"
  proof (cases "dest = src")
    case False
    then have "k < unat (dest - src)" using assms(1) Suc.prems by (simp add: word_le_nat_alt)
    then have "unat (of_nat k - (dest - src)) = k + 2 ^ 32 - unat (dest - src)"
      using k by (simp add: unat_sub_if' word_le_nat_alt)
    moreover have "unat (dest - src) < 2 ^ 32" using unsigned_less [of "dest - src", where 'a = nat] by simp
    moreover have e: "src + of_nat k - dest = of_nat k - (dest - src)" by simp
    ultimately have "k \<le> unat (src + of_nat k - dest)" unfolding e by linarith
    then show ?thesis by simp
  qed simp
  then have read: "f (src + of_nat k) = m (src + of_nat k)" by (auto simp: f_def)
  have step: "fold (memcpy_step dest src) [0..<Suc k] m = f(dest + of_nat k := m (src + of_nat k))"
    using IH read by (simp add: memcpy_step_def [of _ _ k f])
  have "unat (a - dest) < Suc k \<longleftrightarrow> unat (a - dest) < k \<or> a = dest + of_nat k" for a
  proof -
    have "unat (a - dest) = k \<longleftrightarrow> a - dest = of_nat k" using k by (metis unat_eq_of_nat)
    also have "\<dots> \<longleftrightarrow> a = dest + of_nat k" by (auto simp: algebra_simps)
    finally show ?thesis by auto
  qed
  then show ?case unfolding step by (auto simp: f_def)
qed

text \<open>The bytes that a forward copy of \<open>n\<close> bytes leaves behind.\<close>

definition copied :: "u32 \<Rightarrow> u32 \<Rightarrow> word_t \<Rightarrow> memory \<Rightarrow> memory" where
  "copied dest src n m = (\<lambda>a. if a - dest < n then m (src + (a - dest)) else m a)"

lemma memcpy_copied:
  assumes "dest = src \<or> n \<le> dest - src"
  shows "memcpy dest src n m = copied dest src n m"
  using memcpy_steps [OF assms, of "unat n"] by (simp add: memcpy_def copied_def word_less_nat_alt)

section \<open>Word-wise copying equals byte-wise copying\<close>

lemma rep_movsb_fold:
  "rep_movsb c (dest + of_nat k) (src + of_nat k) m =
     (dest + of_nat (k + c), src + of_nat (k + c), fold (memcpy_step dest src) [k..<k + c] m)"
proof (induction c arbitrary: k m)
  case 0
  then show ?case by simp
next
  case (Suc c)
  have e: "dest + of_nat k + 1 = dest + of_nat (Suc k)" "src + of_nat k + 1 = src + of_nat (Suc k)" by simp_all
  have "[k..<k + Suc c] = k # [Suc k..<Suc k + c]" by (simp add: upt_conv_Cons)
  then show ?case
    unfolding rep_movsb.simps e Suc [of "Suc k"] by (simp add: memcpy_step_def [of _ _ k m])
qed

lemma load32_bytes:
  "ucast (load32 a m) = m a" "ucast (drop_bit 8 (load32 a m)) = m (a + 1)"
  "ucast (drop_bit 16 (load32 a m)) = m (a + 2)" "ucast (drop_bit 24 (load32 a m)) = m (a + 3)"
  by (rule bit_word_eqI; auto simp: load32_def bit_simps dest: bit_imp_le_length)+

lemma aligned_offsets:
  fixes d s :: u32
  assumes "d mod 4 = 0" "s mod 4 = 0"
  shows "s + x + 1 \<noteq> d + x" "s + x + 2 \<noteq> d + x" "s + x + 3 \<noteq> d + x" "s + x + 2 \<noteq> d + x + 1"
    "s + x + 3 \<noteq> d + x + 1" "s + x + 3 \<noteq> d + x + 2"
proof -
  have t: "unat d mod 4 = 0" "unat s mod 4 = 0" using assms by (simp_all add: word_unat_eq_iff unat_mod)
  have "unat (a + c) mod 4 = unat c mod 4" if "unat a mod 4 = 0" for a c :: u32
    using that mod_mod_cancel [of 4 "2 ^ 32" "unat a + unat c"] mod_add_left_eq [of "unat a" 4 "unat c"]
    by (simp add: unat_word_ariths)
  then have ne: "s + c \<noteq> d + c'" if "unat c mod 4 \<noteq> unat c' mod 4" for c c'
    using that t by metis
  have "s + 1 \<noteq> d + 0" "s + 2 \<noteq> d + 0" "s + 3 \<noteq> d + 0" "s + 2 \<noteq> d + 1" "s + 3 \<noteq> d + 1" "s + 3 \<noteq> d + 2"
    by (rule ne; simp)+
  then show "s + x + 1 \<noteq> d + x" "s + x + 2 \<noteq> d + x" "s + x + 3 \<noteq> d + x" "s + x + 2 \<noteq> d + x + 1"
    "s + x + 3 \<noteq> d + x + 1" "s + x + 3 \<noteq> d + x + 2"
    by (auto simp: algebra_simps)
qed

lemma copy_word_step:
  assumes "dest mod 4 = 0" "src mod 4 = 0"
  shows "store32 (dest + of_nat k) (load32 (src + of_nat k) m) m =
           fold (memcpy_step dest src) [k..<k + 4] m"
proof -
  have "[k..<k + 4] = [k, k + 1, k + 2, k + 3]" by (simp add: upt_rec)
  then show ?thesis
    using aligned_offsets [OF assms, of "of_nat k"]
    by (simp add: store32_def load32_bytes memcpy_step_def add.assoc) (simp add: add.commute)
qed

lemma rep_movsl_fold:
  assumes "dest mod 4 = 0" "src mod 4 = 0"
  shows "rep_movsl c (dest + of_nat k) (src + of_nat k) m =
     (dest + of_nat (k + 4 * c), src + of_nat (k + 4 * c), fold (memcpy_step dest src) [k..<k + 4 * c] m)"
proof (induction c arbitrary: k m)
  case 0
  then show ?case by simp
next
  case (Suc c)
  have e: "dest + of_nat k + 4 = dest + of_nat (k + 4)" "src + of_nat k + 4 = src + of_nat (k + 4)" by simp_all
  have "[k..<k + 4 * Suc c] = [k..<k + 4] @ [k + 4..<k + 4 + 4 * c]"
    using upt_add_eq_append [of k "k + 4" "4 * c"] by (simp add: add.assoc)
  with Suc [of "k + 4"] show ?case
    unfolding rep_movsl.simps copy_word_step [OF assms] e by (simp add: algebra_simps)
qed

section \<open>Strings\<close>

text \<open>The string \<open>xs\<close> with its terminator lies at address \<open>p\<close>.\<close>

fun str_at :: "memory \<Rightarrow> u32 \<Rightarrow> u8 list \<Rightarrow> bool" where
  "str_at m p [] \<longleftrightarrow> m p = 0"
| "str_at m p (x # xs) \<longleftrightarrow> x \<noteq> 0 \<and> m p = x \<and> str_at m (p + 1) xs"

lemma strlen_loop_str:
  "str_at m (p + len) xs \<Longrightarrow> strlen_loop p len m = Some (len + of_nat (length xs))"
proof (induction xs arbitrary: len)
  case Nil
  then show ?case by (simp add: strlen_loop.simps)
next
  case (Cons x xs)
  then have "strlen_loop p (len + 1) m = Some (len + 1 + of_nat (length xs))"
    by (intro Cons.IH) (simp add: add.assoc)
  with Cons.prems show ?case by (subst strlen_loop.simps) (simp add: add.assoc)
qed

lemma strncmp_loop_prefix:
  "str_at m s1 xs \<Longrightarrow> str_at m s2 ys \<Longrightarrow> strncmp_loop n s1 s2 m = 0 \<longleftrightarrow> take n xs = take n ys"
proof (induction n arbitrary: s1 s2 xs ys)
  case 0
  then show ?case by simp
next
  case (Suc n)
  then show ?case by (cases xs; cases ys) (auto simp: unsigned_eq_0_iff simp flip: word_uint_eq_iff)
qed

text \<open>The first position at which \<open>ys\<close> occurs.\<close>

fun first_occ :: "'a list \<Rightarrow> 'a list \<Rightarrow> nat option" where
  "first_occ ys [] = (if ys = [] then Some 0 else None)"
| "first_occ ys (x # xs) =
     (if prefix ys (x # xs) then Some 0 else map_option Suc (first_occ ys xs))"

lemma first_occ_None: "first_occ ys xs = None \<longleftrightarrow> \<not> sublist ys xs"
  by (induction xs) (auto simp: sublist_Cons_right)

lemma first_occ_Some:
  "first_occ ys xs = Some i \<Longrightarrow> prefix ys (drop i xs) \<and> i \<le> length xs \<and> (\<forall>j<i. \<not> prefix ys (drop j xs))"
proof (induction xs arbitrary: i)
  case Nil
  then show ?case by (simp split: if_splits)
next
  case (Cons x xs)
  show ?case
  proof (cases "prefix ys (x # xs)")
    case False
    with Cons.prems obtain k where k: "first_occ ys xs = Some k" "i = Suc k" by auto
    have "\<not> prefix ys (drop j (x # xs))" if "j < Suc k" for j
      using that Cons.IH [OF k(1)] False by (cases j) auto
    with Cons.IH [OF k(1)] k show ?thesis by auto
  qed (use Cons.prems in auto)
qed

lemma strstr_loop_str:
  assumes "str_at m fnd ys" "unat len = length ys" "c \<noteq> 0"
  shows "str_at m s xs \<Longrightarrow> strstr_loop c fnd len s m =
    Some (case first_occ (c # ys) xs of None \<Rightarrow> 0 | Some i \<Rightarrow> s + of_nat i)"
proof (induction xs arbitrary: s)
  case Nil
  then show ?case by (simp add: strstr_loop.simps)
next
  case (Cons x xs)
  have cmp: "strncmp (s + 1) fnd len m = 0 \<longleftrightarrow> prefix ys xs"
    using strncmp_loop_prefix [of m "s + 1" xs fnd ys "length ys"] Cons.prems assms
    by (auto simp: strncmp_def prefix_def) (metis append_take_drop_id)+
  have "strstr_loop c fnd len (s + 1) m =
      Some (case first_occ (c # ys) xs of None \<Rightarrow> 0 | Some i \<Rightarrow> s + 1 + of_nat i)"
    by (rule Cons.IH) (use Cons.prems in simp)
  with Cons.prems cmp show ?case
    by (subst strstr_loop.simps) (auto simp: Let_def split: option.splits)
qed

section \<open>Properties\<close>

text \<open>
  C22: The optimised memory copy of the wedge, which copies words with string instructions when
  both pointers are aligned and the remaining bytes afterwards, changes memory exactly like the
  byte-by-byte loop, for all pointers and lengths, overlapping or not and across address wrap-around.
\<close>

theorem wedge_memcpy_eq_memcpy: "wedge_memcpy dest src n m = memcpy dest src n m"
proof -
  have n: "unat (drop_bit 2 n) * 4 + unat (n AND 3) = unat n"
  proof -
    have "n AND 3 = take_bit 2 n" by (simp add: take_bit_eq_mask mask_eq_exp_minus_1)
    then show ?thesis
      by (simp add: unat_drop_bit_eq drop_bit_nat_def unsigned_take_bit_eq take_bit_nat_def)
  qed
  show ?thesis
  proof (cases "dest mod 4 = 0 \<and> src mod 4 = 0")
    case True
    define k where "k = 4 * unat (drop_bit 2 n)"
    have "[0..<unat n] = [0..<k] @ [k..<k + unat (n AND 3)]"
      using n upt_add_eq_append [of 0 k "unat (n AND 3)"] by (simp add: k_def mult.commute)
    then show ?thesis
      using True rep_movsl_fold [of dest src "unat (drop_bit 2 n)" 0 m]
        rep_movsb_fold [of "unat (n AND 3)" dest k src "fold (memcpy_step dest src) [0..<k] m"]
      by (simp add: wedge_memcpy_def memcpy_def k_def [symmetric])
  next
    case False
    then show ?thesis
      using rep_movsb_fold [of "unat n" dest 0 src m] by (auto simp: wedge_memcpy_def memcpy_def)
  qed
qed

text \<open>
  C28: Copying is correct unless the destination begins inside the source: every byte of the
  destination receives the original byte of the source, and no other byte changes.
\<close>

theorem memcpy_correct:
  assumes "dest = src \<or> n \<le> dest - src"
  shows "(\<forall>i < n. memcpy dest src n m (dest + i) = m (src + i)) \<and>
         (\<forall>a. \<not> a - dest < n \<longrightarrow> memcpy dest src n m a = m a)"
  by (simp add: memcpy_copied [OF assms] copied_def)

theorem memcpy_correct_witness:
  "memcpy 0x2000 0x1000 0x100 (\<lambda>a. ucast a) 0x2034 = 0x34"
  using memcpy_correct [of "0x2000" "0x1000" "0x100" "\<lambda>a. ucast a"]
  by (auto dest: spec [of _ "0x34"])

lemma memmove_down_steps:
  fixes dest src n :: u32
  assumes "src < dest" "unat dest + unat n < 2 ^ 32" "k \<le> unat n"
  shows "fold (memmove_step dest src n) [0..<k] m =
    (\<lambda>a. if unat n - k < unat (a - dest) \<and> unat (a - dest) \<le> unat n then m (src + (a - dest)) else m a)"
  using assms(3)
proof (induction k)
  case 0
  then show ?case by (auto simp: fun_eq_iff)
next
  case (Suc k)
  define f where "f = (\<lambda>a. if unat n - k < unat (a - dest) \<and> unat (a - dest) \<le> unat n
    then m (src + (a - dest)) else m a)"
  have k: "unat (of_nat k :: u32) = k"
    using Suc.prems assms(2) by (simp add: unat_of_nat)
  have IH: "fold (memmove_step dest src n) [0..<k] m = f" using Suc by (simp add: f_def)
  have j: "unat (n - of_nat k) = unat n - k"
    using Suc.prems k unat_minus_bound [of "of_nat k" n] by linarith
  have D: "unat (dest - src) = unat dest - unat src" "unat src < unat dest"
    using assms(1) by (simp_all add: unat_sub word_less_nat_alt word_le_nat_alt)
  have e: "src + (n - of_nat k) - dest = (n - of_nat k) - (dest - src)" by simp
  have "unat (src + (n - of_nat k) - dest) \<le> unat n - k \<or> unat n < unat (src + (n - of_nat k) - dest)"
    unfolding e using j D assms(2) Suc.prems by (simp add: unat_sub_if' word_le_nat_alt) arith
  then have read: "f (src + (n - of_nat k)) = m (src + (n - of_nat k))" by (auto simp: f_def)
  have step: "fold (memmove_step dest src n) [0..<Suc k] m =
      f(dest + (n - of_nat k) := m (src + (n - of_nat k)))"
    using IH read by (simp add: memmove_step_def [of _ _ _ k f])
  have at: "a = dest + (n - of_nat k) \<longleftrightarrow> unat (a - dest) = unat n - k" for a
  proof -
    have "unat (a - dest) = unat n - k \<longleftrightarrow> a - dest = n - of_nat k" using j by (metis word_unat_eq_iff)
    also have "\<dots> \<longleftrightarrow> a = dest + (n - of_nat k)" by (auto simp: algebra_simps)
    finally show ?thesis by simp
  qed
  show ?case unfolding step
  proof (rule ext)
    fix a
    define x where "x = unat (a - dest)"
    show "(f(dest + (n - of_nat k) := m (src + (n - of_nat k)))) a =
        (if unat n - Suc k < unat (a - dest) \<and> unat (a - dest) \<le> unat n then m (src + (a - dest)) else m a)"
    proof (cases "x = unat n - k")
      case True
      then have "a = dest + (n - of_nat k)" using at by (simp add: x_def)
      moreover have "unat n - Suc k < unat n - k" using Suc.prems by linarith
      ultimately show ?thesis using True by (simp add: x_def)
    next
      case False
      then have "a \<noteq> dest + (n - of_nat k)" using at by (simp add: x_def)
      moreover have "unat n - Suc k < x \<longleftrightarrow> unat n - k < x" using False Suc.prems by linarith
      ultimately show ?thesis by (simp add: f_def x_def [symmetric])
    qed
  qed
qed

text \<open>
  C29: The downward loop of \<^verbatim>\<open>memmove\<close> is off by one. When the destination lies above the
  source and the address range does not wrap, the bytes with the offsets 1 to n are copied
  instead of those with the offsets 0 to n - 1: the first byte of the destination keeps its old
  value and the byte behind the destination is overwritten.
\<close>

theorem memmove_upward_off_by_one:
  assumes "src < dest" "unat dest + unat n < 2 ^ 32"
  shows "memmove dest src n m =
    (\<lambda>a. if 0 < a - dest \<and> a - dest \<le> n then m (src + (a - dest)) else m a)"
  using memmove_down_steps [OF assms, of "unat n" m] assms(1)
  by (simp add: memmove_def word_less_nat_alt word_le_nat_alt fun_eq_iff)

theorem memmove_upward_off_by_one_witness:
  "memmove 0x2000 0x1000 4 (\<lambda>a. if a = 0x1000 then 7 else if a = 0x1004 then 9 else 0) 0x2000 = 0 \<and>
   memmove 0x2000 0x1000 4 (\<lambda>a. if a = 0x1000 then 7 else if a = 0x1004 then 9 else 0) 0x2004 = 9"
  using memmove_upward_off_by_one [of "0x1000" "0x2000" 4] by simp

text \<open>
  C24: String search. For strings in memory \<^verbatim>\<open>strstr\<close> always returns; the result is the
  address of the first occurrence of the searched string, and null exactly if it does not occur.
\<close>

theorem strstr_correct:
  assumes "str_at m s xs" "str_at m fnd ys" "length ys < 2 ^ 32"
  shows "strstr s fnd m = Some (case first_occ ys xs of None \<Rightarrow> 0 | Some i \<Rightarrow> s + of_nat i) \<and>
    (first_occ ys xs = None \<longleftrightarrow> \<not> sublist ys xs) \<and>
    (\<forall>i. first_occ ys xs = Some i \<longrightarrow> prefix ys (drop i xs) \<and> (\<forall>j<i. \<not> prefix ys (drop j xs)))"
proof -
  have "strstr s fnd m = Some (case first_occ ys xs of None \<Rightarrow> 0 | Some i \<Rightarrow> s + of_nat i)"
  proof (cases ys)
    case Nil
    then show ?thesis using assms by (cases xs) (simp_all add: strstr_def)
  next
    case (Cons c zs)
    have "strlen (fnd + 1) m = Some (of_nat (length zs))"
      using strlen_loop_str [of m "fnd + 1" 0 zs] assms(2) Cons by (simp add: strlen_def)
    moreover have "unat (of_nat (length zs) :: u32) = length zs"
      using assms(3) Cons by (simp add: unat_of_nat)
    ultimately show ?thesis
      using strstr_loop_str [of m "fnd + 1" zs "of_nat (length zs)" c s xs] assms Cons
      by (simp add: strstr_def Let_def)
  qed
  then show ?thesis using first_occ_None first_occ_Some by fastforce
qed

definition str_example :: memory where
  "str_example a = (if a < 6 then [97, 98, 97, 98, 99, 0] ! unat a
                    else if 16 \<le> a \<and> a < 18 then [98, 99] ! unat (a - 16) else 0)"

theorem strstr_correct_witness: "strstr 0 16 str_example = Some 3"
proof -
  have "str_at str_example 0 [97, 98, 97, 98, 99]" "str_at str_example 16 [98, 99]"
    by (simp_all add: str_example_def)
  from strstr_correct [OF this] show ?thesis by simp
qed

end
