(* ===== verification/Numio.thy ===== *)
theory Numio
  imports Cstring
begin

text \<open>
  Reading and printing numbers: \<^verbatim>\<open>strtoul\<close> of \<^verbatim>\<open>common/string.cc\<close> with the character
  classes of \<^verbatim>\<open>common/string.h\<close>, the size options of \<^verbatim>\<open>l4ka/module_manager.cc\<close>, and
  the formatted output of \<^verbatim>\<open>common/sprintf.cc\<close>.
\<close>

section \<open>Reading\<close>

definition isspace :: "int \<Rightarrow> bool" where "isspace c \<longleftrightarrow> c = 32 \<or> c = 9"
definition isdigit :: "int \<Rightarrow> bool" where "isdigit c \<longleftrightarrow> 48 \<le> c \<and> c \<le> 57"
definition islower :: "int \<Rightarrow> bool" where "islower c \<longleftrightarrow> 97 \<le> c \<and> c \<le> 122"
definition isupper :: "int \<Rightarrow> bool" where "isupper c \<longleftrightarrow> 65 \<le> c \<and> c \<le> 90"
definition isalpha :: "int \<Rightarrow> bool" where "isalpha c \<longleftrightarrow> islower c \<or> isupper c"
definition ULONG_MAX :: u32 where "ULONG_MAX = NOT 0"

text \<open>The first loop returns the character read last and the pointer behind it.\<close>

partial_function (option) strtoul_skip :: "u32 \<Rightarrow> memory \<Rightarrow> (int \<times> u32) option" where
  "strtoul_skip s m =
     (let c = uint (m s); s = s + 1 in if isspace c then strtoul_skip s m else Some (c, s))"

definition digit_value :: "int \<Rightarrow> int" where
  "digit_value c = (if isdigit c then c - 48 else if isupper c then c - 55 else c - 87)"

text \<open>
  The loop over the digits returns the number, the flag \<^verbatim>\<open>any\<close> (negative after an overflow)
  and the pointer behind the character that ended it.
\<close>

partial_function (option) strtoul_loop ::
    "int \<Rightarrow> u32 \<Rightarrow> int \<Rightarrow> u32 \<Rightarrow> int \<Rightarrow> u32 \<Rightarrow> int \<Rightarrow> memory \<Rightarrow> (u32 \<times> int \<times> u32) option" where
  "strtoul_loop base cutoff cutlim s c acc any m =
     (if \<not> isdigit c \<and> \<not> isalpha c then Some (acc, any, s)
      else (let c = digit_value c in
        if base \<le> c then Some (acc, any, s)
        else if any < 0 then strtoul_loop base cutoff cutlim (s + 1) (uint (m s)) acc any m
        else if cutoff < acc \<or> acc = cutoff \<and> cutlim < c
        then strtoul_loop base cutoff cutlim (s + 1) (uint (m s)) ULONG_MAX (- 1) m
        else strtoul_loop base cutoff cutlim (s + 1) (uint (m s)) (acc * of_int base + of_int c) 1 m))"

text \<open>The result is the number and the value stored through \<^verbatim>\<open>endptr\<close>.\<close>

definition strtoul :: "u32 \<Rightarrow> int \<Rightarrow> memory \<Rightarrow> (u32 \<times> u32) option" where
  "strtoul nptr base m = do {
     (c, s) \<leftarrow> strtoul_skip nptr m;
     let neg = (c = 45);
     let (c, s) = (if c = 45 \<or> c = 43 then (sint (m s), s + 1) else (c, s));
     let (c, s, base) =
       (if (base = 0 \<or> base = 16) \<and> c = 48 \<and> (m s = 120 \<or> m s = 88)
        then (sint (m (s + 1)), s + 2, 16) else (c, s, base));
     let base = (if base = 0 then if c = 48 then 8 else 10 else base);
     let cutoff = ULONG_MAX div of_int base;
     let cutlim = uint (ULONG_MAX mod of_int base);
     (acc, any, s) \<leftarrow> strtoul_loop base cutoff cutlim s c 0 0 m;
     Some (if neg \<and> any > 0 then - acc else acc, if any \<noteq> 0 then s - 1 else nptr)
   }"

definition parse_size_option :: "u32 \<Rightarrow> u32 \<Rightarrow> memory \<Rightarrow> u32 option" where
  "parse_size_option name opt m = do {
     len \<leftarrow> strlen name m;
     (val, nxt) \<leftarrow> strtoul (opt + len) 0 m;
     let (val, nxt) =
       (if m nxt = 75 then (val * 1024, nxt)
        else if m nxt = 77 then (val * 1024 * 1024, nxt)
        else if m nxt = 71 then (val * 1024 * 1024 * 1024, nxt)
        else (val, nxt - 1));
     let nxt = nxt + 1;
     Some (if m nxt \<noteq> 0 \<and> \<not> isspace (sint (m nxt)) then 0 else val)
   }"

text \<open>The command line of a module: its name, white space, and the parameters.\<close>

partial_function (option) skip_while :: "(int \<Rightarrow> bool) \<Rightarrow> u32 \<Rightarrow> memory \<Rightarrow> u32 option" where
  "skip_while p c m = (if m c \<noteq> 0 \<and> p (sint (m c)) then skip_while p (c + 1) m else Some c)"

definition cmdline_options :: "u32 \<Rightarrow> memory \<Rightarrow> u32 option" where
  "cmdline_options cmdline m = do {
     c \<leftarrow> skip_while (\<lambda>c. \<not> isspace c) cmdline m;
     skip_while isspace c m
   }"

definition cmdline_has_substring :: "u32 \<Rightarrow> u32 \<Rightarrow> memory \<Rightarrow> bool option" where
  "cmdline_has_substring cmdline substr m = do {
     c \<leftarrow> cmdline_options cmdline m;
     if m c = 0 then Some False else do { r \<leftarrow> strstr c substr m; Some (r \<noteq> 0) }
   }"

definition get_module_param_size :: "u32 \<Rightarrow> u32 \<Rightarrow> memory \<Rightarrow> u32 option" where
  "get_module_param_size cmdline token m = do {
     c \<leftarrow> cmdline_options cmdline m;
     if m c = 0 then Some 0
     else do {
       token_str \<leftarrow> strstr c token m;
       if token_str \<noteq> 0 then parse_size_option token token_str m else Some 0
     }
   }"

section \<open>Printing\<close>

text \<open>The output pointer and memory; \<^verbatim>\<open>putc\<close> stores a byte and advances the pointer.\<close>

type_synonym out = "u32 \<times> memory"

definition putc :: "u8 \<Rightarrow> out \<Rightarrow> out" where
  "putc c = (\<lambda>(obuf, m). (obuf + 1, m(obuf := c)))"

definition hexchars :: "u32 \<Rightarrow> u8" where
  "hexchars x = (if x < 10 then ucast (48 + x) else ucast (97 + (x - 10)))"

text \<open>A shift count is taken modulo the word size.\<close>

definition shr :: "u32 \<Rightarrow> nat \<Rightarrow> u32" where "shr v n = drop_bit (n mod 32) v"

function hex_width :: "u32 \<Rightarrow> nat \<Rightarrow> nat" where
  "hex_width val w = (if shr val (4 * w) \<noteq> 0 \<and> w < 8 then hex_width val (w + 1) else w)"
  by pat_completeness auto

termination
  by (relation "measure (\<lambda>(val, w). 8 - w)") auto

declare hex_width.simps [simp del]

definition print_hex :: "u32 \<Rightarrow> nat \<Rightarrow> out \<Rightarrow> nat \<times> out" where
  "print_hex val width st =
     (let width = (if width = 0 then (let w = hex_width val 0 in if w = 0 then 1 else w) else width)
      in (width, fold (\<lambda>i. putc (hexchars (shr val (4 * i) AND 0xF))) (rev [0..<width]) st))"

definition put_spaces :: "nat \<Rightarrow> out \<Rightarrow> out" where
  "put_spaces k st = (putc 32 ^^ k) st"

partial_function (option) print_string_loop :: "u32 \<Rightarrow> nat \<Rightarrow> out \<Rightarrow> (nat \<times> out) option" where
  "print_string_loop s n st =
     (if snd st s \<noteq> 0 then print_string_loop (s + 1) (n + 1) (putc (snd st s) st) else Some (n, st))"

definition print_string :: "u32 \<Rightarrow> nat \<Rightarrow> out \<Rightarrow> (nat \<times> out) option" where
  "print_string s width st = do {
     (n, st) \<leftarrow> print_string_loop s 0 st;
     Some (max n width, put_spaces (width - n) st)
   }"

text \<open>The literal strings of the source lie outside the modelled memory.\<close>

definition print_literal :: "u8 list \<Rightarrow> nat \<Rightarrow> out \<Rightarrow> nat \<times> out" where
  "print_literal cs width st =
     (max (length cs) width, put_spaces (width - length cs) (fold putc cs st))"

lemma divisor_grows:
  fixes val divisor :: u32
  assumes "10 \<le> val div divisor"
  shows "unat (divisor * 10) = unat divisor * 10" "unat divisor * 10 \<le> unat val" "0 < unat divisor"
proof -
  have "10 \<le> unat val div unat divisor" using assms by (simp add: word_le_nat_alt unat_div)
  then show "unat divisor * 10 \<le> unat val" "0 < unat divisor"
    by (metis div_le_dividend le_trans mult.commute mult_le_mono2 times_div_less_eq_dividend,
        metis bot_nat_0.not_eq_extremum div_by_0 not_numeral_le_zero)
  then show "unat (divisor * 10) = unat divisor * 10"
    using unat_times_const [of divisor 10] unsigned_less [of val, where 'a = nat] by simp
qed

function dec_divisor :: "u32 \<Rightarrow> u32 \<Rightarrow> nat \<Rightarrow> u32 \<times> nat" where
  "dec_divisor val divisor digits =
     (if 10 \<le> val div divisor then dec_divisor val (divisor * 10) (digits + 1) else (divisor, digits))"
  by pat_completeness auto

termination
proof (relation "measure (\<lambda>(val, divisor, digits). unat val - unat divisor)", simp, goal_cases)
  case (1 val divisor digits)
  then show ?case using divisor_grows [OF 1] by simp
qed

declare dec_divisor.simps [simp del]

function dec_digits :: "u32 \<Rightarrow> u32 \<Rightarrow> u8 list" where
  "dec_digits val divisor =
     ucast ((val div divisor) mod 10 + 48) #
     (if divisor div 10 \<noteq> 0 then dec_digits val (divisor div 10) else [])"
  by pat_completeness auto

termination
proof (relation "measure (\<lambda>(val, divisor). unat divisor)", simp, goal_cases)
  case (1 val divisor)
  then have "unat (divisor div 10) \<noteq> 0" by (simp add: unat_eq_0)
  then show ?case by (simp add: unat_div)
qed

declare dec_digits.simps [simp del]

definition print_dec :: "u32 \<Rightarrow> nat \<Rightarrow> out \<Rightarrow> nat \<times> out" where
  "print_dec val width st =
     (let (divisor, digits) = dec_divisor val 1 1
      in (max digits width, fold putc (dec_digits val divisor) (put_spaces (width - digits) st)))"

section \<open>Formatted output\<close>

text \<open>
  \<^verbatim>\<open>do_sprintf\<close> over the list of variable arguments; taking an argument that was not passed is
  undefined. With \<open>spec\<close> the loop is inside a conversion, at the label \<^verbatim>\<open>reentry\<close>, with the
  width read so far.
\<close>

definition pop_arg :: "u32 list \<Rightarrow> (u32 \<times> u32 list) option" where
  "pop_arg args = (case args of [] \<Rightarrow> None | a # args \<Rightarrow> Some (a, args))"

text \<open>
  One conversion: the number of characters it counts, the remaining arguments and the output. A
  minus sign and the output of the conversion \<^verbatim>\<open>T\<close> are not counted.
\<close>

definition sprintf_conv :: "u8 \<Rightarrow> nat \<Rightarrow> u32 list \<Rightarrow> out \<Rightarrow> (nat \<times> u32 list \<times> out) option" where
  "sprintf_conv c width args st =
     (if c = 99 then do { (a, args) \<leftarrow> pop_arg args; Some (1, args, putc (ucast a) st) }
      else if c = 100 then do {
        (a, args) \<leftarrow> pop_arg args;
        let (val, st) = (if sint a < 0 then (- a, putc 45 st) else (a, st));
        let (k, st) = print_dec val width st;
        Some (k, args, st) }
      else if c = 117 then do {
        (a, args) \<leftarrow> pop_arg args;
        let (k, st) = print_dec a width st;
        Some (k, args, st) }
      else if c = 112 \<or> c = 120 then do {
        (a, args) \<leftarrow> pop_arg args;
        let (k, st) = print_hex a (if c = 112 then 8 else width) st;
        Some (k, args, st) }
      else if c = 115 then do {
        (a, args) \<leftarrow> pop_arg args;
        (k, st) \<leftarrow> (if a \<noteq> 0 then print_string a width st
                   else Some (print_literal [40, 110, 117, 108, 108, 41] width st));
        Some (k, args, st) }
      else if c = 84 then do {
        (a, args) \<leftarrow> pop_arg args;
        let (_, st) = print_hex a 8 st;
        Some (0, args, st) }
      else if c = 37 then Some (1, args, putc 37 st)
      else (let (k, st) = print_literal [63] 0 st in Some (k, args, st)))"

partial_function (option) do_sprintf ::
    "bool \<Rightarrow> nat \<Rightarrow> u32 \<Rightarrow> nat \<Rightarrow> u32 list \<Rightarrow> out \<Rightarrow> (nat \<times> out) option" where
  "do_sprintf spec width fmt n args st =
     (if \<not> spec then
        (let c = snd st fmt in
         if c = 0 then Some (n, st)
         else if c = 37 then do_sprintf True 0 fmt n args st
         else do_sprintf False 0 (fmt + 1) (n + 1) args
                (let st = putc c st in if c = 10 then putc 13 st else st))
      else
        (let fmt = fmt + 1; c = snd st fmt in
         if 48 \<le> c \<and> c \<le> 57 then do_sprintf True (width * 10 + unat (c - 48)) fmt n args st
         else if c = 108 then do_sprintf True width fmt n args st
         else do {
           (k, args, st) \<leftarrow> sprintf_conv c width args st;
           do_sprintf False 0 (fmt + 1) (n + k) args st
         }))"

definition sprintf :: "u32 \<Rightarrow> u32 \<Rightarrow> u32 list \<Rightarrow> memory \<Rightarrow> (nat \<times> memory) option" where
  "sprintf obuf fmt args m =
     (if fmt = 0 then Some (0, m)
      else do { (printed, st) \<leftarrow> do_sprintf False 0 fmt 0 args (obuf, m); Some (printed, snd st) })"

end
