(* ===== verification/Numio_Props.thy ===== *)
theory Numio_Props
  imports Numio
begin

text \<open>
  Reading back what was printed: the value of a string of decimal digits as \<^verbatim>\<open>strtoul\<close> computes
  it, the digits that \<^verbatim>\<open>print_dec\<close> writes, and the round trip through memory.
\<close>

section \<open>Reading digits\<close>

text \<open>Decimal digits in memory, followed by a character that is neither digit nor letter.\<close>

fun digits_at :: "memory \<Rightarrow> u32 \<Rightarrow> nat list \<Rightarrow> bool" where
  "digits_at m p [] \<longleftrightarrow> \<not> isdigit (uint (m p)) \<and> \<not> isalpha (uint (m p))"
| "digits_at m p (d # ds) \<longleftrightarrow> d < 10 \<and> m p = of_nat (48 + d) \<and> digits_at m (p + 1) ds"

definition dec_value :: "nat \<Rightarrow> nat list \<Rightarrow> nat" where
  "dec_value a ds = foldl (\<lambda>a d. 10 * a + d) a ds"

lemma dec_value_simps [simp]:
  "dec_value a [] = a" "dec_value a (d # ds) = dec_value (10 * a + d) ds"
  by (simp_all add: dec_value_def)

lemma dec_value_mono: "a \<le> dec_value a ds"
proof (induction ds arbitrary: a)
  case (Cons d ds)
  have "a \<le> 10 * a + d" by simp
  also have "\<dots> \<le> dec_value (10 * a + d) ds" by (rule Cons.IH)
  finally show ?case by simp
qed simp

lemma digit_char:
  assumes "d < 10"
  shows "uint (of_nat (48 + d) :: u8) = 48 + int d" "isdigit (48 + int d)" "digit_value (48 + int d) = int d"
proof -
  have "unat (of_nat (48 + d) :: u8) = 48 + d" using assms by (simp add: unat_of_nat del: of_nat_add)
  then show "uint (of_nat (48 + d) :: u8) = 48 + int d" by (simp add: uint_nat)
  show "isdigit (48 + int d)" "digit_value (48 + int d) = int d"
    using assms by (simp_all add: isdigit_def digit_value_def)
qed

lemma strtoul_loop_overflown:
  "digits_at m p ds \<Longrightarrow> any < 0 \<Longrightarrow>
   strtoul_loop 10 cutoff cutlim (p + 1) (uint (m p)) acc any m = Some (acc, any, p + 1 + of_nat (length ds))"
proof (induction ds arbitrary: p)
  case Nil
  then show ?case by (subst strtoul_loop.simps) simp
next
  case (Cons d ds)
  then have "strtoul_loop 10 cutoff cutlim (p + 1 + 1) (uint (m (p + 1))) acc any m =
      Some (acc, any, p + 1 + 1 + of_nat (length ds))"
    by (intro Cons.IH) simp_all
  with Cons.prems digit_char [of d] show ?case by (subst strtoul_loop.simps) (simp add: algebra_simps)
qed

lemma decimal_cutoff:
  fixes acc :: u32
  assumes "d < 10"
  shows "ULONG_MAX div 10 < acc \<or> acc = ULONG_MAX div 10 \<and> uint (ULONG_MAX mod 10) < int d \<longleftrightarrow>
         2 ^ 32 \<le> 10 * unat acc + d"
proof -
  have c: "ULONG_MAX div 10 = 0x19999999" "ULONG_MAX mod 10 = 5"
    by (simp_all add: ULONG_MAX_def)
  have "acc = 0x19999999 \<longleftrightarrow> unat acc = 0x19999999" by (simp add: word_unat_eq_iff)
  then show ?thesis unfolding c using assms by (auto simp: word_less_nat_alt)
qed

lemma strtoul_loop_digits:
  "digits_at m p ds \<Longrightarrow> 0 \<le> any \<Longrightarrow>
   strtoul_loop 10 (ULONG_MAX div 10) (uint (ULONG_MAX mod 10)) (p + 1) (uint (m p)) acc any m =
     (let v = dec_value (unat acc) ds
      in Some (if v < 2 ^ 32 then of_nat v else ULONG_MAX,
               if ds = [] then any else if v < 2 ^ 32 then 1 else - 1, p + 1 + of_nat (length ds)))"
proof (induction ds arbitrary: p acc any)
  case Nil
  have "unat acc < 2 ^ 32" using unsigned_less [of acc, where 'a = nat] by simp
  with Nil show ?case by (subst strtoul_loop.simps) (simp add: Let_def)
next
  case (Cons d ds)
  have d: "d < 10" "digits_at m (p + 1) ds" "uint (m p) = 48 + int d"
    using Cons.prems digit_char [of d] by simp_all
  note dc = digit_char [OF d(1)] and cut = decimal_cutoff [OF d(1), of acc]
  show ?case
  proof (cases "2 ^ 32 \<le> 10 * unat acc + d")
    case True
    then have big: "\<not> dec_value (10 * unat acc + d) ds < 2 ^ 32"
      using dec_value_mono [of "10 * unat acc + d" ds] by linarith
    have "strtoul_loop 10 (ULONG_MAX div 10) (uint (ULONG_MAX mod 10)) (p + 1 + 1) (uint (m (p + 1)))
        ULONG_MAX (- 1) m = Some (ULONG_MAX, - 1, p + 1 + 1 + of_nat (length ds))"
      by (rule strtoul_loop_overflown [OF d(2)]) simp
    with True cut dc d Cons.prems(2) big show ?thesis
      by (subst strtoul_loop.simps) (simp add: Let_def algebra_simps)
  next
    case False
    define acc' where "acc' = acc * of_int 10 + of_int (int d)"
    have a: "unat acc' = 10 * unat acc + d"
      using False d(1) by (simp add: acc'_def unat_word_ariths unat_of_nat)
    define C L where "C = ULONG_MAX div 10" and "L = uint (ULONG_MAX mod 10)"
    have "\<not> (C < acc \<or> acc = C \<and> L < int d)" using cut False by (simp add: C_def L_def)
    then have "strtoul_loop 10 C L (p + 1) (uint (m p)) acc any m =
        strtoul_loop 10 C L (p + 1 + 1) (uint (m (p + 1))) acc' 1 m"
      using dc d Cons.prems(2) by (subst strtoul_loop.simps) (auto simp: Let_def acc'_def)
    with Cons.IH [OF d(2), of 1 acc'] show ?thesis
      using False by (simp add: Let_def a C_def L_def)
  qed
qed

section \<open>Printing digits\<close>

lemma put_list:
  assumes "length cs < 2 ^ 32"
  shows "fold putc cs (obuf, m) =
    (obuf + of_nat (length cs), \<lambda>a. if unat (a - obuf) < length cs then cs ! unat (a - obuf) else m a)"
  using assms
proof (induction cs rule: rev_induct)
  case Nil
  then show ?case by simp
next
  case (snoc c cs)
  have k: "unat (of_nat (length cs) :: u32) = length cs" using snoc.prems by (simp add: unat_of_nat)
  have "a = obuf + of_nat (length cs) \<longleftrightarrow> unat (a - obuf) = length cs" for a
  proof -
    have "unat (a - obuf) = length cs \<longleftrightarrow> a - obuf = of_nat (length cs)" using k by (metis word_unat_eq_iff)
    also have "\<dots> \<longleftrightarrow> a = obuf + of_nat (length cs)" by (auto simp: algebra_simps)
    finally show ?thesis by simp
  qed
  with snoc show ?case by (auto simp: putc_def fun_eq_iff nth_append algebra_simps)
qed

lemma dec_divisor_power:
  assumes "unat divisor = 10 ^ j" "10 ^ j \<le> unat val \<or> j = 0"
  shows "\<exists>k. dec_divisor val divisor (Suc j) = (of_nat (10 ^ k), Suc k) \<and>
             (10 ^ k \<le> unat val \<or> k = 0) \<and> unat val < 10 ^ Suc k"
  using assms
proof (induction val divisor "Suc j" arbitrary: j rule: dec_divisor.induct)
  case (1 val divisor)
  show ?case
  proof (cases "10 \<le> val div divisor")
    case True
    note g = divisor_grows [OF True]
    from 1 True g show ?thesis by (subst dec_divisor.simps) simp
  next
    case False
    then have "unat val div 10 ^ j < 10" using 1 by (simp add: word_le_nat_alt unat_div not_le)
    then have "unat val < 10 ^ Suc j" by (simp add: div_less_iff_less_mult mult.commute)
    moreover have "divisor = of_nat (10 ^ j)" using 1(2) by (rule unat_eq_of_nat)
    ultimately show ?thesis using False 1 by (subst dec_divisor.simps) auto
  qed
qed

definition digit_list :: "nat \<Rightarrow> nat \<Rightarrow> nat list" where
  "digit_list v k = map (\<lambda>i. v div 10 ^ i mod 10) (rev [0..<k])"

lemma digit_list_Suc: "digit_list v (Suc k) = v div 10 ^ k mod 10 # digit_list v k"
  by (simp add: digit_list_def)

lemma digit_list_value: "dec_value (v div 10 ^ k) (digit_list v k) = v"
proof (induction k)
  case 0
  then show ?case by (simp add: digit_list_def)
next
  case (Suc k)
  have "10 * (v div 10 ^ Suc k) + v div 10 ^ k mod 10 = v div 10 ^ k"
    by (simp add: div_mult2_eq mult.commute [of 10])
  with Suc show ?case by (simp add: digit_list_Suc)
qed

lemma ucast_unat: "unat w = n \<Longrightarrow> (ucast w :: u8) = of_nat n" for w :: u32
  by (metis of_nat_unat)

lemma dec_digits_list:
  assumes "10 ^ k < (2 ^ 32 :: nat)"
  shows "dec_digits val (of_nat (10 ^ k)) = map (\<lambda>d. of_nat (48 + d)) (digit_list (unat val) (Suc k))"
  using assms
proof (induction k)
  case 0
  have "unat (val mod 10 + 48) = unat val mod 10 + 48"
    by (subst unat_plus_bound) (simp_all add: unat_mod)
  from ucast_unat [OF this] show ?case
    by (subst dec_digits.simps) (simp add: digit_list_def)
next
  case (Suc k)
  have p: "unat (of_nat (10 ^ Suc k) :: u32) = 10 ^ Suc k" using Suc.prems by (simp add: unat_of_nat del: power_Suc of_nat_power)
  have "unat (val div of_nat (10 ^ Suc k) mod 10 + 48) = unat val div 10 ^ Suc k mod 10 + 48"
    using p by (subst unat_plus_bound) (simp_all add: unat_mod unat_div del: power_Suc of_nat_power)
  from ucast_unat [OF this]
  have "ucast (val div of_nat (10 ^ Suc k) mod 10 + 48) = (of_nat (48 + unat val div 10 ^ Suc k mod 10) :: u8)"
    by (simp only: add.commute)
  moreover have q: "of_nat (10 ^ Suc k) div 10 = (of_nat (10 ^ k) :: u32)"
  proof -
    have "unat (of_nat (10 ^ Suc k) div 10 :: u32) = 10 ^ Suc k div 10"
      using p by (simp only: unat_div) simp
    then show ?thesis by (intro unat_eq_of_nat) simp
  qed
  moreover have "(of_nat (10 ^ k) :: u32) \<noteq> 0"
    using Suc.prems unat_of_nat [where 'a = 32, of "10 ^ k"] by (auto simp: unat_eq_0 simp del: of_nat_power)
  moreover have "10 ^ k < (2 ^ 32 :: nat)" using Suc.prems by simp
  ultimately show ?case
    by (subst dec_digits.simps) (simp only: digit_list_Suc [of _ "Suc k"] list.map Suc.IH if_True
        not_False_eq_True)
qed

lemma print_dec_digits:
  "\<exists>k. k < 10 \<and> print_dec val 0 st =
      (Suc k, fold putc (map (\<lambda>d. of_nat (48 + d)) (digit_list (unat val) (Suc k))) st) \<and>
    dec_value 0 (digit_list (unat val) (Suc k)) = unat val"
proof -
  obtain k where k: "dec_divisor val 1 1 = (of_nat (10 ^ k), Suc k)"
      "10 ^ k \<le> unat val \<or> k = 0" "unat val < 10 ^ Suc k"
    using dec_divisor_power [of 1 0 val] by auto
  have V: "unat val < 2 ^ 32" using unsigned_less [of val, where 'a = nat] by simp
  have k10: "k < 10"
  proof (rule ccontr)
    assume "\<not> k < 10"
    then have "(10 :: nat) ^ 10 \<le> 10 ^ k" by (intro power_increasing) auto
    then show False using k(2) V \<open>\<not> k < 10\<close> by auto
  qed
  then have "(10 :: nat) ^ k \<le> 10 ^ 9" by (intro power_increasing) auto
  then have "dec_digits val (of_nat (10 ^ k)) = map (\<lambda>d. of_nat (48 + d)) (digit_list (unat val) (Suc k))"
    by (intro dec_digits_list) simp
  moreover have "dec_value 0 (digit_list (unat val) (Suc k)) = unat val"
    using digit_list_value [of "unat val" "Suc k"] k(3) by simp
  ultimately show ?thesis
    using k(1) k10 by (intro exI [of _ k]) (simp add: print_dec_def put_spaces_def)
qed

lemma digits_at_written:
  assumes "\<forall>i < length ds. m (p + of_nat i) = of_nat (48 + ds ! i)" "\<forall>d \<in> set ds. d < 10"
    and "m (p + of_nat (length ds)) = 0"
  shows "digits_at m p ds"
  using assms
proof (induction ds arbitrary: p)
  case Nil
  then show ?case by (simp add: isdigit_def isalpha_def islower_def isupper_def)
next
  case (Cons d ds)
  have "digits_at m (p + 1) ds"
  proof (rule Cons.IH)
    show "\<forall>i < length ds. m (p + 1 + of_nat i) = of_nat (48 + ds ! i)"
      using Cons.prems(1) by (auto simp: add.assoc dest: spec [of _ "Suc _"])
  qed (use Cons.prems in \<open>auto simp: add.assoc\<close>)
  with Cons.prems show ?case by auto
qed

lemma strtoul_digits:
  assumes "digits_at m p ds" "ds \<noteq> []"
  shows "strtoul p 10 m =
    Some (if dec_value 0 ds < 2 ^ 32 then of_nat (dec_value 0 ds) else ULONG_MAX, p + of_nat (length ds))"
proof -
  obtain d ds' where ds: "ds = d # ds'" using assms(2) by (cases ds) auto
  then have c: "uint (m p) = 48 + int d" "d < 10" using assms(1) digit_char [of d] by simp_all
  then have "strtoul_skip p m = Some (uint (m p), p + 1)"
    by (subst strtoul_skip.simps) (simp add: isspace_def)
  with strtoul_loop_digits [OF assms(1), of 0 0] c ds show ?thesis
    by (simp add: strtoul_def Let_def)
qed

section \<open>Properties\<close>

text \<open>
  C23: Reading a decimal number. \<^verbatim>\<open>strtoul\<close> in base 10 on a non-empty string of digits always
  returns; the result is the number if it fits into 32 bits and the largest number otherwise, and
  the end pointer is the address behind the last digit.
\<close>

theorem strtoul_decimal:
  assumes "digits_at m p ds" "ds \<noteq> []"
  shows "strtoul p 10 m =
    Some (if dec_value 0 ds < 2 ^ 32 then of_nat (dec_value 0 ds) else NOT 0, p + of_nat (length ds))"
  using strtoul_digits [OF assms] by (simp add: ULONG_MAX_def)

theorem strtoul_decimal_witness:
  "strtoul 0 10 (\<lambda>a. if a < 10 then 57 else 0) = Some (NOT 0, 10)"
proof -
  let ?m = "(\<lambda>a :: u32. if a < 10 then 57 else 0) :: memory"
  have "digits_at ?m 0 [9, 9, 9, 9, 9, 9, 9, 9, 9, 9]"
    by (simp add: isdigit_def isalpha_def islower_def isupper_def)
  from strtoul_decimal [OF this] show ?thesis by simp
qed

text \<open>
  C21: Printed numbers read back. Formatting any 32-bit number with the format "%u" into a zeroed
  buffer succeeds, writes at most ten characters and returns their number, and reading the
  buffer with \<^verbatim>\<open>strtoul\<close> returns the number and a pointer to its end. The only
  requirement on the buffer is that it does not cover the terminator of the format.
\<close>

theorem sprintf_strtoul_roundtrip:
  assumes "str_at m fmt [37, 117]" "fmt \<noteq> 0"
    and "\<forall>i \<le> 10. m (obuf + of_nat i) = 0" "\<not> fmt + 2 - obuf < 10"
  shows "\<exists>n m'. sprintf obuf fmt [v] m = Some (n, m') \<and> n \<le> 10 \<and>
           strtoul obuf 10 m' = Some (v, obuf + of_nat n)"
proof -
  obtain k where k: "k < 10" "print_dec v 0 (obuf, m) =
      (Suc k, fold putc (map (\<lambda>d. of_nat (48 + d)) (digit_list (unat v) (Suc k))) (obuf, m))"
      "dec_value 0 (digit_list (unat v) (Suc k)) = unat v"
    using print_dec_digits by blast
  define ds where "ds = digit_list (unat v) (Suc k)"
  have len: "length ds = Suc k" and small: "\<forall>d \<in> set ds. d < 10"
    by (auto simp: ds_def digit_list_def)
  define m' where "m' = (\<lambda>a. if unat (a - obuf) < Suc k then map (\<lambda>d. of_nat (48 + d)) ds ! unat (a - obuf) else m a)"
  have st: "print_dec v 0 (obuf, m) = (Suc k, obuf + of_nat (Suc k), m')"
    using k(1,2) put_list [of "map (\<lambda>d. of_nat (48 + d)) ds" obuf m] len
    by (simp add: ds_def [symmetric] m'_def)
  have f: "m fmt = 37" "m (fmt + 1) = 117" "m (fmt + 2) = 0" "m' (fmt + 2) = 0"
    using assms(1,4) k(1) by (simp_all add: m'_def word_less_nat_alt add.assoc)
  have 1: "do_sprintf False 0 fmt 0 [v] (obuf, m) = do_sprintf True 0 fmt 0 [v] (obuf, m)"
    using f by (subst do_sprintf.simps) simp
  have 2: "do_sprintf True 0 fmt 0 [v] (obuf, m) =
      do_sprintf False 0 (fmt + 2) (Suc k) [] (obuf + of_nat (Suc k), m')"
    using f st by (subst do_sprintf.simps) (simp add: Let_def sprintf_conv_def pop_arg_def add.assoc)
  have 3: "do_sprintf False 0 (fmt + 2) (Suc k) [] (obuf + of_nat (Suc k), m') =
      Some (Suc k, obuf + of_nat (Suc k), m')"
    using f by (subst do_sprintf.simps) simp
  have u: "unat (of_nat i :: u32) = i" if "i \<le> 10" for i using that by (simp add: unat_of_nat)
  have "digits_at m' obuf ds"
  proof (rule digits_at_written [OF _ small])
    show "\<forall>i < length ds. m' (obuf + of_nat i) = of_nat (48 + ds ! i)"
      using k(1) u by (simp add: m'_def len)
    show "m' (obuf + of_nat (length ds)) = 0"
      using k(1) u [of "Suc k"] spec [OF assms(3), of "Suc k"] unfolding len m'_def by simp
  qed
  moreover have "ds \<noteq> []" using len by auto
  moreover have "unat v < 2 ^ 32" using unsigned_less [of v, where 'a = nat] by simp
  ultimately have "strtoul obuf 10 m' = Some (v, obuf + of_nat (Suc k))"
    using strtoul_digits [of m' obuf ds] k(3) len by (simp add: ds_def [symmetric])
  moreover have "sprintf obuf fmt [v] m = Some (Suc k, m')"
    using assms(2) 1 2 3 by (simp add: sprintf_def)
  ultimately show ?thesis using k(1) by (intro exI [of _ "Suc k"] exI [of _ m']) simp
qed

theorem sprintf_strtoul_roundtrip_witness:
  "\<exists>n m'. sprintf 0x100 0x10 [4711] ((\<lambda>_. 0)(0x10 := 37, 0x11 := 117)) = Some (n, m') \<and> n \<le> 10 \<and>
     strtoul 0x100 10 m' = Some (4711, 0x100 + of_nat n)"
proof (rule sprintf_strtoul_roundtrip)
  show "\<forall>i \<le> 10. ((\<lambda>_. 0)(0x10 := 37, 0x11 := 117)) (0x100 + of_nat i :: u32) = (0 :: u8)"
  proof (intro allI impI)
    fix i :: nat
    assume "i \<le> 10"
    then have "unat (0x100 + of_nat i :: u32) = 0x100 + i" by (simp add: unat_word_ariths unat_of_nat)
    then have "(0x100 + of_nat i :: u32) \<noteq> 0x10" "(0x100 + of_nat i :: u32) \<noteq> 0x11"
      by (auto simp: word_unat_eq_iff)
    then show "((\<lambda>_. 0)(0x10 := 37, 0x11 := 117)) (0x100 + of_nat i :: u32) = (0 :: u8)" by simp
  qed
qed simp_all

end
