(* ===== verification/Int_Contract.thy ===== *)
theory Int_Contract
  imports Prelude
begin

text \<open>
  What the rest of the wedge relies on when it polls an interrupt controller, and what follows
  from it. A controller has a set of deliverable requests and an operation that serves one of
  them. The contract: serving returns the request of best priority and removes exactly
  that one, and it returns nothing precisely when nothing is deliverable. The client lemma
  about draining a controller is proved once here; the models of the 8259A and of the local
  APIC are interpreted in their own theories.
\<close>

locale int_controller =
  fixes ok :: "'s \<Rightarrow> bool"
    and deliverable :: "'s \<Rightarrow> nat set"
    and serve :: "'s \<Rightarrow> nat option \<times> 's"
    and rank :: "nat \<Rightarrow> int"
  assumes rank_inj: "inj rank"
    and deliverable_finite: "ok s \<Longrightarrow> finite (deliverable s)"
    and serve_empty: "ok s \<Longrightarrow> deliverable s = {} \<Longrightarrow> fst (serve s) = None"
    and serve_nonempty: "ok s \<Longrightarrow> deliverable s \<noteq> {} \<Longrightarrow>
      \<exists>n s'. serve s = (Some n, s') \<and> ok s' \<and> n \<in> deliverable s \<and>
        (\<forall>m \<in> deliverable s. rank n \<le> rank m) \<and> deliverable s' = deliverable s - {n}"
begin

fun drain :: "nat \<Rightarrow> 's \<Rightarrow> nat list \<times> 's" where
  "drain 0 s = ([], s)"
| "drain (Suc k) s =
     (case serve s of
        (None, s') \<Rightarrow> ([], s')
      | (Some n, s') \<Rightarrow> (let (ns, t) = drain k s' in (n # ns, t)))"

lemma drain_all:
  assumes "ok s" and "card (deliverable s) \<le> k"
  shows "set (fst (drain k s)) = deliverable s \<and>
         sorted_wrt (\<lambda>a b. rank a < rank b) (fst (drain k s))"
  using assms
proof (induction k arbitrary: s)
  case 0
  then show ?case by (simp add: deliverable_finite)
next
  case (Suc k)
  show ?case
  proof (cases "deliverable s = {}")
    case True
    with Suc.prems serve_empty [of s] show ?thesis by (auto split: prod.split option.split)
  next
    case False
    from serve_nonempty [OF Suc.prems(1) False] obtain n s' where
      n: "serve s = (Some n, s')" "ok s'" "n \<in> deliverable s"
         "\<forall>m \<in> deliverable s. rank n \<le> rank m" "deliverable s' = deliverable s - {n}" by blast
    have "card (deliverable s') \<le> k"
      using Suc.prems n by (simp add: deliverable_finite)
    note IH = Suc.IH [OF n(2) this]
    have "rank n < rank m" if "m \<in> deliverable s'" for m
      using that n rank_inj by (metis DiffE injD insertI1 order_le_less)
    with IH n show ?thesis by (auto simp: Let_def split: prod.split)
  qed
qed

lemma drain_distinct:
  assumes "ok s" and "card (deliverable s) \<le> k"
  shows "distinct (fst (drain k s))"
  using drain_all [OF assms] by (auto simp: strict_sorted_imp_sorted distinct_conv_nth sorted_wrt_iff_nth_less)
     (metis linorder_neqE_nat order_less_irrefl)

end

end
