(* ===== verification/I8259a.thy ===== *)
theory I8259a
  imports Wedge_State Int_Contract
begin

text \<open>
  The 8259A programmable interrupt controller: \<^verbatim>\<open>device/i8259a.h\<close> and
  \<^verbatim>\<open>device/i8259a.cc\<close>. A controller is the record \<open>i8259a_t\<close> with the members of the class;
  a method that also changes the CPU, the interrupt words or calls the back-end takes and
  returns the wedge state next to it. The wedge has two controllers, \<^verbatim>\<open>intlogic.master\<close> with
  base 0 and \<^verbatim>\<open>intlogic.slave\<close> with base 8.
\<close>

section \<open>Registers\<close>

type_synonym i8259a_icw1_t = u8
type_synonym i8259a_icw2_t = u8
type_synonym i8259a_icw3_t = u8
type_synonym i8259a_icw4_t = u8
type_synonym i8259a_ocw_t = u8

definition icw1_set_raw :: "u8 \<Rightarrow> i8259a_icw1_t" where
  "icw1_set_raw new_val = (new_val AND 0xb) OR 0x10"

definition icw1_master_only :: "i8259a_icw1_t \<Rightarrow> bool" where
  "icw1_master_only x = (getf 1 1 x = 1)"

definition icw1_level_triggered :: "i8259a_icw1_t \<Rightarrow> bool" where
  "icw1_level_triggered x = (getf 3 1 x = 1)"

definition icw1_icw4_enabled :: "i8259a_icw1_t \<Rightarrow> bool" where
  "icw1_icw4_enabled x = (getf 0 1 x = 1)"

definition icw2_set_raw :: "u8 \<Rightarrow> i8259a_icw2_t" where
  "icw2_set_raw new_val = new_val AND 0xf8"

definition icw2_get_idt_offset :: "i8259a_icw2_t \<Rightarrow> u8" where
  "icw2_get_idt_offset x = x"

definition icw3_set_raw :: "u8 \<Rightarrow> i8259a_icw3_t" where
  "icw3_set_raw new_val = new_val"

definition icw4_set_raw :: "u8 \<Rightarrow> i8259a_icw4_t" where
  "icw4_set_raw new_val = new_val AND 0x1f"

definition icw4_is_auto_eoi :: "i8259a_icw4_t \<Rightarrow> bool" where
  "icw4_is_auto_eoi x = (getf 1 1 x = 1)"

definition icw4_is_master :: "i8259a_icw4_t \<Rightarrow> bool" where
  "icw4_is_master x = (getf 2 1 x = 1)"

datatype ocw2_op_e =
    clear_rotate_on_aeoi | non_specific_eoi | ocw2_nop | specific_eoi | set_rotate_on_aeoi
  | rotate_on_non_specific_eoi | set_priority | rotate_on_specific_eoi

definition ocw_get_op :: "i8259a_ocw_t \<Rightarrow> ocw2_op_e" where
  "ocw_get_op x =
     [clear_rotate_on_aeoi, non_specific_eoi, ocw2_nop, specific_eoi, set_rotate_on_aeoi,
      rotate_on_non_specific_eoi, set_priority, rotate_on_specific_eoi] ! unat (getf 5 3 x)"

definition ocw_is_icw1 :: "i8259a_ocw_t \<Rightarrow> bool" where
  "ocw_is_icw1 x = (getf 4 1 x = 1)"

definition ocw_is_ocw3 :: "i8259a_ocw_t \<Rightarrow> bool" where
  "ocw_is_ocw3 x = (getf 3 1 x = 1)"

definition ocw_is_specific_eoi :: "i8259a_ocw_t \<Rightarrow> bool" where
  "ocw_is_specific_eoi x = (ocw_get_op x = specific_eoi)"

definition ocw_is_non_specific_eoi :: "i8259a_ocw_t \<Rightarrow> bool" where
  "ocw_is_non_specific_eoi x = (ocw_get_op x = non_specific_eoi)"

definition ocw_is_read_request :: "i8259a_ocw_t \<Rightarrow> bool" where
  "ocw_is_read_request x = (getf 1 1 x \<noteq> 0)"

definition ocw_is_poll_mode :: "i8259a_ocw_t \<Rightarrow> bool" where
  "ocw_is_poll_mode x = (getf 2 1 x \<noteq> 0)"

definition ocw_is_read_isr :: "i8259a_ocw_t \<Rightarrow> bool" where
  "ocw_is_read_isr x = (getf 0 1 x = 1)"

definition ocw_get_level :: "i8259a_ocw_t \<Rightarrow> u8" where
  "ocw_get_level x = getf 0 3 x"

section \<open>The controller\<close>

datatype mode_e = ocw_mode | icw2_mode | icw3_mode | icw4_mode | max_mode

record i8259a_t =
  icw1 :: i8259a_icw1_t
  icw2 :: i8259a_icw2_t
  icw3 :: i8259a_icw3_t
  icw4 :: i8259a_icw4_t
  mode :: mode_e
  irq_in_service :: word_t
  irq_request :: word_t
  irq_mask :: word_t
  ocw_read :: i8259a_ocw_t

text \<open>
  The constructor; the members it does not assign are those of zero-initialised static storage.
\<close>

definition i8259a_init :: i8259a_t where
  "i8259a_init =
     \<lparr>icw1 = 0, icw2 = 0, icw3 = 0, icw4 = 0, mode = ocw_mode, irq_in_service = 0,
      irq_request = 0, irq_mask = 0xff, ocw_read = putf 0 1 0 (putf 1 1 1 0)\<rparr>"

fun mode_succ :: "mode_e \<Rightarrow> mode_e" where
  "mode_succ ocw_mode = icw2_mode"
| "mode_succ icw2_mode = icw3_mode"
| "mode_succ icw3_mode = icw4_mode"
| "mode_succ icw4_mode = ocw_mode"
| "mode_succ max_mode = icw2_mode"

definition i8259a_seoi :: "word_t \<Rightarrow> i8259a_t \<Rightarrow> bool \<times> i8259a_t" where
  "i8259a_seoi irq p =
     (if irq_in_service p AND shl1 irq = 0 then (False, p)
      else (True, p\<lparr>irq_in_service := irq_in_service p AND NOT (shl1 irq)\<rparr>))"

text \<open>\<open>eoi\<close> returns the interrupt it assigned to its reference argument when it returns true.\<close>

definition i8259a_eoi :: "i8259a_t \<Rightarrow> word_t option \<times> i8259a_t" where
  "i8259a_eoi p =
     (if irq_in_service p \<noteq> 0 then
        (let irq = lsb (irq_in_service p); (r, p') = i8259a_seoi irq p
         in (if r then Some irq else None, p'))
      else (None, p))"

definition reset_mode :: "i8259a_t \<Rightarrow> i8259a_t" where
  "reset_mode p = p\<lparr>mode := icw2_mode\<rparr>"

definition next_mode :: "i8259a_t \<Rightarrow> i8259a_t" where
  "next_mode p =
     (let m0 = mode_succ (mode p);
          m1 = (if m0 = icw3_mode \<and> icw1_master_only (icw1 p) then mode_succ m0 else m0);
          m2 = (if m1 = icw4_mode \<and> \<not> icw1_icw4_enabled (icw1 p) then mode_succ m1 else m1)
      in p\<lparr>mode := m2\<rparr>)"

text \<open>
  \<open>pending_vector\<close> returns the vector and the interrupt when it returns true. Its loop
  returns in the first iteration on either path.
\<close>

definition i8259a_pending_vector ::
    "word_t \<Rightarrow> i8259a_t \<Rightarrow> 'w wedge_scheme \<Rightarrow>
     ((word_t \<times> word_t) option \<times> i8259a_t \<times> 'w wedge_scheme) option" where
  "i8259a_pending_vector irq_base p w =
     (let masked_irr = irq_request p AND NOT (irq_mask p) in
      if masked_irr = 0 then do {
        w \<leftarrow> clear_irq_vector irq_base w;
        Some (None, p, w)
      } else (
        let pic_irq = lsb masked_irr;
            p = p\<lparr>irq_request := irq_request p AND NOT (shl1 pic_irq)\<rparr>;
            irq = pic_irq + irq_base;
            p = (if \<not> icw4_is_auto_eoi (icw4 p)
                 then p\<lparr>irq_in_service := bit_set_atomic pic_irq (irq_in_service p)\<rparr> else p);
            vector = pic_irq + ucast (icw2_get_idt_offset (icw2 p))
        in do {
          w \<leftarrow> (if irq_request p AND NOT (irq_mask p) = 0
                then clear_irq_vector irq_base w else Some w);
          Some (Some (vector, irq), p, w)
        }))"

definition i8259a_reraise_vector ::
    "word_t \<Rightarrow> word_t \<Rightarrow> i8259a_t \<Rightarrow> 'w wedge_scheme \<Rightarrow> (i8259a_t \<times> 'w wedge_scheme) option" where
  "i8259a_reraise_vector vector irq_base p w =
     (let off = ucast (icw2_get_idt_offset (icw2 p)) in
      if vector < off \<or> vector \<ge> off + 8 then Some (p, w)
      else (let pic_irq = vector - off; irq = pic_irq + irq_base in do {
        ASSERT (pic_irq < 8);
        let p = p\<lparr>irq_request := bit_set_atomic pic_irq (irq_request p)\<rparr>;
        w \<leftarrow> (if irq_mask p AND shl1 pic_irq = 0 then set_irq_vector irq w else Some w);
        Some (p, w)
      }))"

definition i8259a_raise_irq ::
    "word_t \<Rightarrow> word_t \<Rightarrow> i8259a_t \<Rightarrow> 'w wedge_scheme \<Rightarrow> (i8259a_t \<times> 'w wedge_scheme) option" where
  "i8259a_raise_irq irq irq_base p w =
     (let pic_irq = irq - irq_base in do {
        ASSERT (pic_irq < 8);
        let p = p\<lparr>irq_request := bit_set_atomic pic_irq (irq_request p)\<rparr>;
        w \<leftarrow> set_hwirq_mask irq w;
        w \<leftarrow> (if irq_mask p AND shl1 pic_irq = 0 then set_irq_vector irq w else Some w);
        Some (p, w)
      })"

section \<open>Port accesses\<close>

definition master_irq_offset :: u8 where "master_irq_offset = 0"

definition slave_irq_offset :: u8 where "slave_irq_offset = 8"

definition port_byte_result :: "word_t \<Rightarrow> u8 \<Rightarrow> word_t" where
  "port_byte_result eax result = (eax AND NOT 0xff) OR ucast result"

definition i8259a_port_a_read :: "i8259a_t \<Rightarrow> u8 \<times> i8259a_t" where
  "i8259a_port_a_read p =
     (if ocw_is_poll_mode (ocw_read p) then
        (case i8259a_eoi p of
           (Some irq, p') \<Rightarrow> (ucast irq, p')
         | (None, p') \<Rightarrow> (7, p'))
      else if ocw_is_read_isr (ocw_read p) then (ucast (irq_in_service p), p)
      else (ucast (irq_request p), p))"

definition i8259a_port_b_read :: "i8259a_t \<Rightarrow> u8" where
  "i8259a_port_b_read p = (if mode p \<noteq> ocw_mode then 0xff else ucast (irq_mask p))"

definition i8259a_port_a_write ::
    "u8 \<Rightarrow> i8259a_t \<Rightarrow> 'w wedge_scheme \<Rightarrow> (i8259a_t \<times> 'w wedge_scheme) option" where
  "i8259a_port_a_write ocw p w =
     (let (unmask_irq, p) =
        (if ocw_is_icw1 ocw then
           (let p = p\<lparr>icw1 := icw1_set_raw ocw\<rparr>;
                p = (if \<not> icw1_icw4_enabled (icw1 p) then p\<lparr>icw4 := icw4_set_raw 0\<rparr> else p);
                p = reset_mode p
            in (None, p\<lparr>irq_mask := 0xff\<rparr>))
         else if ocw_is_ocw3 ocw then
           (if ocw_is_read_request ocw \<or> ocw_is_poll_mode ocw
            then (None, p\<lparr>ocw_read := ocw\<rparr>) else (None, p))
         else if ocw_is_specific_eoi ocw then i8259a_eoi p
         else if ocw_is_non_specific_eoi ocw then i8259a_eoi p
         else (None, p))
      in case unmask_irq of
           None \<Rightarrow> Some (p, w)
         | Some irq \<Rightarrow>
             if is_hwirq_squashed irq w then Some (p, w)
             else do {
               (was, w) \<leftarrow> test_and_clear_hwirq_mask irq w;
               Some (p, if was then log_event (UnmaskDeviceInterrupt irq) w else w)
             })"

text \<open>The two loops of the OCW1 write: enabling device interrupts and unmasking them.\<close>

definition enable_irq_step :: "word_t \<Rightarrow> 'w wedge_scheme option \<Rightarrow> 'w wedge_scheme option" where
  "enable_irq_step new_irq so = do {
     w \<leftarrow> so;
     w \<leftarrow> set_hwirq_latch new_irq w;
     Some (log_event (EnableDeviceInterrupt new_irq (cur_vcpu w)) w)
   }"

definition unmask_irq_step :: "word_t \<Rightarrow> 'w wedge_scheme option \<Rightarrow> 'w wedge_scheme option" where
  "unmask_irq_step unmasked_irq so = do {
     w \<leftarrow> so;
     w \<leftarrow> clear_hwirq_mask unmasked_irq w;
     Some (log_event (UnmaskDeviceInterrupt unmasked_irq) w)
   }"

definition i8259a_port_b_write ::
    "u8 \<Rightarrow> u8 \<Rightarrow> i8259a_t \<Rightarrow> 'w wedge_scheme \<Rightarrow> (i8259a_t \<times> 'w wedge_scheme) option" where
  "i8259a_port_b_write val irq_base p w =
     (case mode p of
        ocw_mode \<Rightarrow>
          (let old_irq_mask = irq_mask p;
               p = p\<lparr>irq_mask := ucast val\<rparr>;
               sh = push_bit (unat irq_base mod 32)
           in do {
             w \<leftarrow> (if (irq_request p AND old_irq_mask) AND NOT (irq_mask p) \<noteq> 0
                   then set_irq_vector (ucast irq_base) w else Some w);
             let old_hwirq_mask = sh old_irq_mask OR NOT (sh 0xff);
             let hwirq_mask = sh (irq_mask p) OR NOT (sh 0xff);
             let newly_enabled = NOT hwirq_mask AND NOT (get_hwirq_latch w)
                                   AND NOT (get_hwirq_squash w);
             w \<leftarrow> while_lsb enable_irq_step newly_enabled (Some w);
             let device_unmasked = old_hwirq_mask AND NOT hwirq_mask
                                     AND get_hwirq_mask w AND NOT (get_hwirq_squash w);
             w \<leftarrow> while_lsb unmask_irq_step device_unmasked (Some w);
             Some (p, w)
           })
      | icw2_mode \<Rightarrow> Some (next_mode (p\<lparr>icw2 := icw2_set_raw val\<rparr>), w)
      | icw3_mode \<Rightarrow> Some (next_mode (p\<lparr>icw3 := icw3_set_raw val\<rparr>), w)
      | icw4_mode \<Rightarrow> Some (next_mode (p\<lparr>icw4 := icw4_set_raw val\<rparr>), w)
      | max_mode \<Rightarrow> Some (reset_mode p, w))"

section \<open>The two controllers of the wedge\<close>

record pic_wedge = wedge +
  master :: i8259a_t
  slave :: i8259a_t

definition device_8259_0x20_in :: "word_t \<Rightarrow> 'w pic_wedge_scheme \<Rightarrow> word_t \<times> 'w pic_wedge_scheme" where
  "device_8259_0x20_in eax w =
     (let (r, p) = i8259a_port_a_read (master w) in (port_byte_result eax r, w\<lparr>master := p\<rparr>))"

definition device_8259_0x21_in :: "word_t \<Rightarrow> 'w pic_wedge_scheme \<Rightarrow> word_t \<times> 'w pic_wedge_scheme" where
  "device_8259_0x21_in eax w = (port_byte_result eax (i8259a_port_b_read (master w)), w)"

definition device_8259_0xa0_in :: "word_t \<Rightarrow> 'w pic_wedge_scheme \<Rightarrow> word_t \<times> 'w pic_wedge_scheme" where
  "device_8259_0xa0_in eax w =
     (let (r, p) = i8259a_port_a_read (slave w) in (port_byte_result eax r, w\<lparr>slave := p\<rparr>))"

definition device_8259_0xa1_in :: "word_t \<Rightarrow> 'w pic_wedge_scheme \<Rightarrow> word_t \<times> 'w pic_wedge_scheme" where
  "device_8259_0xa1_in eax w = (port_byte_result eax (i8259a_port_b_read (slave w)), w)"

definition device_8259_0x20_out :: "word_t \<Rightarrow> 'w pic_wedge_scheme \<Rightarrow> 'w pic_wedge_scheme option" where
  "device_8259_0x20_out eax w =
     do { (p, w) \<leftarrow> i8259a_port_a_write (ucast eax) (master w) w; Some (w\<lparr>master := p\<rparr>) }"

definition device_8259_0x21_out :: "word_t \<Rightarrow> 'w pic_wedge_scheme \<Rightarrow> 'w pic_wedge_scheme option" where
  "device_8259_0x21_out eax w =
     do { (p, w) \<leftarrow> i8259a_port_b_write (ucast eax) master_irq_offset (master w) w;
          Some (w\<lparr>master := p\<rparr>) }"

definition device_8259_0xa0_out :: "word_t \<Rightarrow> 'w pic_wedge_scheme \<Rightarrow> 'w pic_wedge_scheme option" where
  "device_8259_0xa0_out eax w =
     do { (p, w) \<leftarrow> i8259a_port_a_write (ucast eax) (slave w) w; Some (w\<lparr>slave := p\<rparr>) }"

definition device_8259_0xa1_out :: "word_t \<Rightarrow> 'w pic_wedge_scheme \<Rightarrow> 'w pic_wedge_scheme option" where
  "device_8259_0xa1_out eax w =
     do { (p, w) \<leftarrow> i8259a_port_b_write (ucast eax) slave_irq_offset (slave w) w;
          Some (w\<lparr>slave := p\<rparr>) }"

definition i8259a_portio ::
    "u16 \<Rightarrow> u32 \<Rightarrow> bool \<Rightarrow> 'w pic_wedge_scheme \<Rightarrow> (u32 \<times> 'w pic_wedge_scheme) option" where
  "i8259a_portio port val rd w =
     (if port = 0x20 \<and> rd then Some (device_8259_0x20_in 0 w)
      else if port = 0x21 \<and> rd then Some (device_8259_0x21_in 0 w)
      else if port = 0xa0 \<and> rd then Some (device_8259_0xa0_in 0 w)
      else if port = 0xa1 \<and> rd then Some (device_8259_0xa1_in 0 w)
      else if port = 0x20 then do { w \<leftarrow> device_8259_0x20_out val w; Some (val, w) }
      else if port = 0x21 then do { w \<leftarrow> device_8259_0x21_out val w; Some (val, w) }
      else if port = 0xa0 then do { w \<leftarrow> device_8259_0xa0_out val w; Some (val, w) }
      else if port = 0xa1 then do { w \<leftarrow> device_8259_0xa1_out val w; Some (val, w) }
      else if port = 0x4d0 \<or> port = 0x4d1 then Some (val, w)
      else Some (NOT 0, w))"

section \<open>Well-formedness and the wake-up invariant\<close>

definition pic_wf :: "i8259a_t \<Rightarrow> bool" where
  "pic_wf p \<longleftrightarrow> irq_request p < 256 \<and> irq_in_service p < 256 \<and> irq_mask p < 256 \<and> mode p \<noteq> max_mode"

definition pic_pending :: "i8259a_t \<Rightarrow> nat set" where
  "pic_pending p = bits (irq_request p AND NOT (irq_mask p))"

text \<open>
  The invariant that keeps interrupts from being lost: while a controller has an unmasked
  request, the cluster bit of its base is set in the CPU, because the wedge polls the
  controllers only when some cluster bit is set.
\<close>

definition pic_flagged :: "word_t \<Rightarrow> i8259a_t \<Rightarrow> 'w wedge_scheme \<Rightarrow> bool" where
  "pic_flagged irq_base p w \<longleftrightarrow>
     (pic_pending p \<noteq> {} \<longrightarrow> bit (get_irq_vectors w) (unat irq_base div 8))"

definition pic_base :: "word_t \<Rightarrow> bool" where
  "pic_base b \<longleftrightarrow> b = 0 \<or> b = 8"

lemma bits_less_256: "w < 256 \<longleftrightarrow> bits w \<subseteq> {..<8}" for w :: word_t
proof -
  have "w < 256 \<longleftrightarrow> take_bit 8 w = w"
    by (simp add: word_unat_eq_iff unsigned_take_bit_eq take_bit_nat_eq_self_iff word_less_nat_alt)
  also have "\<dots> \<longleftrightarrow> bits w \<subseteq> {..<8}"
    by (auto simp: bits_def bit_take_bit_iff intro!: bit_word_eqI)
      (metis bit_take_bit_iff)
  finally show ?thesis .
qed

lemma bits_ff: "bits (0xff :: word_t) = {..<8}"
proof -
  have m: "(0xff :: word_t) = mask 8" by (simp add: mask_eq_exp_minus_1)
  show ?thesis unfolding m by (auto simp: bit_mask_iff)
qed

lemma pic_pending_def': "pic_pending p = bits (irq_request p) - bits (irq_mask p)"
  by (simp add: pic_pending_def bitset_simps)

lemma pic_pending_finite [simp]: "finite (pic_pending p)"
  by (simp add: pic_pending_def)

lemma pic_pending_less: "pic_wf p \<Longrightarrow> n \<in> pic_pending p \<Longrightarrow> n < 8"
  by (auto simp: pic_wf_def bits_less_256 pic_pending_def')

lemma pic_base_less: "pic_base b \<Longrightarrow> b < 256"
  by (auto simp: pic_base_def)

lemma of_nat_less_8: "n < 8 \<Longrightarrow> (of_nat n :: word_t) < 8"
  by (simp add: word_less_nat_alt unat_of_nat)

lemma of_nat_less_32: "n < 32 \<Longrightarrow> (of_nat n :: word_t) < 32"
  by (simp add: word_less_nat_alt unat_of_nat)

lemma bt_offset_of_nat: "n < 32 \<Longrightarrow> bt_offset (of_nat n) = n"
  by (simp add: bt_offset_def unat_of_nat_32)

lemma bit_set_atomic_small: "b < 32 \<Longrightarrow> bit_set_atomic b w = set_bit (unat b) w"
  by (simp add: bit_set_atomic_def bt_small)

lemma pic_irq_split:
  assumes "pic_base irq_base" "irq - irq_base < 8"
  shows "irq < 16" and "unat irq div 8 = unat irq_base div 8"
    and "unat (irq - irq_base) = unat irq mod 8"
proof -
  define k where "k = irq - irq_base"
  have irq: "irq = irq_base + k" by (simp add: k_def)
  have k: "unat k < 8" using assms(2) by (simp add: k_def word_less_nat_alt)
  have b: "unat irq_base \<in> {0, 8}" using assms(1) by (auto simp: pic_base_def)
  have u: "unat irq = unat irq_base + unat k"
    using b k unfolding irq by (subst unat_add_lem [THEN iffD1]) auto
  show "irq < 16" using u b k by (auto simp: word_less_nat_alt)
  show "unat irq div 8 = unat irq_base div 8" using u b k by auto
  show "unat (irq - irq_base) = unat irq mod 8" using u b k by (auto simp: k_def [symmetric])
qed

section \<open>Taking a pending interrupt\<close>

definition pic_take :: "nat \<Rightarrow> i8259a_t \<Rightarrow> i8259a_t" where
  "pic_take n p =
     p\<lparr>irq_request := unset_bit n (irq_request p),
       irq_in_service := (if icw4_is_auto_eoi (icw4 p) then irq_in_service p
                          else set_bit n (irq_in_service p))\<rparr>"

lemma pic_take_pending: "pic_pending (pic_take n p) = pic_pending p - {n}"
  by (auto simp: pic_pending_def' pic_take_def bitset_simps)

lemma pending_vector_None:
  assumes "pic_pending p = {}" "irq_base < 256"
  shows "i8259a_pending_vector irq_base p w =
           Some (None, p, flag_upd (unset_bit (unat irq_base div 8)) w)"
  using assms by (simp add: i8259a_pending_vector_def pic_pending_def bits_eq_empty irq_vector_small)

lemma pending_vector_Some:
  assumes "pic_pending p \<noteq> {}" "irq_base < 256"
  defines "n \<equiv> Min (pic_pending p)"
  shows "i8259a_pending_vector irq_base p w =
           Some (Some (of_nat n + ucast (icw2 p), of_nat n + irq_base), pic_take n p,
                 if pic_pending p = {n} then flag_upd (unset_bit (unat irq_base div 8)) w else w)"
proof -
  define m where "m = irq_request p AND NOT (irq_mask p)"
  have m: "m \<noteq> 0" using assms by (simp add: m_def pic_pending_def bits_eq_empty)
  have n: "unat (lsb m) = n" using m by (simp add: unat_lsb n_def pic_pending_def m_def)
  then have lsb: "lsb m = of_nat n" by (rule unat_eq_of_nat)
  have n32: "n < 32" using lsb_less [OF m] n by simp
  have mem: "n \<in> pic_pending p" unfolding n_def using assms(1) by (intro Min_in) auto
  have last: "irq_request (pic_take n p) AND NOT (irq_mask (pic_take n p)) = 0 \<longleftrightarrow> pic_pending p = {n}"
  proof -
    have "irq_request (pic_take n p) AND NOT (irq_mask (pic_take n p)) = 0 \<longleftrightarrow>
            pic_pending (pic_take n p) = {}"
      by (simp add: pic_pending_def bits_eq_empty)
    also have "\<dots> \<longleftrightarrow> pic_pending p = {n}" using mem by (auto simp: pic_take_pending)
    finally show ?thesis .
  qed
  have "i8259a_pending_vector irq_base p w =
      (let p' = pic_take n p in do {
         w \<leftarrow> (if irq_request p' AND NOT (irq_mask p') = 0
               then clear_irq_vector irq_base w else Some w);
         Some (Some (of_nat n + ucast (icw2 p), of_nat n + irq_base), p', w) })"
    unfolding i8259a_pending_vector_def m_def [symmetric] using m n32
    by (simp add: lsb Let_def andnot_shl1 bt_offset_of_nat bit_set_atomic_small of_nat_less_32
        unat_of_nat_32 icw2_get_idt_offset_def pic_take_def)
  then show ?thesis
    unfolding Let_def last using assms(2) by (simp add: irq_vector_small)
qed

lemma pic_take_wf: "pic_wf p \<Longrightarrow> n < 8 \<Longrightarrow> pic_wf (pic_take n p)"
  by (auto simp: pic_wf_def pic_take_def bits_less_256 bitset_simps)

section \<open>Every operation keeps the invariant\<close>

lemma raise_irq_eq:
  assumes "pic_base irq_base" "irq - irq_base < 8"
  shows "i8259a_raise_irq irq irq_base p w =
           Some (p\<lparr>irq_request := set_bit (unat irq mod 8) (irq_request p)\<rparr>,
                 (if bit (irq_mask p) (unat irq mod 8) then id
                  else flag_upd (set_bit (unat irq_base div 8)))
                 (hw_upd HW_MASK (set_bit (unat irq)) w))"
proof -
  note s = pic_irq_split [OF assms]
  have lt: "irq - irq_base < 32" using assms(2) by (simp add: word_less_nat_alt)
  have lt': "irq < 32" "irq < 256" using s(1) by (simp_all add: word_less_nat_alt)
  have "irq_mask p AND shl1 (irq - irq_base) = 0 \<longleftrightarrow> \<not> bit (irq_mask p) (unat irq mod 8)"
    using lt s(3) by (simp add: and_shl1_0 bt_offset_small)
  with assms(2) lt lt' s show ?thesis
    by (simp add: i8259a_raise_irq_def Let_def hwirq_ops_small irq_vector_small bit_set_atomic_small)
qed

lemma reraise_vector_in_range:
  assumes "pic_base irq_base" "ucast (icw2 p) \<le> vector" "vector < ucast (icw2 p) + 8"
  defines "n \<equiv> unat (vector - ucast (icw2 p))"
  shows "n < 8 \<and> i8259a_reraise_vector vector irq_base p w =
           Some (p\<lparr>irq_request := set_bit n (irq_request p)\<rparr>,
                 (if bit (irq_mask p) n then id else flag_upd (set_bit (unat irq_base div 8))) w)"
proof -
  define k where "k = vector - ucast (icw2 p)"
  have o: "unat (ucast (icw2 p) :: word_t) < 256"
    using unsigned_less [of "icw2 p", where ?'a = nat] by (simp add: unsigned_ucast_eq take_bit_nat_eq_self)
  then have "unat ((ucast (icw2 p) :: word_t) + 8) = unat (ucast (icw2 p) :: word_t) + 8"
    by (subst unat_add_lem [THEN iffD1]) auto
  then have k: "k < 8" using assms(2,3)
    by (auto simp: k_def word_less_nat_alt word_le_nat_alt unat_sub)
  have n: "n < 8" "unat k = n" using k by (auto simp: k_def n_def word_less_nat_alt)
  have kb: "k + irq_base - irq_base < 8" using k by simp
  note s = pic_irq_split [OF assms(1) kb]
  have lt: "k < 32" "k + irq_base < 256" using k s(1) by (simp_all add: word_less_nat_alt)
  have "irq_mask p AND shl1 k = 0 \<longleftrightarrow> \<not> bit (irq_mask p) n"
    using lt n by (simp add: and_shl1_0 bt_offset_small)
  then show ?thesis
    using assms(2,3) n k lt s(2)
    unfolding i8259a_reraise_vector_def icw2_get_idt_offset_def k_def [symmetric]
    by (auto simp: Let_def irq_vector_small bit_set_atomic_small k_def [symmetric])
qed

lemma flag_set [simp]: "n < 32 \<Longrightarrow> bit (set_bit n (w :: word_t)) n"
  by (simp add: bit_set_bit_iff)

lemma bit_set_bit_mono: "bit w n \<Longrightarrow> bit (set_bit k w) n" for w :: word_t
  by (auto simp: bit_set_bit_iff dest: bit_imp_le_length)

lemma pic_base_flag: "pic_base b \<Longrightarrow> unat b div 8 < 32"
  by (auto simp: pic_base_def)

lemma pic_flagged_upd:
  "pic_flagged b p (hw_upd k f w) = pic_flagged b p w"
  "pic_flagged b p (log_event e w) = pic_flagged b p w"
  "pic_base b \<Longrightarrow> pic_flagged b p (flag_upd (set_bit (unat b div 8)) w)"
  by (simp_all add: pic_flagged_def pic_base_flag)

lemma pic_request_pending:
  "pic_pending (p\<lparr>irq_request := set_bit n (irq_request p)\<rparr>) =
     (if n < 32 \<and> \<not> bit (irq_mask p) n then insert n (pic_pending p) else pic_pending p)"
  by (auto simp: pic_pending_def' bit_simps dest: bit_imp_le_length)

lemma seoi_lsb:
  assumes "irq_in_service p \<noteq> 0"
  shows "i8259a_eoi p =
           (Some (lsb (irq_in_service p)),
            p\<lparr>irq_in_service := unset_bit (Min (bits (irq_in_service p))) (irq_in_service p)\<rparr>)"
proof -
  have "lsb (irq_in_service p) < 32" using assms by (simp add: word_less_nat_alt lsb_less)
  then show ?thesis
    using assms lsb_bit [OF assms]
    by (simp add: i8259a_eoi_def i8259a_seoi_def and_shl1_0 bt_offset_small andnot_shl1
        Let_def flip: unat_lsb)
qed

lemma eoi_cases:
  "i8259a_eoi p = (None, p) \<or>
   (\<exists>irq. bit (irq_in_service p) (unat irq) \<and> irq < 32 \<and>
      i8259a_eoi p = (Some irq, p\<lparr>irq_in_service := unset_bit (unat irq) (irq_in_service p)\<rparr>))"
proof (cases "irq_in_service p = 0")
  case True
  then show ?thesis by (simp add: i8259a_eoi_def)
next
  case False
  with seoi_lsb [OF False] show ?thesis
    by (intro disjI2 exI [of _ "lsb (irq_in_service p)"])
      (simp add: lsb_bit lsb_less word_less_nat_alt flip: unat_lsb)
qed

lemma pic_isr_upd:
  "pic_pending (p\<lparr>irq_in_service := x\<rparr>) = pic_pending p"
  "pic_flagged b (p\<lparr>irq_in_service := x\<rparr>) w = pic_flagged b p w"
  "pic_wf p \<Longrightarrow> pic_wf (p\<lparr>irq_in_service := unset_bit n (irq_in_service p)\<rparr>)"
  by (auto simp: pic_pending_def pic_flagged_def pic_wf_def bits_less_256 bitset_simps)

definition ocw_is_eoi :: "i8259a_ocw_t \<Rightarrow> bool" where
  "ocw_is_eoi x \<longleftrightarrow> \<not> ocw_is_icw1 x \<and> \<not> ocw_is_ocw3 x \<and>
     (ocw_is_specific_eoi x \<or> ocw_is_non_specific_eoi x)"

lemma port_a_write_eoi:
  assumes "ocw_is_eoi val" "irq_in_service p \<noteq> 0"
  defines "n \<equiv> Min (bits (irq_in_service p))"
  shows "n < 32"
    and "i8259a_port_a_write val p w =
      Some (p\<lparr>irq_in_service := unset_bit n (irq_in_service p)\<rparr>,
            if bit (get_hwirq_squash w) n then w
            else if bit (get_hwirq_mask w) n
            then log_event (UnmaskDeviceInterrupt (of_nat n)) (hw_upd HW_MASK (unset_bit n) w)
            else hw_upd HW_MASK (unset_bit n) w)"
proof -
  have n: "unat (lsb (irq_in_service p)) = n" using assms(2) by (simp add: unat_lsb n_def)
  show n32: "n < 32" using lsb_less [OF assms(2)] n by simp
  have lsb: "lsb (irq_in_service p) = of_nat n" using n by (rule unat_eq_of_nat)
  note e = seoi_lsb [OF assms(2), folded n_def, unfolded lsb]
  have "i8259a_port_a_write val p w =
      (case i8259a_eoi p of (unmask_irq, p) \<Rightarrow>
         (case unmask_irq of
           None \<Rightarrow> Some (p, w)
         | Some irq \<Rightarrow>
             if is_hwirq_squashed irq w then Some (p, w)
             else do {
               (was, w) \<leftarrow> test_and_clear_hwirq_mask irq w;
               Some (p, if was then log_event (UnmaskDeviceInterrupt irq) w else w)
             }))"
    using assms(1) by (auto simp: ocw_is_eoi_def i8259a_port_a_write_def)
  then show "i8259a_port_a_write val p w =
      Some (p\<lparr>irq_in_service := unset_bit n (irq_in_service p)\<rparr>,
            if bit (get_hwirq_squash w) n then w
            else if bit (get_hwirq_mask w) n
            then log_event (UnmaskDeviceInterrupt (of_nat n)) (hw_upd HW_MASK (unset_bit n) w)
            else hw_upd HW_MASK (unset_bit n) w)"
    using n32 by (simp add: e is_hwirq_squashed_iff bt_offset_of_nat hwirq_ops_small of_nat_less_32
        unat_of_nat_32 get_hwirq_squash_def get_hwirq_mask_def)
qed

lemma port_a_write_icw1:
  assumes "ocw_is_icw1 val"
  shows "\<exists>p'. i8259a_port_a_write val p w = Some (p', w) \<and> mode p' = icw2_mode \<and>
     irq_mask p' = 0xff \<and> icw1 p' = icw1_set_raw val \<and> irq_request p' = irq_request p \<and>
     irq_in_service p' = irq_in_service p"
  using assms by (simp add: i8259a_port_a_write_def Let_def reset_mode_def)

lemma port_a_write_idle:
  assumes "\<not> ocw_is_icw1 val" "ocw_is_eoi val \<longrightarrow> irq_in_service p = 0"
  shows "i8259a_port_a_write val p w =
     Some (if ocw_is_ocw3 val \<and> (ocw_is_read_request val \<or> ocw_is_poll_mode val)
           then p\<lparr>ocw_read := val\<rparr> else p, w)"
  using assms by (auto simp: i8259a_port_a_write_def ocw_is_eoi_def i8259a_eoi_def)

lemma pic_masked_empty:
  assumes "pic_wf p" "irq_request p' = irq_request p" "irq_mask p' = 0xff"
  shows "pic_pending p' = {}"
  using assms by (simp add: pic_pending_def' pic_wf_def bits_less_256 bits_ff)

lemma port_a_write_inv:
  assumes "pic_wf p" "pic_flagged b p w"
  shows "\<exists>p' w'. i8259a_port_a_write val p w = Some (p', w') \<and> pic_wf p' \<and> pic_flagged b p' w'"
proof -
  consider (icw1) "ocw_is_icw1 val" | (eoi) "ocw_is_eoi val" "irq_in_service p \<noteq> 0"
    | (idle) "\<not> ocw_is_icw1 val" "ocw_is_eoi val \<longrightarrow> irq_in_service p = 0" by blast
  then show ?thesis
  proof cases
    case icw1
    from port_a_write_icw1 [OF this] obtain p' where
      p': "i8259a_port_a_write val p w = Some (p', w)" "mode p' = icw2_mode" "irq_mask p' = 0xff"
        "irq_request p' = irq_request p" "irq_in_service p' = irq_in_service p" by metis
    then have "pic_wf p'" using assms(1) by (simp add: pic_wf_def)
    moreover have "pic_pending p' = {}" by (rule pic_masked_empty) (use assms p' in auto)
    ultimately show ?thesis using p'(1) by (auto simp: pic_flagged_def)
  next
    case eoi
    show ?thesis
      unfolding port_a_write_eoi(2) [OF eoi]
      using assms by (simp add: pic_isr_upd pic_flagged_upd)
  next
    case idle
    have "pic_wf (p\<lparr>ocw_read := val\<rparr>)" "pic_flagged b (p\<lparr>ocw_read := val\<rparr>) w"
      using assms by (simp_all add: pic_wf_def pic_flagged_def pic_pending_def)
    then show ?thesis unfolding port_a_write_idle [OF idle] using assms by simp
  qed
qed

section \<open>The loops of an OCW1 write\<close>

definition log_events :: "backend_event list \<Rightarrow> 'w wedge_scheme \<Rightarrow> 'w wedge_scheme" where
  "log_events es w = w\<lparr>events := events w @ es\<rparr>"

lemma log_events_frame [simp]:
  "get_cpu (log_events es w) = get_cpu w"
  "get_irq_vectors (log_events es w) = get_irq_vectors w"
  "cur_vcpu (log_events es w) = cur_vcpu w"
  "hwirq_words (log_events es w) = hwirq_words w"
  "events (log_events es w) = events w @ es"
  by (simp_all add: log_events_def get_irq_vectors_def get_cpu_def)

lemma fold_enable:
  "set xs \<subseteq> {..<32} \<Longrightarrow>
   fold (\<lambda>n. enable_irq_step (of_nat n)) xs (Some w) =
     Some (log_events (map (\<lambda>n. EnableDeviceInterrupt (of_nat n) (cur_vcpu w)) xs)
             (hw_upd HW_LATCH (fold set_bit xs) w))"
proof (induction xs arbitrary: w)
  case Nil
  show ?case by (simp add: log_events_def hw_upd_def)
next
  case (Cons n xs)
  then have "(of_nat n :: word_t) < 32" by (simp add: of_nat_less_32)
  with Cons show ?case
    by (simp add: enable_irq_step_def hwirq_ops_small unat_of_nat_32)
      (simp add: log_events_def log_event_def hw_upd_def)
qed

lemma fold_unmask:
  "set xs \<subseteq> {..<32} \<Longrightarrow>
   fold (\<lambda>n. unmask_irq_step (of_nat n)) xs (Some w) =
     Some (log_events (map (\<lambda>n. UnmaskDeviceInterrupt (of_nat n)) xs)
             (hw_upd HW_MASK (fold unset_bit xs) w))"
proof (induction xs arbitrary: w)
  case Nil
  show ?case by (simp add: log_events_def hw_upd_def)
next
  case (Cons n xs)
  then have "(of_nat n :: word_t) < 32" by (simp add: of_nat_less_32)
  with Cons show ?case
    by (simp add: unmask_irq_step_def hwirq_ops_small unat_of_nat_32)
      (simp add: log_events_def log_event_def hw_upd_def)
qed

lemma bits_fold_set_bit:
  "set xs \<subseteq> {..<32} \<Longrightarrow> bits (fold set_bit xs (l :: word_t)) = bits l \<union> set xs"
  by (induction xs arbitrary: l) (auto simp: bitset_simps)

lemma bits_fold_unset_bit: "bits (fold unset_bit xs (l :: word_t)) = bits l - set xs"
  by (induction xs arbitrary: l) (auto simp: bitset_simps)

lemma bits_less_32: "set (sorted_list_of_set (bits n)) \<subseteq> {..<32}" for n :: word_t
  using bits_subset [of n] by simp

lemma while_enable:
  "while_lsb enable_irq_step n (Some w) =
     Some (log_events (map (\<lambda>i. EnableDeviceInterrupt (of_nat i) (cur_vcpu w))
                        (sorted_list_of_set (bits n)))
             (hw_upd HW_LATCH (\<lambda>l. l OR n) w))"
proof -
  have "fold set_bit (sorted_list_of_set (bits n)) = (\<lambda>l. l OR n)"
    using bits_less_32 [of n]
    by (intro ext) (simp add: bits_fold_set_bit bits_or flip: bits_inject)
  then show ?thesis by (simp add: while_lsb_fold fold_enable [OF bits_less_32])
qed

definition clear_bits :: "word_t \<Rightarrow> word_t \<Rightarrow> word_t" where
  "clear_bits n l = l AND NOT n"

lemma bits_clear_bits [bitset_simps]: "bits (clear_bits n l) = bits l - bits n"
  by (simp add: clear_bits_def bits_and bits_not bits_Int_Diff)

lemma while_unmask:
  "while_lsb unmask_irq_step n (Some w) =
     Some (log_events (map (\<lambda>i. UnmaskDeviceInterrupt (of_nat i)) (sorted_list_of_set (bits n)))
             (hw_upd HW_MASK (clear_bits n) w))"
proof -
  have "fold unset_bit (sorted_list_of_set (bits n)) = clear_bits n"
    by (intro ext) (simp add: bits_fold_unset_bit bits_clear_bits flip: bits_inject)
  then show ?thesis by (simp add: while_lsb_fold fold_unmask [OF bits_less_32])
qed

text \<open>The interrupts of the controller that a mask value leaves enabled, as device interrupts.\<close>

definition pic_enabled :: "u8 \<Rightarrow> u8 \<Rightarrow> nat set" where
  "pic_enabled irq_base m = {unat irq_base + i | i. i < 8 \<and> \<not> bit m i}"

lemma shifted_mask_bits:
  "bits (push_bit k x OR NOT (push_bit k 0xff) :: word_t) =
     {..<32} - {k + i | i. i < 8 \<and> \<not> bit x i}"
proof (rule set_eqI)
  fix j
  have m: "(0xff :: word_t) = mask 8" by (simp add: mask_eq_exp_minus_1)
  have "j \<in> bits (push_bit k x OR NOT (push_bit k 0xff) :: word_t) \<longleftrightarrow>
          j < 32 \<and> (k \<le> j \<longrightarrow> j - k < 8 \<longrightarrow> bit x (j - k))"
    unfolding m by (auto simp: bit_simps)
  also have "\<dots> \<longleftrightarrow> j \<in> {..<32} - {k + i | i. i < 8 \<and> \<not> bit x i}"
    by (cases "k \<le> j") (auto simp: le_iff_add)
  finally show "j \<in> bits (push_bit k x OR NOT (push_bit k 0xff) :: word_t) \<longleftrightarrow>
      j \<in> {..<32} - {k + i | i. i < 8 \<and> \<not> bit x i}" .
qed

lemma hwirq_mask_bits:
  assumes "irq_base = (0 :: u8) \<or> irq_base = 8"
  shows "bits (push_bit (unat irq_base mod 32) x OR NOT (push_bit (unat irq_base mod 32) 0xff) :: word_t)
         = {..<32} - {unat irq_base + i | i. i < 8 \<and> \<not> bit x i}"
proof -
  have "unat irq_base mod 32 = unat irq_base" using assms by auto
  then show ?thesis by (simp only: shifted_mask_bits)
qed

lemma port_b_write_ocw:
  fixes val irq_base :: u8 and p :: i8259a_t and w :: "'w wedge_scheme"
  assumes "mode p = ocw_mode" "irq_base = 0 \<or> irq_base = 8"
  defines "en \<equiv> pic_enabled irq_base val - bits (get_hwirq_latch w) - bits (get_hwirq_squash w)"
    and "um \<equiv> (pic_enabled irq_base val - {unat irq_base + i | i. i < 8 \<and> \<not> bit (irq_mask p) i})
                 \<inter> bits (get_hwirq_mask w) - bits (get_hwirq_squash w)"
    and "woken \<equiv> bits (irq_request p) \<inter> bits (irq_mask p) - bits val \<noteq> {}"
  shows "\<exists>w'. i8259a_port_b_write val irq_base p w = Some (p\<lparr>irq_mask := ucast val\<rparr>, w') \<and>
     get_irq_vectors w' = (if woken then set_bit (unat irq_base div 8) else id) (get_irq_vectors w) \<and>
     bits (get_hwirq_latch w') = bits (get_hwirq_latch w) \<union> en \<and>
     bits (get_hwirq_mask w') = bits (get_hwirq_mask w) - um \<and>
     get_hwirq_squash w' = get_hwirq_squash w \<and>
     events w' = events w @ map (\<lambda>i. EnableDeviceInterrupt (of_nat i) (cur_vcpu w)) (sorted_list_of_set en)
                          @ map (\<lambda>i. UnmaskDeviceInterrupt (of_nat i)) (sorted_list_of_set um)"
proof -
  let ?sh = "push_bit (unat irq_base mod 32) :: word_t \<Rightarrow> word_t"
  let ?old = "?sh (irq_mask p) OR NOT (?sh 0xff)" and ?new = "?sh (ucast val) OR NOT (?sh 0xff)"
  define w1 where "w1 = (if woken then flag_upd (set_bit (unat irq_base div 8)) w else w)"
  have b256: "(ucast irq_base :: word_t) < 256" "unat (ucast irq_base :: word_t) = unat irq_base"
    using assms(2) by auto
  have bv: "bit (ucast val :: word_t) i \<longleftrightarrow> bit val i" for i
    by (auto simp: bit_simps dest: bit_imp_le_length)
  have wk: "(irq_request p AND irq_mask p) AND NOT (ucast val) \<noteq> 0 \<longleftrightarrow> woken"
  proof -
    have "bits ((irq_request p AND irq_mask p) AND NOT (ucast val)) =
            bits (irq_request p) \<inter> bits (irq_mask p) - bits val"
      by (auto simp: bits_and bits_not bv dest: bit_u32_less)
    then show ?thesis by (simp add: woken_def flip: bits_eq_empty)
  qed
  have sv: "(if (irq_request p AND irq_mask p) AND NOT (ucast val) \<noteq> 0
             then set_irq_vector (ucast irq_base) w else Some w) = Some w1"
    unfolding wk w1_def using b256 by (simp add: irq_vector_small)
  have w1: "cur_vcpu w1 = cur_vcpu w" "hwirq_words w1 = hwirq_words w" "events w1 = events w"
    "get_irq_vectors w1 = (if woken then set_bit (unat irq_base div 8) else id) (get_irq_vectors w)"
    by (simp_all add: w1_def)
  have new: "bits ?new = {..<32} - pic_enabled irq_base val"
    using hwirq_mask_bits [OF assms(2), of "ucast val"] by (simp add: pic_enabled_def bv)
  have sub: "pic_enabled irq_base val \<subseteq> {..<32}"
    using assms(2) by (auto simp: pic_enabled_def)
  define E where "E = NOT ?new AND NOT (get_hwirq_latch w) AND NOT (get_hwirq_squash w)"
  define U where "U = ?old AND NOT ?new AND get_hwirq_mask w AND NOT (get_hwirq_squash w)"
  have en: "bits E = en"
    using sub unfolding E_def en_def bits_and bits_not new by auto
  have um: "bits U = um"
    using sub
    unfolding U_def um_def bits_and bits_not new hwirq_mask_bits [OF assms(2), of "irq_mask p"]
    by auto
  have "i8259a_port_b_write val irq_base p w =
      Some (p\<lparr>irq_mask := ucast val\<rparr>,
        log_events (map (\<lambda>i. UnmaskDeviceInterrupt (of_nat i)) (sorted_list_of_set (bits U)))
          (hw_upd HW_MASK (clear_bits U)
            (log_events (map (\<lambda>i. EnableDeviceInterrupt (of_nat i) (cur_vcpu w))
                          (sorted_list_of_set (bits E)))
              (hw_upd HW_LATCH (\<lambda>l. l OR E) w1))))"
    unfolding i8259a_port_b_write_def E_def U_def
    by (simp add: assms(1) sv while_enable while_unmask Let_def get_hwirq_latch_def
        get_hwirq_mask_def get_hwirq_squash_def w1)
  then show ?thesis
    by (simp add: en um get_hwirq_latch_def get_hwirq_mask_def get_hwirq_squash_def bits_or
        bits_clear_bits w1)
qed

section \<open>The controller as a transition system\<close>

inductive pic_step ::
    "u8 \<Rightarrow> i8259a_t \<times> 'w wedge_scheme \<Rightarrow> i8259a_t \<times> 'w wedge_scheme \<Rightarrow> bool" for irq_base where
  pic_raise: "irq - ucast irq_base < 8 \<Longrightarrow>
     i8259a_raise_irq irq (ucast irq_base) p w = Some (p', w') \<Longrightarrow>
     pic_step irq_base (p, w) (p', w')"
| pic_reraise: "i8259a_reraise_vector vector (ucast irq_base) p w = Some (p', w') \<Longrightarrow>
     pic_step irq_base (p, w) (p', w')"
| pic_claim: "i8259a_pending_vector (ucast irq_base) p w = Some (r, p', w') \<Longrightarrow>
     pic_step irq_base (p, w) (p', w')"
| pic_read_a: "i8259a_port_a_read p = (v, p') \<Longrightarrow> pic_step irq_base (p, w) (p', w)"
| pic_write_a: "i8259a_port_a_write v p w = Some (p', w') \<Longrightarrow> pic_step irq_base (p, w) (p', w')"
| pic_write_b: "i8259a_port_b_write v irq_base p w = Some (p', w') \<Longrightarrow>
     pic_step irq_base (p, w) (p', w')"

definition pic_inv :: "word_t \<Rightarrow> i8259a_t \<Rightarrow> 'w wedge_scheme \<Rightarrow> bool" where
  "pic_inv irq_base p w \<longleftrightarrow> pic_wf p \<and> pic_flagged irq_base p w"

lemma pic_inv_init: "pic_inv b i8259a_init w"
proof -
  have "pic_wf i8259a_init" by (simp add: pic_wf_def i8259a_init_def)
  moreover have "pic_pending i8259a_init = {}"
    by (simp add: pic_pending_def i8259a_init_def)
  ultimately show ?thesis by (simp add: pic_inv_def pic_flagged_def)
qed

lemma pic_inv_request:
  assumes "pic_inv b p w" "pic_base b" "n < 8"
  shows "pic_inv b (p\<lparr>irq_request := set_bit n (irq_request p)\<rparr>)
           ((if bit (irq_mask p) n then id else flag_upd (set_bit (unat b div 8))) w)"
proof -
  have "pic_wf (p\<lparr>irq_request := set_bit n (irq_request p)\<rparr>)"
    using assms by (auto simp: pic_inv_def pic_wf_def bits_less_256 bits_set_bit)
  then show ?thesis
    using assms
    by (auto simp: pic_inv_def pic_flagged_upd) (simp add: pic_flagged_def pic_request_pending)
qed

lemma pic_inv_hw_upd [simp]: "pic_inv b p (hw_upd k f w) = pic_inv b p w"
  by (simp add: pic_inv_def pic_flagged_upd)

lemma pic_inv_raise:
  assumes "pic_inv b p w" "pic_base b" "irq - b < 8"
    and "i8259a_raise_irq irq b p w = Some (p', w')"
  shows "pic_inv b p' w'"
proof -
  have "pic_inv b p (hw_upd HW_MASK (set_bit (unat irq)) w)" using assms(1) by simp
  from pic_inv_request [OF this assms(2), of "unat irq mod 8"] show ?thesis
    using assms(4) unfolding raise_irq_eq [OF assms(2,3)] by simp
qed

lemma pic_inv_reraise:
  assumes "pic_inv b p w" "pic_base b" "i8259a_reraise_vector vector b p w = Some (p', w')"
  shows "pic_inv b p' w'"
proof (cases "ucast (icw2 p) \<le> vector \<and> vector < ucast (icw2 p) + 8")
  case True
  then have *: "ucast (icw2 p) \<le> vector" "vector < ucast (icw2 p) + 8" by auto
  from reraise_vector_in_range [OF assms(2) *, where w = w]
    pic_inv_request [OF assms(1,2), of "unat (vector - ucast (icw2 p))"] assms(3)
  show ?thesis by simp
next
  case False
  then have "vector < ucast (icw2_get_idt_offset (icw2 p)) \<or>
      vector \<ge> ucast (icw2_get_idt_offset (icw2 p)) + 8"
    by (auto simp: icw2_get_idt_offset_def not_le not_less)
  with assms show ?thesis by (auto simp: i8259a_reraise_vector_def Let_def)
qed

lemma pic_inv_claim:
  assumes "pic_inv b p w" "pic_base b" "i8259a_pending_vector b p w = Some (r, p', w')"
  shows "pic_inv b p' w'"
proof (cases "pic_pending p = {}")
  case True
  then show ?thesis
    using assms by (simp add: pending_vector_None pic_base_less pic_inv_def pic_flagged_def)
next
  case False
  define n where "n = Min (pic_pending p)"
  have n: "n \<in> pic_pending p" unfolding n_def using False by (intro Min_in) auto
  have eq: "p' = pic_take n p"
    "w' = (if pic_pending p = {n} then flag_upd (unset_bit (unat b div 8)) w else w)"
    using assms(3) False by (simp_all add: pending_vector_Some pic_base_less [OF assms(2)] n_def)
  have "n < 8" using n assms(1) by (auto simp: pic_inv_def dest: pic_pending_less)
  moreover have "pic_flagged b p' w'"
    using n assms(1) by (auto simp: eq pic_flagged_def pic_take_pending pic_inv_def)
  ultimately show ?thesis
    using assms(1) by (simp add: pic_inv_def eq(1) pic_take_wf)
qed

lemma pic_inv_read_a:
  assumes "pic_inv b p w" "i8259a_port_a_read p = (v, p')"
  shows "pic_inv b p' w"
proof -
  have "p' = p \<or> (\<exists>n. p' = p\<lparr>irq_in_service := unset_bit n (irq_in_service p)\<rparr>)"
    using assms(2) eoi_cases [of p]
    by (auto simp: i8259a_port_a_read_def split: if_splits option.splits)
  then show ?thesis using assms(1) by (auto simp: pic_inv_def pic_isr_upd)
qed

lemma next_mode_not_max: "mode (next_mode p) \<noteq> max_mode"
  by (cases "mode p") (auto simp: next_mode_def Let_def)

lemma pic_inv_icw:
  assumes "pic_inv b p w" "irq_request p' = irq_request p" "irq_mask p' = irq_mask p"
    "irq_in_service p' = irq_in_service p" "mode p' \<noteq> max_mode"
  shows "pic_inv b p' w"
  using assms by (simp add: pic_inv_def pic_wf_def pic_flagged_def pic_pending_def)

lemma next_mode_frame [simp]:
  "irq_request (next_mode p) = irq_request p" "irq_mask (next_mode p) = irq_mask p"
  "irq_in_service (next_mode p) = irq_in_service p" "icw1 (next_mode p) = icw1 p"
  "icw2 (next_mode p) = icw2 p" "icw3 (next_mode p) = icw3 p" "icw4 (next_mode p) = icw4 p"
  by (simp_all add: next_mode_def Let_def)

lemma ucast_u8_less: "(ucast v :: word_t) < 256" for v :: u8
  using unsigned_less [of v, where ?'a = nat]
  by (simp add: word_less_nat_alt unsigned_ucast_eq take_bit_nat_eq_self)

lemma bit_ucast_u8: "bit (ucast v :: word_t) i \<longleftrightarrow> bit v i" for v :: u8
  by (auto simp: bit_simps dest: bit_u8_less)

lemma pic_inv_ocw1:
  assumes "pic_inv (ucast irq_base) p w" "irq_base = 0 \<or> irq_base = 8" "mode p = ocw_mode"
    and "i8259a_port_b_write v irq_base p w = Some (p', w')"
  shows "pic_inv (ucast irq_base) p' w'"
proof -
  define woken where "woken \<longleftrightarrow> bits (irq_request p) \<inter> bits (irq_mask p) - bits v \<noteq> {}"
  from port_b_write_ocw [OF assms(3,2), of v w] assms(4) have
    p': "p' = p\<lparr>irq_mask := ucast v\<rparr>" and
    f: "get_irq_vectors w' = (if woken then set_bit (unat irq_base div 8) else id) (get_irq_vectors w)"
    unfolding woken_def by auto
  have b: "unat (ucast irq_base :: word_t) = unat irq_base" "unat irq_base div 8 < 32"
    using assms(2) by auto
  have "pic_pending p' \<noteq> {} \<Longrightarrow> woken \<or> pic_pending p \<noteq> {}"
    by (auto simp: p' pic_pending_def' woken_def bit_ucast_u8)
  then have "pic_flagged (ucast irq_base) p' w'"
    using assms(1) b by (auto simp: pic_flagged_def pic_inv_def f intro: bit_set_bit_mono)
  moreover have "pic_wf p'"
    using assms(1) by (simp add: p' pic_inv_def pic_wf_def ucast_u8_less)
  ultimately show ?thesis by (simp add: pic_inv_def)
qed

lemma pic_inv_write_b:
  assumes "pic_inv (ucast irq_base) p w" "irq_base = 0 \<or> irq_base = 8"
    and "i8259a_port_b_write v irq_base p w = Some (p', w')"
  shows "pic_inv (ucast irq_base) p' w'"
proof (cases "mode p = ocw_mode")
  case True
  with assms show ?thesis by (blast intro: pic_inv_ocw1)
next
  case False
  then have "w' = w \<and> irq_request p' = irq_request p \<and> irq_mask p' = irq_mask p \<and>
      irq_in_service p' = irq_in_service p \<and> mode p' \<noteq> max_mode"
    using assms(3)
    by (auto simp: i8259a_port_b_write_def reset_mode_def next_mode_not_max split: mode_e.splits)
  with assms(1) show ?thesis by (blast intro: pic_inv_icw)
qed

lemma pic_step_inv:
  assumes "pic_step irq_base s t" "irq_base = 0 \<or> irq_base = 8"
    and "pic_inv (ucast irq_base) (fst s) (snd s)"
  shows "pic_inv (ucast irq_base) (fst t) (snd t)"
proof -
  have b: "pic_base (ucast irq_base)" using assms(2) by (auto simp: pic_base_def)
  from assms(1,3) show ?thesis
  proof cases
    case (pic_write_a v p w p' w')
    then show ?thesis
      using assms(3) port_a_write_inv [of p "ucast irq_base" w v] by (auto simp: pic_inv_def)
  qed (use assms b in \<open>auto intro: pic_inv_raise pic_inv_reraise pic_inv_claim pic_inv_read_a
        pic_inv_write_b\<close>)
qed

section \<open>The controller meets the polling contract\<close>

definition pic_irqs :: "word_t \<Rightarrow> i8259a_t \<times> 'w wedge_scheme \<Rightarrow> nat set" where
  "pic_irqs irq_base s = (+) (unat irq_base) ` pic_pending (fst s)"

definition pic_serve ::
    "word_t \<Rightarrow> i8259a_t \<times> 'w wedge_scheme \<Rightarrow> nat option \<times> i8259a_t \<times> 'w wedge_scheme" where
  "pic_serve irq_base s =
     (case i8259a_pending_vector irq_base (fst s) (snd s) of
        None \<Rightarrow> (None, s)
      | Some (None, s') \<Rightarrow> (None, s')
      | Some (Some (vector, irq), s') \<Rightarrow> (Some (unat irq), s'))"

lemma pic_irq_value:
  assumes "pic_base b" "n < 8"
  shows "unat (of_nat n + b) = unat b + n"
  using assms by (auto simp: pic_base_def unat_word_ariths unat_of_nat)

lemma pic_controller:
  assumes b: "pic_base b"
  shows "int_controller (\<lambda>s. pic_wf (fst s)) (pic_irqs b) (pic_serve b) int"
proof
  fix s :: "i8259a_t \<times> 'w wedge_scheme"
  assume wf: "pic_wf (fst s)" and ne: "pic_irqs b s \<noteq> {}"
  define n where "n = Min (pic_pending (fst s))"
  have n: "n \<in> pic_pending (fst s)"
    unfolding n_def using ne by (intro Min_in) (auto simp: pic_irqs_def)
  then have n8: "n < 8" using wf by (auto dest: pic_pending_less)
  have "pic_pending (fst s) \<noteq> {}" using n by auto
  from pending_vector_Some [OF this pic_base_less [OF b], where w = "snd s"]
  obtain w' where "pic_serve b s = (Some (unat b + n), pic_take n (fst s), w')"
    using pic_irq_value [OF b n8] by (simp add: pic_serve_def flip: n_def)
  then show "\<exists>n s'. pic_serve b s = (Some n, s') \<and> pic_wf (fst s') \<and> n \<in> pic_irqs b s \<and>
      (\<forall>m \<in> pic_irqs b s. int n \<le> int m) \<and> pic_irqs b s' = pic_irqs b s - {n}"
    using n n8 wf
    by (auto simp: pic_irqs_def pic_take_wf pic_take_pending n_def)
next
  fix s :: "i8259a_t \<times> 'w wedge_scheme"
  assume "pic_irqs b s = {}"
  then show "fst (pic_serve b s) = None"
    by (simp add: pic_irqs_def pic_serve_def pending_vector_None pic_base_less [OF b])
qed (auto simp: pic_irqs_def)

interpretation master_pic: int_controller "\<lambda>s. pic_wf (fst s)" "pic_irqs 0" "pic_serve 0" int
  by (rule pic_controller) (simp add: pic_base_def)

interpretation slave_pic: int_controller "\<lambda>s. pic_wf (fst s)" "pic_irqs 8" "pic_serve 8" int
  by (rule pic_controller) (simp add: pic_base_def)

lemma card_pic_pending: "pic_wf p \<Longrightarrow> card (pic_pending p) \<le> 8"
  using card_mono [of "{..<8}" "pic_pending p"] pic_pending_less [of p] by auto

lemma card_pic_irqs: "pic_wf (fst s) \<Longrightarrow> card (pic_irqs b s) \<le> 8"
  unfolding pic_irqs_def by (rule order_trans [OF card_image_le]) (auto simp: card_pic_pending)

section \<open>Programming sequence\<close>

fun port_b_writes ::
    "u8 \<Rightarrow> u8 list \<Rightarrow> i8259a_t \<times> 'w wedge_scheme \<Rightarrow> (i8259a_t \<times> 'w wedge_scheme) option" where
  "port_b_writes irq_base [] s = Some s"
| "port_b_writes irq_base (v # vs) s =
     i8259a_port_b_write v irq_base (fst s) (snd s) \<bind> port_b_writes irq_base vs"

text \<open>The bytes an ICW1 value announces: ICW2, then ICW3 in cascade mode, then ICW4 if asked for.\<close>

definition icw_sequence :: "u8 \<Rightarrow> u8 \<Rightarrow> u8 \<Rightarrow> u8 \<Rightarrow> u8 list" where
  "icw_sequence i1 i2 i3 i4 =
     i2 # (if icw1_master_only i1 then [] else [i3]) @ (if icw1_icw4_enabled i1 then [i4] else [])"

lemma icw1_set_raw_fields:
  "icw1_master_only (icw1_set_raw v) = icw1_master_only v"
  "icw1_icw4_enabled (icw1_set_raw v) = icw1_icw4_enabled v"
proof -
  have "getf 1 1 (icw1_set_raw v) = getf 1 1 v" "getf 0 1 (icw1_set_raw v) = getf 0 1 v"
    by (intro bit_word_eqI; auto simp: icw1_set_raw_def bitfield_simps bit_simps
        bit_numeral_word_iff dest!: less_2_cases)+
  then show "icw1_master_only (icw1_set_raw v) = icw1_master_only v"
    "icw1_icw4_enabled (icw1_set_raw v) = icw1_icw4_enabled v"
    by (simp_all add: icw1_master_only_def icw1_icw4_enabled_def)
qed

section \<open>Properties\<close>

text \<open>
  C3: Taking an interrupt from a well-formed 8259A. With no unmasked request the call returns
  false, changes no register and clears the controller's cluster bit. Otherwise it returns the
  lowest numbered unmasked request with the vector that ICW2 assigns to it, withdraws exactly
  that request, marks it in service unless the controller is in automatic EOI mode, and clears
  the cluster bit exactly if no unmasked request is left.
\<close>

theorem pic_pending_vector_correct:
  assumes "pic_wf p" "pic_base b"
  shows "if pic_pending p = {} then
           i8259a_pending_vector b p w = Some (None, p, flag_upd (unset_bit (unat b div 8)) w)
         else (let n = Min (pic_pending p) in
           \<exists>p' w'. i8259a_pending_vector b p w =
               Some (Some (of_nat n + ucast (icw2 p), of_nat n + b), p', w') \<and>
             bits (irq_request p') = bits (irq_request p) - {n} \<and>
             bits (irq_in_service p') =
               (if icw4_is_auto_eoi (icw4 p) then bits (irq_in_service p)
                else insert n (bits (irq_in_service p))) \<and>
             irq_mask p' = irq_mask p \<and> pic_pending p' = pic_pending p - {n} \<and>
             w' = (if pic_pending p' = {} then flag_upd (unset_bit (unat b div 8)) w else w))"
proof (cases "pic_pending p = {}")
  case True
  then show ?thesis by (simp add: pending_vector_None pic_base_less [OF assms(2)])
next
  case False
  define n where "n = Min (pic_pending p)"
  have n: "n \<in> pic_pending p" unfolding n_def using False by (intro Min_in) auto
  then have n8: "n < 8" using assms(1) by (auto dest: pic_pending_less)
  have "pic_pending p - {n} = {} \<longleftrightarrow> pic_pending p = {n}" using n by auto
  with n8 False show ?thesis
    by (simp add: pending_vector_Some [OF False] pic_base_less [OF assms(2)] pic_take_pending
        flip: n_def) (simp add: pic_take_def bitset_simps)
qed

theorem pic_pending_vector_correct_witness:
  "\<exists>p' w'. i8259a_pending_vector 0
     (i8259a_init\<lparr>irq_mask := 0, irq_request := 0x28, icw2 := 0x20\<rparr>) boot_wedge =
       Some (Some (0x23, 3), p', w') \<and> w' = boot_wedge"
proof -
  let ?p = "i8259a_init\<lparr>irq_mask := 0, irq_request := 0x28, icw2 := 0x20\<rparr>"
  have 28: "bits (0x28 :: word_t) = {3, 5}"
    unfolding bits_filter by code_simp
  have "pic_wf ?p" "pic_base 0" "pic_pending ?p = {3, 5}"
    by (simp_all add: pic_wf_def pic_base_def i8259a_init_def pic_pending_def' 28)
  with pic_pending_vector_correct [of ?p 0 boot_wedge] show ?thesis
    by (auto simp: Let_def i8259a_init_def)
qed

text \<open>
  C2: No operation of an 8259A loses an interrupt. In every state that raising, re-raising,
  claiming and arbitrary port reads and writes reach from power-on, the registers hold only
  the eight lines, the initialisation state machine is never in its corrupted state, and while
  an unmasked request waits, the controller's cluster bit is set in the CPU, so that the wedge
  will poll the controller.
\<close>

theorem pic_never_loses_interrupt:
  assumes "irq_base = 0 \<or> irq_base = 8" "(pic_step irq_base)\<^sup>*\<^sup>* (i8259a_init, w) (p, w')"
  shows "irq_request p < 256 \<and> irq_in_service p < 256 \<and> irq_mask p < 256 \<and> mode p \<noteq> max_mode \<and>
         (irq_request p AND NOT (irq_mask p) \<noteq> 0 \<longrightarrow>
            bit (get_irq_vectors w') (unat irq_base div 8))"
proof -
  have "pic_inv (ucast irq_base) (fst t) (snd t)" if "(pic_step irq_base)\<^sup>*\<^sup>* (i8259a_init, w) t" for t
    using that
    by (induction rule: rtranclp_induct) (auto simp: pic_inv_init intro: pic_step_inv [OF _ assms(1)])
  from this [OF assms(2)] have "pic_inv (ucast irq_base) p w'" by simp
  moreover have "unat (ucast irq_base :: word_t) = unat irq_base" using assms(1) by auto
  ultimately show ?thesis
    by (simp add: pic_inv_def pic_wf_def pic_flagged_def pic_pending_def bits_eq_empty)
qed

theorem pic_never_loses_interrupt_witness:
  "\<exists>p w. (pic_step 8)\<^sup>*\<^sup>* (i8259a_init, boot_wedge) (p, w) \<and> irq_request p AND NOT (irq_mask p) \<noteq> 0 \<and>
     bit (get_irq_vectors w) 1"
proof -
  define p1 where "p1 = i8259a_init\<lparr>irq_request := 2\<rparr>"
  define w1 where "w1 = hw_upd HW_MASK (set_bit 9) boot_wedge"
  have init: "irq_mask i8259a_init = 0xff" "irq_request i8259a_init = 0" by (simp_all add: i8259a_init_def)
  have s: "set_bit (Suc 0) (0 :: word_t) = 2" "bit (0xff :: word_t) (Suc 0)" by (code_simp, code_simp)
  have "i8259a_raise_irq 9 8 i8259a_init boot_wedge = Some (p1, w1)"
    using raise_irq_eq [of 8 9 i8259a_init boot_wedge] s
    by (simp add: pic_base_def init p1_def w1_def)
  then have 1: "pic_step 8 (i8259a_init, boot_wedge) (p1, w1)"
    by (intro pic_raise [of 9]) simp_all
  have m: "mode p1 = ocw_mode" by (simp add: p1_def i8259a_init_def)
  from port_b_write_ocw [OF m, of 8 0 w1] obtain w2 where
    "i8259a_port_b_write 0 8 p1 w1 = Some (p1\<lparr>irq_mask := 0\<rparr>, w2)" by auto
  then have 2: "pic_step 8 (p1, w1) (p1\<lparr>irq_mask := 0\<rparr>, w2)" by (rule pic_write_b)
  from 1 2 have r: "(pic_step 8)\<^sup>*\<^sup>* (i8259a_init, boot_wedge) (p1\<lparr>irq_mask := 0\<rparr>, w2)" by auto
  have "irq_request (p1\<lparr>irq_mask := 0\<rparr>) AND NOT (irq_mask (p1\<lparr>irq_mask := 0\<rparr>)) \<noteq> 0"
    by (simp add: p1_def)
  with pic_never_loses_interrupt [OF _ r] r show ?thesis
    by (intro exI [of _ "p1\<lparr>irq_mask := 0\<rparr>"] exI [of _ w2]) simp
qed

text \<open>
  C4: Polling a well-formed master controller until it is empty takes at most eight claims and
  delivers every unmasked request exactly once, in ascending order of the interrupt number, which
  is descending priority in the standard configuration.
\<close>

theorem pic_drain_in_priority_order:
  assumes "pic_wf p"
  shows "set (fst (master_pic.drain 8 (p, w))) = pic_pending p \<and>
         sorted_wrt (<) (fst (master_pic.drain 8 (p, w)))"
  using master_pic.drain_all [of "(p, w)" 8] assms card_pic_irqs [of "(p, w)" 0]
  by (simp add: pic_irqs_def)

theorem pic_drain_in_priority_order_witness:
  "set (fst (master_pic.drain 8 (i8259a_init\<lparr>irq_mask := 0, irq_request := 0x28\<rparr>, boot_wedge))) = {3, 5}"
proof -
  let ?p = "i8259a_init\<lparr>irq_mask := 0, irq_request := 0x28\<rparr>"
  have "bits (0x28 :: word_t) = {3, 5}" unfolding bits_filter by code_simp
  then have "pic_wf ?p" "pic_pending ?p = {3, 5}"
    by (simp_all add: pic_wf_def i8259a_init_def pic_pending_def')
  with pic_drain_in_priority_order [of ?p boot_wedge] show ?thesis by simp
qed

text \<open>
  C5: An OCW1 write. In operational mode a write of a new mask through the second port never
  panics; it stores the mask, flags the CPU exactly if a waiting request becomes unmasked,
  requests from the back-end exactly the device interrupts of this controller that the new
  mask enables and that are neither latched nor squashed, in ascending order, and latches them; it
  then unmasks in the device exactly those interrupts that change from masked to unmasked, were
  masked in the device and are not squashed.
\<close>

theorem pic_ocw1_write:
  assumes "mode p = ocw_mode" "irq_base = 0 \<or> irq_base = 8"
  shows "let en = pic_enabled irq_base v - bits (get_hwirq_latch w) - bits (get_hwirq_squash w);
             um = (pic_enabled irq_base v - {unat irq_base + i | i. i < 8 \<and> \<not> bit (irq_mask p) i})
                    \<inter> bits (get_hwirq_mask w) - bits (get_hwirq_squash w);
             woken = (bits (irq_request p) \<inter> bits (irq_mask p) - bits v \<noteq> {})
     in \<exists>w'. i8259a_port_b_write v irq_base p w = Some (p\<lparr>irq_mask := ucast v\<rparr>, w') \<and>
          get_irq_vectors w' =
            (if woken then set_bit (unat irq_base div 8) else id) (get_irq_vectors w) \<and>
          bits (get_hwirq_latch w') = bits (get_hwirq_latch w) \<union> en \<and>
          bits (get_hwirq_mask w') = bits (get_hwirq_mask w) - um \<and>
          get_hwirq_squash w' = get_hwirq_squash w \<and>
          events w' = events w
            @ map (\<lambda>i. EnableDeviceInterrupt (of_nat i) (cur_vcpu w)) (sorted_list_of_set en)
            @ map (\<lambda>i. UnmaskDeviceInterrupt (of_nat i)) (sorted_list_of_set um)"
  unfolding Let_def using assms by (rule port_b_write_ocw)

theorem pic_ocw1_write_witness:
  "\<exists>w'. i8259a_port_b_write 0xfe 8 i8259a_init boot_wedge = Some (i8259a_init\<lparr>irq_mask := 0xfe\<rparr>, w') \<and>
     events w' = [EnableDeviceInterrupt 8 0]"
proof -
  have "{i. i < 8 \<and> \<not> bit (0xfe :: u8) i} = set (filter (\<lambda>i. \<not> bit (0xfe :: u8) i) [0..<8])" by auto
  also have "\<dots> = {0}" by code_simp
  finally have "pic_enabled 8 0xfe = {8}" by (auto simp: pic_enabled_def set_eq_iff)
  then show ?thesis
    using pic_ocw1_write [of i8259a_init 8 "0xfe" boot_wedge]
    by (auto simp: i8259a_init_def boot_wedge_def get_hwirq_latch_def get_hwirq_squash_def
        get_hwirq_mask_def Let_def)
qed

text \<open>
  C6: The initialisation sequence. After any ICW1 byte on the first port, the bytes which that
  ICW1 announces (ICW2, ICW3 in cascade mode, ICW4 if requested), and no fewer, bring the
  controller back to operational mode: the vector base is ICW2 without its low three bits, all
  lines are masked, pending requests are kept, and neither the CPU nor the back-end is touched.
\<close>

theorem pic_initialisation_sequence:
  assumes "ocw_is_icw1 i1"
  shows "\<exists>p1 p'. i8259a_port_a_write i1 p w = Some (p1, w) \<and>
     port_b_writes irq_base (icw_sequence i1 i2 i3 i4) (p1, w) = Some (p', w) \<and>
     mode p' = ocw_mode \<and> icw2 p' = i2 AND 0xf8 \<and> irq_mask p' = 0xff \<and>
     irq_request p' = irq_request p \<and>
     (\<forall>k < length (icw_sequence i1 i2 i3 i4). \<forall>p''.
        port_b_writes irq_base (take k (icw_sequence i1 i2 i3 i4)) (p1, w) = Some (p'', w) \<longrightarrow>
        mode p'' \<noteq> ocw_mode)"
proof -
  from port_a_write_icw1 [OF assms, of p w] obtain p1 where
    p1: "i8259a_port_a_write i1 p w = Some (p1, w)" "mode p1 = icw2_mode" "irq_mask p1 = 0xff"
      "icw1 p1 = icw1_set_raw i1" "irq_request p1 = irq_request p" by blast
  show ?thesis
    by (rule exI [of _ p1], cases "icw1_master_only i1"; cases "icw1_icw4_enabled i1")
      (auto simp: p1 icw_sequence_def i8259a_port_b_write_def next_mode_def icw1_set_raw_fields
        icw2_set_raw_def less_Suc_eq numeral_eq_Suc)
qed

theorem pic_initialisation_sequence_witness:
  "\<exists>p1 p'. i8259a_port_a_write 0x11 i8259a_init boot_wedge = Some (p1, boot_wedge) \<and>
     port_b_writes 0 [0x27, 4, 1] (p1, boot_wedge) = Some (p', boot_wedge) \<and>
     mode p' = ocw_mode \<and> icw2 p' = 0x20"
proof -
  have a: "ocw_is_icw1 0x11" "icw_sequence 0x11 0x27 4 1 = [0x27, 4, 1]" "(0x27 :: u8) AND 0xf8 = 0x20"
    by (code_simp, code_simp, code_simp)
  show ?thesis
    using pic_initialisation_sequence [OF a(1), where ?i2.0 = "0x27" and ?i3.0 = 4 and ?i4.0 = 1 and
        p = i8259a_init and w = boot_wedge and irq_base = 0] a by auto
qed

text \<open>
  C7: An EOI on the slave's command port acts on the wrong device interrupt. The slave serves the
  device interrupts 8 to 15, but whatever byte is written to port 0xa0, the mask bits of the
  interrupts 8 to 31 stay as they are, and any interrupt that the write unmasks in a device has a
  number below 8, because the line number is used without adding the slave's base.
\<close>

theorem slave_eoi_never_unmasks_its_own_interrupts:
  assumes "pic_wf (slave w)" "device_8259_0xa0_out eax w = Some w'"
  shows "(\<forall>i \<ge> 8. bit (get_hwirq_mask w') i = bit (get_hwirq_mask w) i) \<and>
         (\<exists>es. events w' = events w @ es \<and> (\<forall>i. UnmaskDeviceInterrupt i \<in> set es \<longrightarrow> i < 8))"
proof -
  let ?p = "slave w" and ?v = "ucast eax :: u8"
  consider (eoi) "ocw_is_eoi ?v" "irq_in_service ?p \<noteq> 0" | (icw1) "ocw_is_icw1 ?v"
    | (idle) "\<not> ocw_is_icw1 ?v" "ocw_is_eoi ?v \<longrightarrow> irq_in_service ?p = 0" by blast
  then show ?thesis
  proof cases
    case eoi
    define n where "n = Min (bits (irq_in_service ?p))"
    have "n \<in> bits (irq_in_service ?p)"
      unfolding n_def using eoi by (intro Min_in) (auto simp: bits_eq_empty)
    then have n8: "n < 8" using assms(1) by (auto simp: pic_wf_def bits_less_256)
    show ?thesis
      using assms(2) n8 port_a_write_eoi(2) [OF eoi, where w = w]
      by (auto simp: device_8259_0xa0_out_def get_hwirq_mask_def bit_unset_bit_iff of_nat_less_8
          simp flip: n_def split: if_splits)
  next
    case icw1
    from port_a_write_icw1 [OF this, of ?p w] assms(2) show ?thesis
      by (auto simp: device_8259_0xa0_out_def get_hwirq_mask_def)
  next
    case idle
    from port_a_write_idle [OF idle, of w] assms(2) show ?thesis
      by (auto simp: device_8259_0xa0_out_def get_hwirq_mask_def)
  qed
qed

definition slave_eoi_example :: pic_wedge where
  "slave_eoi_example =
     wedge.extend (boot_wedge\<lparr>hwirq_words := (\<lambda>_. 0)(HW_MASK := 0x800)\<rparr>)
       (pic_wedge.fields i8259a_init (i8259a_init\<lparr>irq_in_service := 8\<rparr>))"

theorem slave_eoi_never_unmasks_its_own_interrupts_witness:
  "\<exists>w'. device_8259_0xa0_out 0x20 slave_eoi_example = Some w' \<and> irq_in_service (slave w') = 0 \<and>
     bit (get_hwirq_mask w') 11"
proof -
  have s: "slave slave_eoi_example = i8259a_init\<lparr>irq_in_service := 8\<rparr>"
    by (simp add: slave_eoi_example_def pic_wedge.defs wedge.defs)
  have m: "get_hwirq_mask slave_eoi_example = 0x800"
    by (simp add: slave_eoi_example_def pic_wedge.defs wedge.defs get_hwirq_mask_def)
  have wf: "pic_wf (slave slave_eoi_example)" by (simp add: s pic_wf_def i8259a_init_def)
  have e: "ocw_is_eoi 0x20" by code_simp
  have b: "bits (8 :: word_t) = {3}" "bit (0x800 :: word_t) 11" "unset_bit 3 (8 :: word_t) = 0"
    unfolding bits_filter by (code_simp, code_simp, code_simp)
  obtain w' where w': "device_8259_0xa0_out 0x20 slave_eoi_example = Some w'"
    "irq_in_service (slave w') = 0"
    using port_a_write_eoi(2) [OF e, of "slave slave_eoi_example" slave_eoi_example] b
    by (simp add: device_8259_0xa0_out_def s)
  with slave_eoi_never_unmasks_its_own_interrupts [OF wf w'(1)] m b show ?thesis by auto
qed

end
