(* ===== verification/Lapic.thy ===== *)
theory Lapic
  imports I8259a Paging
begin

text \<open>
  The local APIC: \<^verbatim>\<open>device/lapic.h\<close> and the part of \<^verbatim>\<open>device/lapic.cc\<close> that does not
  touch the IO-APIC (\<^verbatim>\<open>pending_vector\<close>, \<^verbatim>\<open>raise_vector\<close>). The object is a page of 1024
  words that the guest sees; \<open>local_apic_t\<close> is the function from word index to word, and a
  named register is the word at its byte offset divided by four. The state of the wedge gains the
  APIC objects: one local APIC for each VCPU, the virtual IO-APICs and the table from
  hardware interrupts to IO-APICs. A pointer to \<^verbatim>\<open>virtual_ioapic[i]\<close> is represented by
  \<open>i + 1\<close> and \<^verbatim>\<open>NULL\<close> by \<open>0\<close>. The locks of the class are empty functions.
\<close>

type_synonym local_apic_t = "nat \<Rightarrow> u32"

section \<open>Register numbers and enumerations\<close>

definition LAPIC_REG_VER :: word_t where "LAPIC_REG_VER = 0x030"
definition LAPIC_REG_TPR :: word_t where "LAPIC_REG_TPR = 0x080"
definition LAPIC_REG_EOI :: word_t where "LAPIC_REG_EOI = 0x0B0"
definition LAPIC_REG_LDR :: word_t where "LAPIC_REG_LDR = 0x0D0"
definition LAPIC_REG_DFR :: word_t where "LAPIC_REG_DFR = 0x0E0"
definition LAPIC_REG_SVR :: word_t where "LAPIC_REG_SVR = 0x0F0"
definition LAPIC_REG_ERR_STATUS :: word_t where "LAPIC_REG_ERR_STATUS = 0x280"
definition LAPIC_REG_INTR_CMDLO :: word_t where "LAPIC_REG_INTR_CMDLO = 0x300"
definition LAPIC_REG_INTR_CMDHI :: word_t where "LAPIC_REG_INTR_CMDHI = 0x310"
definition LAPIC_REG_LVT_TIMER :: word_t where "LAPIC_REG_LVT_TIMER = 0x320"
definition LAPIC_REG_LVT_PMC :: word_t where "LAPIC_REG_LVT_PMC = 0x340"
definition LAPIC_REG_LVT_LINT0 :: word_t where "LAPIC_REG_LVT_LINT0 = 0x350"
definition LAPIC_REG_LVT_LINT1 :: word_t where "LAPIC_REG_LVT_LINT1 = 0x360"
definition LAPIC_REG_LVT_ERROR :: word_t where "LAPIC_REG_LVT_ERROR = 0x370"
definition LAPIC_REG_TIMER_COUNT :: word_t where "LAPIC_REG_TIMER_COUNT = 0x380"
definition LAPIC_REG_TIMER_DIVIDE :: word_t where "LAPIC_REG_TIMER_DIVIDE = 0x3E0"

definition APIC_MAX_VECTORS :: word_t where "APIC_MAX_VECTORS = 256"
definition INTLOGIC_MAX_HWIRQS :: word_t where "INTLOGIC_MAX_HWIRQS = 256"
definition INTLOGIC_INVALID_VECTOR :: word_t where "INTLOGIC_INVALID_VECTOR = 256"
definition INTLOGIC_INVALID_IRQ :: word_t where "INTLOGIC_INVALID_IRQ = 256"

datatype rr_sel_t = lapic_rr_isr | lapic_rr_tmr | lapic_rr_irr

fun rr_base :: "rr_sel_t \<Rightarrow> word_t" where
  "rr_base lapic_rr_isr = 0x100"
| "rr_base lapic_rr_tmr = 0x180"
| "rr_base lapic_rr_irr = 0x200"

section \<open>The request, service and trigger registers\<close>

definition so_to_raw :: "rr_sel_t \<Rightarrow> word_t \<Rightarrow> word_t" where
  "so_to_raw rr_sel offset = drop_bit 2 (rr_base rr_sel + offset)"

definition sb_to_raw :: "rr_sel_t \<Rightarrow> word_t \<Rightarrow> word_t" where
  "sb_to_raw rr_sel b = drop_bit 2 (rr_base rr_sel + (drop_bit 1 b AND NOT 0xf))"

definition rr_word :: "rr_sel_t \<Rightarrow> word_t \<Rightarrow> local_apic_t \<Rightarrow> u32" where
  "rr_word rr_sel offset l = l (unat (so_to_raw rr_sel offset))"

definition msb_rr_cluster :: "rr_sel_t \<Rightarrow> word_t \<Rightarrow> local_apic_t \<Rightarrow> word_t" where
  "msb_rr_cluster rr_sel cluster l =
     (if cluster = 0 then 0
      else (let cluster_bit = push_bit 3 (msb cluster) AND NOT 0x1f;
                cluster_raw = l (unat (sb_to_raw rr_sel cluster_bit))
            in if cluster_raw \<noteq> 0 then cluster_bit + msb cluster_raw else 0))"

text \<open>
  The last alternative of \<^verbatim>\<open>msb_rr\<close> scans the word whose index is the selector itself. If that
  word is zero, \<^verbatim>\<open>bsr\<close> leaves its result undefined: \<open>None\<close>.
\<close>

definition msb_rr :: "rr_sel_t \<Rightarrow> local_apic_t \<Rightarrow> word_t option" where
  "msb_rr rr_sel l =
     (if rr_word rr_sel 0x70 l \<noteq> 0 then Some (msb (rr_word rr_sel 0x70 l) + 0xe0)
      else if rr_word rr_sel 0x60 l \<noteq> 0 then Some (msb (rr_word rr_sel 0x60 l) + 0xc0)
      else if rr_word rr_sel 0x50 l \<noteq> 0 then Some (msb (rr_word rr_sel 0x50 l) + 0xa0)
      else if rr_word rr_sel 0x40 l \<noteq> 0 then Some (msb (rr_word rr_sel 0x40 l) + 0x80)
      else if rr_word rr_sel 0x30 l \<noteq> 0 then Some (msb (rr_word rr_sel 0x30 l) + 0x60)
      else if rr_word rr_sel 0x20 l \<noteq> 0 then Some (msb (rr_word rr_sel 0x20 l) + 0x40)
      else if rr_word rr_sel 0x10 l \<noteq> 0 then Some (msb (rr_word rr_sel 0x10 l) + 0x20)
      else if rr_word rr_sel 0 l \<noteq> 0 then
        (let x = l (unat (rr_base rr_sel)) in if x \<noteq> 0 then Some (msb x) else None)
      else Some 0)"

definition bit_set_atomic_rr :: "word_t \<Rightarrow> rr_sel_t \<Rightarrow> local_apic_t \<Rightarrow> local_apic_t" where
  "bit_set_atomic_rr b rr_sel l =
     (let i = unat (sb_to_raw rr_sel b) in l(i := bit_set_atomic (b AND 0x1f) (l i)))"

definition bit_clear_atomic_rr :: "word_t \<Rightarrow> rr_sel_t \<Rightarrow> local_apic_t \<Rightarrow> local_apic_t" where
  "bit_clear_atomic_rr b rr_sel l =
     (let i = unat (sb_to_raw rr_sel b) in l(i := bit_clear_atomic (b AND 0x1f) (l i)))"

definition bit_test_and_set_atomic_rr ::
    "word_t \<Rightarrow> rr_sel_t \<Rightarrow> local_apic_t \<Rightarrow> bool \<times> local_apic_t" where
  "bit_test_and_set_atomic_rr b rr_sel l =
     (let i = unat (sb_to_raw rr_sel b);
          (old, x) = bit_test_and_set_atomic (b AND 0x1f) (l i)
      in (old \<noteq> 0, l(i := x)))"

definition bit_test_and_clear_atomic_rr ::
    "word_t \<Rightarrow> rr_sel_t \<Rightarrow> local_apic_t \<Rightarrow> bool \<times> local_apic_t" where
  "bit_test_and_clear_atomic_rr b rr_sel l =
     (let i = unat (sb_to_raw rr_sel b);
          (old, x) = bit_test_and_clear_atomic (b AND 0x1f) (l i)
      in (old \<noteq> 0, l(i := x)))"

section \<open>Fields\<close>

definition lapic_virt_magic :: "u32 \<times> u32" where
  "lapic_virt_magic = (0x50414c56, 0x30564349)"

definition lapic_is_valid :: "local_apic_t \<Rightarrow> bool" where
  "lapic_is_valid l = (l 0 = fst lapic_virt_magic \<and> l 1 = snd lapic_virt_magic)"

definition lapic_init :: "word_t \<Rightarrow> bool \<Rightarrow> local_apic_t" where
  "lapic_init ident bsp =
     (let l = (\<lambda>_. 0)(0 := fst lapic_virt_magic, 1 := snd lapic_virt_magic);
          l = l(0x08 div 4 := 0);
          l = l(0x30 div 4 := putf 16 8 5 (putf 0 8 0x10 (l (0x30 div 4))));
          l = l(0xE0 div 4 := 0xFFFFFFFF, 0xF0 div 4 := 0x1FF);
          l = l(0x350 div 4 := 0x00010000, 0x360 div 4 := 0x00010000, 0x370 div 4 := 0x00010000,
                0x340 div 4 := 0x00010000, 0x330 div 4 := 0x00010000, 0x320 div 4 := 0x00010000);
          l = l(0x20 div 4 := putf 24 8 ident (l (0x20 div 4)));
          l = (if bsp then
                 (let l = l(0x350 div 4 := putf 16 1 0 (putf 8 3 7 (l (0x350 div 4))));
                      l = l(0x360 div 4 := putf 15 1 1 (putf 16 1 0 (putf 8 3 4 (l (0x360 div 4)))));
                      l = l(0xF0 div 4 := putf 8 1 1 (l (0xF0 div 4)))
                  in l(0x08 div 4 := 1))
               else l)
      in (\<lambda>i. if 0x100 \<le> i \<and> i < 0x300 then (if even i then 0 else 256) else l i))"

definition lapic_is_enabled :: "local_apic_t \<Rightarrow> bool" where
  "lapic_is_enabled l = (l (0x08 div 4) \<noteq> 0)"

definition lapic_is_virtual_wire :: "local_apic_t \<Rightarrow> bool" where
  "lapic_is_virtual_wire l =
     (let lint0 = l (0x350 div 4) in getf 8 3 lint0 = 7 \<and> getf 16 1 lint0 = 0)"

definition lapic_get_id :: "local_apic_t \<Rightarrow> word_t" where
  "lapic_get_id l = getf 24 8 (l (0x20 div 4))"

definition lapic_set_id :: "word_t \<Rightarrow> local_apic_t \<Rightarrow> local_apic_t" where
  "lapic_set_id ident l = l(0x20 div 4 := putf 24 8 ident (l (0x20 div 4)))"

definition lapic_get_lid :: "local_apic_t \<Rightarrow> word_t option" where
  "lapic_get_lid l = do {
     ASSERT (getf 28 4 (l (0xE0 div 4)) = 0xF); Some (getf 24 8 (l (0xD0 div 4))) }"

definition lapic_lid_matches :: "u8 \<Rightarrow> local_apic_t \<Rightarrow> bool option" where
  "lapic_lid_matches ldest l = do {
     ASSERT (getf 28 4 (l (0xE0 div 4)) = 0xF);
     Some ((ucast (getf 24 8 (l (0xD0 div 4))) :: u8) AND ldest \<noteq> 0) }"

definition lapic_get_pin :: "word_t \<Rightarrow> local_apic_t \<Rightarrow> word_t option" where
  "lapic_get_pin vector l =
     do { ASSERT (vector < 256); Some (l (0x400 div 4 + 2 * unat vector + 1)) }"

definition lapic_set_pin :: "word_t \<Rightarrow> word_t \<Rightarrow> local_apic_t \<Rightarrow> local_apic_t option" where
  "lapic_set_pin vector pin l =
     do { ASSERT (vector < 256); Some (l(0x400 div 4 + 2 * unat vector + 1 := pin)) }"

definition lapic_get_ioapic :: "word_t \<Rightarrow> local_apic_t \<Rightarrow> word_t option" where
  "lapic_get_ioapic vector l =
     do { ASSERT (vector < 256); Some (l (0x400 div 4 + 2 * unat vector)) }"

definition lapic_set_ioapic :: "word_t \<Rightarrow> word_t \<Rightarrow> local_apic_t \<Rightarrow> local_apic_t option" where
  "lapic_set_ioapic vector ioapic l =
     do { ASSERT (vector < 256); Some (l(0x400 div 4 + 2 * unat vector := ioapic)) }"

definition lapic_addr_to_reg :: "word_t \<Rightarrow> word_t" where
  "lapic_addr_to_reg addr = addr AND 0xFFF"

definition lapic_get_reg :: "word_t \<Rightarrow> local_apic_t \<Rightarrow> word_t" where
  "lapic_get_reg reg l = l (unat (reg div 4))"

section \<open>The APIC objects of the wedge\<close>

text \<open>
  \<open>io_raw\<close> has the \<open>16 + 2 * 64\<close> words of \<^verbatim>\<open>io_regs\<close>; \<open>io_magic\<close> is the pair of
  words of \<^verbatim>\<open>virt_magic\<close>. The configuration has the build's \<^verbatim>\<open>CONFIG_NR_VCPUS\<close>,
  \<^verbatim>\<open>CONFIG_MAX_IOAPICS\<close> and \<^verbatim>\<open>CONFIG_VSMP\<close>, and the guest's import
  \<^verbatim>\<open>afterburn_cpu_get_startup_ip\<close>.
\<close>

record i82093_t =
  io_regsel :: u32
  io_regwin :: u32
  io_magic :: "u32 \<times> u32"
  io_irq_base :: u32
  io_raw :: "nat \<Rightarrow> u32"

record apic_config =
  cfg_nr_vcpus :: nat
  cfg_max_ioapics :: nat
  cfg_vsmp :: bool
  cfg_startup_ip :: "word_t \<Rightarrow> word_t"

record apic_wedge = pic_wedge +
  config :: apic_config
  nr_vcpus :: word_t
  lapics :: "nat \<Rightarrow> local_apic_t"
  ioapics :: "nat \<Rightarrow> i82093_t"
  hwirq_to_ioapic :: "nat \<Rightarrow> word_t"

definition upd_lapic ::
    "nat \<Rightarrow> (local_apic_t \<Rightarrow> local_apic_t) \<Rightarrow> 'w apic_wedge_scheme \<Rightarrow> 'w apic_wedge_scheme" where
  "upd_lapic i f w = w\<lparr>lapics := (lapics w)(i := f (lapics w i))\<rparr>"

definition updo_lapic ::
    "nat \<Rightarrow> (local_apic_t \<Rightarrow> local_apic_t option) \<Rightarrow> 'w apic_wedge_scheme \<Rightarrow>
     'w apic_wedge_scheme option" where
  "updo_lapic i f w = do { l \<leftarrow> f (lapics w i); Some (upd_lapic i (\<lambda>_. l) w) }"

definition get_lapic :: "'w apic_wedge_scheme \<Rightarrow> local_apic_t" where
  "get_lapic w = lapics w (cur_vcpu w)"

section \<open>Raising and taking a vector\<close>

text \<open>
  The first argument names the local APIC object: the VCPU it belongs to. \<^verbatim>\<open>pending_vector\<close>
  assigns its vector argument on both paths and the interrupt only when it returns true.
\<close>

definition lapic_pending_vector ::
    "nat \<Rightarrow> 'w apic_wedge_scheme \<Rightarrow> ((word_t \<times> word_t option) \<times> 'w apic_wedge_scheme) option" where
  "lapic_pending_vector this w = do {
     ASSERT (of_nat (cur_vcpu w) = lapic_get_id (lapics w this));
     vector \<leftarrow> msb_rr lapic_rr_irr (lapics w this);
     vector_in_service \<leftarrow> msb_rr lapic_rr_isr (lapics w this);
     if drop_bit 4 vector > drop_bit 4 vector_in_service \<and> vector > 15 then do {
       let w = upd_lapic this (bit_clear_atomic_rr vector lapic_rr_irr) w;
       let w = upd_lapic this (bit_set_atomic_rr vector lapic_rr_isr) w;
       irq \<leftarrow> lapic_get_pin vector (lapics w this);
       _ \<leftarrow> lapic_get_ioapic vector (lapics w this);
       Some ((vector, Some irq), w)
     } else Some ((vector, None), w)
   }"

definition lapic_raise_vector ::
    "nat \<Rightarrow> word_t \<Rightarrow> word_t \<Rightarrow> bool \<Rightarrow> bool \<Rightarrow> word_t \<Rightarrow> 'w apic_wedge_scheme \<Rightarrow>
     'w apic_wedge_scheme option" where
  "lapic_raise_vector this vector irq reraise from_eoi from w = do {
     ASSERT (vector \<le> APIC_MAX_VECTORS);
     if vector > 15 then do {
       w \<leftarrow> (if reraise then Some (upd_lapic this (bit_clear_atomic_rr vector lapic_rr_isr) w)
             else updo_lapic this (lapic_set_pin vector irq) w);
       let w = upd_lapic this (bit_set_atomic_rr vector lapic_rr_irr) w;
       w \<leftarrow> set_irq_vector (vector + 16) w;
       w \<leftarrow> (if from_eoi then do {
               w \<leftarrow> updo_lapic this (lapic_set_ioapic vector from) w;
               Some (upd_lapic this (bit_set_atomic_rr vector lapic_rr_tmr) w)
             } else Some w);
       _ \<leftarrow> lapic_get_pin vector (lapics w this);
       Some w
     } else Some w
   }"

definition lapic_raise_timer_irq :: "nat \<Rightarrow> 'w apic_wedge_scheme \<Rightarrow> 'w apic_wedge_scheme option" where
  "lapic_raise_timer_irq this w =
     (let timer = lapics w this (0x320 div 4) in
      if getf 16 1 timer = 0 then lapic_raise_vector this (getf 0 8 timer) 0 False False 0 w
      else Some w)"

section \<open>Banks of vectors\<close>

text \<open>
  What the interrupt paths need from a bank of 256 flags, as an interface: membership after
  setting and clearing a flag. The three register banks of the local APIC provide it.
\<close>

locale vector_bank =
  fixes member :: "'s \<Rightarrow> nat \<Rightarrow> bool"
    and add :: "nat \<Rightarrow> 's \<Rightarrow> 's"
    and remove :: "nat \<Rightarrow> 's \<Rightarrow> 's"
    and cap :: nat
  assumes member_add: "i < cap \<Longrightarrow> j < cap \<Longrightarrow> member (add i s) j \<longleftrightarrow> j = i \<or> member s j"
    and member_remove: "i < cap \<Longrightarrow> j < cap \<Longrightarrow> member (remove i s) j \<longleftrightarrow> j \<noteq> i \<and> member s j"
begin

definition members :: "'s \<Rightarrow> nat set" where
  "members s = {i. i < cap \<and> member s i}"

lemma finite_members [simp]: "finite (members s)"
  by (rule finite_subset [of _ "{..<cap}"]) (auto simp: members_def)

lemma members_add: "i < cap \<Longrightarrow> members (add i s) = insert i (members s)"
  by (auto simp: members_def member_add)

lemma members_remove: "i < cap \<Longrightarrow> members (remove i s) = members s - {i}"
  by (auto simp: members_def member_remove)

lemma members_move:
  assumes "i < cap" "i \<in> members s"
  shows "members (add i (remove i s)) = members s"
  using assms by (auto simp: members_add members_remove)

end

fun rr_index :: "rr_sel_t \<Rightarrow> nat" where
  "rr_index lapic_rr_isr = 0x40"
| "rr_index lapic_rr_tmr = 0x60"
| "rr_index lapic_rr_irr = 0x80"

definition rr_member :: "rr_sel_t \<Rightarrow> local_apic_t \<Rightarrow> nat \<Rightarrow> bool" where
  "rr_member rr l v \<longleftrightarrow> bit (l (rr_index rr + 4 * (v div 32))) (v mod 32)"

lemma sb_to_raw_index:
  assumes "v < 256"
  shows "unat (sb_to_raw rr v) = rr_index rr + 4 * (unat v div 32)"
proof -
  have v: "unat v < 256" using assms by (simp add: word_less_nat_alt)
  have m: "NOT (0xf :: word_t) = NOT (mask 4)" by (simp add: mask_eq_exp_minus_1)
  have "drop_bit 1 v AND NOT 0xf = push_bit 4 (drop_bit 5 v)"
    unfolding m by (intro bit_word_eqI) (auto simp: bit_simps)
  then have "unat (drop_bit 1 v AND NOT 0xf) = 16 * (unat v div 32)"
    using v by (simp add: unsigned_push_bit_eq unat_drop_bit_eq push_bit_nat_def drop_bit_nat_def
        take_bit_nat_eq_self)
  moreover have "unat (rr_base rr) = 4 * rr_index rr" "unat (rr_base rr) \<le> 0x200"
    by (cases rr; simp)+
  ultimately have "unat (rr_base rr + (drop_bit 1 v AND NOT 0xf)) = 4 * (rr_index rr + 4 * (unat v div 32))"
    using v by (subst unat_add_lem [THEN iffD1]) auto
  then show ?thesis by (simp add: sb_to_raw_def unat_drop_bit_eq drop_bit_nat_def)
qed

lemma and_1f: "unat (v AND 0x1f :: word_t) = unat v mod 32" "(v AND 0x1f :: word_t) < 32"
proof -
  have m: "(0x1f :: word_t) = mask 5" by (simp add: mask_eq_exp_minus_1)
  show 1: "unat (v AND 0x1f :: word_t) = unat v mod 32"
    unfolding m by (simp add: take_bit_eq_mask [symmetric] unsigned_take_bit_eq take_bit_nat_def)
  show "(v AND 0x1f :: word_t) < 32"
    unfolding word_less_nat_alt 1 by simp
qed

lemma rr_ops_eq:
  fixes rr :: rr_sel_t and v :: word_t
  assumes "v < 256"
  defines "i \<equiv> rr_index rr + 4 * (unat v div 32)" and "k \<equiv> unat v mod 32"
  shows "bit_set_atomic_rr v rr l = l(i := set_bit k (l i))"
    and "bit_clear_atomic_rr v rr l = l(i := unset_bit k (l i))"
    and "bit_test_and_clear_atomic_rr v rr l = (bit (l i) k, l(i := unset_bit k (l i)))"
    and "bit_test_and_set_atomic_rr v rr l = (bit (l i) k, l(i := set_bit k (l i)))"
  using and_1f [of v]
  by (simp_all add: bit_set_atomic_rr_def bit_clear_atomic_rr_def bit_test_and_clear_atomic_rr_def
      bit_test_and_set_atomic_rr_def sb_to_raw_index [OF assms(1)] bit_set_atomic_def
      bit_clear_atomic_def bit_test_and_clear_atomic_def bit_test_and_set_atomic_def bt_small
      i_def k_def Let_def)

lemma vector_position_inj:
  "i div 32 = j div 32 \<Longrightarrow> i mod 32 = j mod 32 \<Longrightarrow> i = j" for i j :: nat
  by (metis div_mult_mod_eq)

lemma of_nat_256: "v < 256 \<Longrightarrow> (of_nat v :: word_t) < 256 \<and> unat (of_nat v :: word_t) = v"
  by (simp add: word_less_nat_alt unat_of_nat)

lemma rr_bank:
  "vector_bank (rr_member rr) (\<lambda>v. bit_set_atomic_rr (of_nat v) rr)
     (\<lambda>v. bit_clear_atomic_rr (of_nat v) rr) 256"
  by unfold_locales
    (auto simp: rr_ops_eq of_nat_256 rr_member_def bit_set_bit_iff bit_unset_bit_iff
      dest: vector_position_inj)

interpretation isr: vector_bank "rr_member lapic_rr_isr"
    "\<lambda>v. bit_set_atomic_rr (of_nat v) lapic_rr_isr"
    "\<lambda>v. bit_clear_atomic_rr (of_nat v) lapic_rr_isr" 256
  by (rule rr_bank)

interpretation irr: vector_bank "rr_member lapic_rr_irr"
    "\<lambda>v. bit_set_atomic_rr (of_nat v) lapic_rr_irr"
    "\<lambda>v. bit_clear_atomic_rr (of_nat v) lapic_rr_irr" 256
  by (rule rr_bank)

interpretation tmr: vector_bank "rr_member lapic_rr_tmr"
    "\<lambda>v. bit_set_atomic_rr (of_nat v) lapic_rr_tmr"
    "\<lambda>v. bit_clear_atomic_rr (of_nat v) lapic_rr_tmr" 256
  by (rule rr_bank)

definition rr_set :: "rr_sel_t \<Rightarrow> local_apic_t \<Rightarrow> nat set" where
  "rr_set rr l = {v. v < 256 \<and> rr_member rr l v}"

lemma rr_set_members:
  "rr_set lapic_rr_isr = isr.members" "rr_set lapic_rr_irr = irr.members"
  "rr_set lapic_rr_tmr = tmr.members"
  by (auto simp: rr_set_def isr.members_def irr.members_def tmr.members_def)

lemma finite_rr_set [simp]: "finite (rr_set rr l)"
  by (rule finite_subset [of _ "{..<256}"]) (auto simp: rr_set_def)

lemma rr_set_update:
  assumes "v < 256"
  shows "rr_set rr (bit_set_atomic_rr v rr l) = insert (unat v) (rr_set rr l)"
    and "rr_set rr (bit_clear_atomic_rr v rr l) = rr_set rr l - {unat v}"
proof -
  have u: "of_nat (unat v) = v" "unat v < 256" using assms by (simp_all add: word_less_nat_alt)
  from vector_bank.members_add [OF rr_bank u(2), of rr l] u(1)
  show "rr_set rr (bit_set_atomic_rr v rr l) = insert (unat v) (rr_set rr l)"
    by (simp add: rr_set_def vector_bank.members_def [OF rr_bank])
  from vector_bank.members_remove [OF rr_bank u(2), of rr l] u(1)
  show "rr_set rr (bit_clear_atomic_rr v rr l) = rr_set rr l - {unat v}"
    by (simp add: rr_set_def vector_bank.members_def [OF rr_bank])
qed

lemma rr_set_frame:
  assumes "i < rr_index rr \<or> rr_index rr + 32 \<le> i"
  shows "rr_set rr (l(i := x)) = rr_set rr l"
  using assms by (auto simp: rr_set_def rr_member_def)

lemma rr_set_other:
  assumes "v < 256" "rr' \<noteq> rr"
  shows "rr_set rr' (bit_set_atomic_rr v rr l) = rr_set rr' l"
    and "rr_set rr' (bit_clear_atomic_rr v rr l) = rr_set rr' l"
proof -
  have "unat v div 32 < 8" using assms(1) by (simp add: word_less_nat_alt)
  then have "rr_index rr + 4 * (unat v div 32) < rr_index rr' \<or>
      rr_index rr' + 32 \<le> rr_index rr + 4 * (unat v div 32)"
    using assms(2) by (cases rr; cases rr') auto
  then show "rr_set rr' (bit_set_atomic_rr v rr l) = rr_set rr' l"
    and "rr_set rr' (bit_clear_atomic_rr v rr l) = rr_set rr' l"
    by (simp_all add: rr_ops_eq [OF assms(1)] rr_set_frame)
qed

section \<open>The highest vector of a bank\<close>

lemma rr_word_index: "k < 8 \<Longrightarrow> rr_word rr (of_nat (16 * k)) l = l (rr_index rr + 4 * k)"
proof -
  assume "k < 8"
  have u: "unat (of_nat (16 * k) :: word_t) = 16 * k"
    using \<open>k < 8\<close> by (simp add: unat_of_nat del: of_nat_mult)
  have "unat (rr_base rr) = 4 * rr_index rr" "unat (rr_base rr) \<le> 0x200" by (cases rr; simp)+
  then have "unat (rr_base rr + of_nat (16 * k)) = 4 * (rr_index rr + 4 * k)"
    using \<open>k < 8\<close> u by (subst unat_add_lem [THEN iffD1]) auto
  then show ?thesis by (simp add: rr_word_def so_to_raw_def unat_drop_bit_eq drop_bit_nat_def)
qed

lemma rr_words:
  "rr_word rr 0 l = l (rr_index rr)" "rr_word rr 0x10 l = l (rr_index rr + 4)"
  "rr_word rr 0x20 l = l (rr_index rr + 8)" "rr_word rr 0x30 l = l (rr_index rr + 12)"
  "rr_word rr 0x40 l = l (rr_index rr + 16)" "rr_word rr 0x50 l = l (rr_index rr + 20)"
  "rr_word rr 0x60 l = l (rr_index rr + 24)" "rr_word rr 0x70 l = l (rr_index rr + 28)"
  using rr_word_index [of 0 rr l] rr_word_index [of 1 rr l] rr_word_index [of 2 rr l]
    rr_word_index [of 3 rr l] rr_word_index [of 4 rr l] rr_word_index [of 5 rr l]
    rr_word_index [of 6 rr l] rr_word_index [of 7 rr l]
  by simp_all

lemma Max_rr_set:
  assumes "k < 8" "l (rr_index rr + 4 * k) \<noteq> 0" "\<And>j. k < j \<Longrightarrow> j < 8 \<Longrightarrow> l (rr_index rr + 4 * j) = 0"
  shows "rr_set rr l \<noteq> {} \<and> unat (msb (l (rr_index rr + 4 * k)) + of_nat (32 * k)) = Max (rr_set rr l)"
proof -
  let ?x = "l (rr_index rr + 4 * k)" and ?m = "unat (msb (l (rr_index rr + 4 * k)))"
  have m: "bit ?x ?m" "?m < 32" using assms(2) by (simp_all add: msb_bit msb_less)
  have mem: "?m + 32 * k \<in> rr_set rr l"
    using m assms(1) by (simp add: rr_set_def rr_member_def)
  have "v \<le> ?m + 32 * k" if "v \<in> rr_set rr l" for v
  proof (rule ccontr)
    assume gt: "\<not> v \<le> ?m + 32 * k"
    have v: "v < 256" "bit (l (rr_index rr + 4 * (v div 32))) (v mod 32)"
      using that by (auto simp: rr_set_def rr_member_def)
    show False
    proof (cases "v div 32 = k")
      case True
      then have "v mod 32 \<in> bits ?x" using v by simp
      then have "v mod 32 \<le> ?m" using assms(2) by (simp add: unat_msb)
      with gt True show False by (metis add.commute add_le_cancel_right mult.commute mod_mult_div_eq)
    next
      case False
      have "k < v div 32" using gt False m(2) by linarith
      then have "l (rr_index rr + 4 * (v div 32)) = 0" using assms(3) v(1) by simp
      with v(2) show False by simp
    qed
  qed
  then have "Max (rr_set rr l) = ?m + 32 * k" using mem by (intro Max_eqI) auto
  moreover have "unat (msb ?x + of_nat (32 * k)) = ?m + 32 * k"
    using m(2) assms(1) by (simp add: unat_word_ariths unat_of_nat)
  ultimately show ?thesis using mem by auto
qed

lemma msb_rr_correct:
  assumes "\<And>v. v < 32 \<Longrightarrow> v \<notin> rr_set rr l"
  shows "msb_rr rr l = Some (if rr_set rr l = {} then 0 else of_nat (Max (rr_set rr l)))"
proof -
  have low: "l (rr_index rr) = 0"
  proof (rule bit_word_eqI)
    fix n assume "n < LENGTH(32)"
    with assms [of n] show "bit (l (rr_index rr)) n = bit 0 n"
      by (simp add: rr_set_def rr_member_def)
  qed
  have *: "msb (l (rr_index rr + 4 * k)) + of_nat (32 * k) =
      (if rr_set rr l = {} then 0 else of_nat (Max (rr_set rr l)))"
    if "k < 8" "l (rr_index rr + 4 * k) \<noteq> 0" "\<And>j. k < j \<Longrightarrow> j < 8 \<Longrightarrow> l (rr_index rr + 4 * j) = 0" for k
    using Max_rr_set [of k l rr, OF that] by (auto intro: unat_eq_of_nat)
  show ?thesis
  proof (cases "\<exists>j<8. l (rr_index rr + 4 * j) \<noteq> 0")
    case False
    then have z: "l (rr_index rr + 4 * j) = 0" if "j < 8" for j using that by blast
    then have "rr_set rr l = {}" by (auto simp: rr_set_def rr_member_def)
    then show ?thesis
      unfolding msb_rr_def rr_words
      using z [of 1] z [of 2] z [of 3] z [of 4] z [of 5] z [of 6] z [of 7] low by simp
  next
    case True
    define k where "k = Max {j. j < 8 \<and> l (rr_index rr + 4 * j) \<noteq> 0}"
    have "k \<in> {j. j < 8 \<and> l (rr_index rr + 4 * j) \<noteq> 0}"
      unfolding k_def using True by (intro Max_in) auto
    then have k: "k < 8" "l (rr_index rr + 4 * k) \<noteq> 0" by auto
    have z: "l (rr_index rr + 4 * j) = 0" if "k < j" "j < 8" for j
    proof (rule ccontr)
      assume "l (rr_index rr + 4 * j) \<noteq> 0"
      then have "j \<le> k" unfolding k_def using \<open>j < 8\<close> by (intro Max_ge) auto
      with \<open>k < j\<close> show False by simp
    qed
    note m = * [OF k z]
    have "k \<noteq> 0"
    proof
      assume "k = 0"
      with k low show False by simp
    qed
    with k(1) have "k = 1 \<or> k = 2 \<or> k = 3 \<or> k = 4 \<or> k = 5 \<or> k = 6 \<or> k = 7" by linarith
    then show ?thesis
      using k(2) m z [of 2] z [of 3] z [of 4] z [of 5] z [of 6] z [of 7]
      by (elim disjE) (simp_all add: msb_rr_def rr_words)
  qed
qed

section \<open>Frame laws\<close>

lemma upd_lapic_frame [simp]:
  "lapics (upd_lapic i f w) = (lapics w)(i := f (lapics w i))"
  "cur_vcpu (upd_lapic i f w) = cur_vcpu w" "vcpus (upd_lapic i f w) = vcpus w"
  "get_cpu (upd_lapic i f w) = get_cpu w" "events (upd_lapic i f w) = events w"
  "hwirq_words (upd_lapic i f w) = hwirq_words w" "ioapics (upd_lapic i f w) = ioapics w"
  "config (upd_lapic i f w) = config w" "nr_vcpus (upd_lapic i f w) = nr_vcpus w"
  "master (upd_lapic i f w) = master w" "slave (upd_lapic i f w) = slave w"
  "mem (upd_lapic i f w) = mem w" "get_irq_vectors (upd_lapic i f w) = get_irq_vectors w"
  by (simp_all add: upd_lapic_def get_cpu_def get_irq_vectors_def)

lemma apic_upd_cpu [simp]:
  "lapics (upd_cpu f w) = lapics w" "ioapics (upd_cpu f w) = ioapics w"
  "config (upd_cpu f w) = config w" "nr_vcpus (upd_cpu f w) = nr_vcpus w"
  "hwirq_to_ioapic (upd_cpu f w) = hwirq_to_ioapic w"
  "master (upd_cpu f w) = master w" "slave (upd_cpu f w) = slave w"
  by (simp_all add: upd_cpu_def)

lemma apic_flag_upd [simp]:
  "lapics (flag_upd f w) = lapics w" "ioapics (flag_upd f w) = ioapics w"
  "config (flag_upd f w) = config w" "nr_vcpus (flag_upd f w) = nr_vcpus w"
  "master (flag_upd f w) = master w" "slave (flag_upd f w) = slave w"
  "hwirq_to_ioapic (flag_upd f w) = hwirq_to_ioapic w"
  by (simp_all add: flag_upd_def)

lemma set_irq_vector_frame:
  assumes "set_irq_vector v w = Some w'"
  shows "lapics w' = lapics w" "ioapics w' = ioapics w" "config w' = config w"
    "nr_vcpus w' = nr_vcpus w" "cur_vcpu w' = cur_vcpu w" "hwirq_words w' = hwirq_words w"
    "events w' = events w" "master w' = master w" "slave w' = slave w"
    "hwirq_to_ioapic w' = hwirq_to_ioapic w" "i \<noteq> cur_vcpu w \<Longrightarrow> vcpus w' i = vcpus w i"
  using assms by (auto simp: set_irq_vector_def upd_cpu_def bind_eq_Some_conv)

lemma lapic_fields_frame:
  assumes "v < 256"
  shows "lapic_get_id (bit_set_atomic_rr v rr l) = lapic_get_id l"
    and "lapic_get_id (bit_clear_atomic_rr v rr l) = lapic_get_id l"
proof -
  have "rr_index rr + 4 * (unat v div 32) \<noteq> 8" by (cases rr) auto
  then show "lapic_get_id (bit_set_atomic_rr v rr l) = lapic_get_id l"
    and "lapic_get_id (bit_clear_atomic_rr v rr l) = lapic_get_id l"
    by (simp_all add: rr_ops_eq [OF assms] lapic_get_id_def)
qed

section \<open>Taking the highest vector\<close>

text \<open>
  No vector below 32 is requested or in service: the architecture reserves these vectors for
  exceptions.
\<close>

definition lapic_wf :: "local_apic_t \<Rightarrow> bool" where
  "lapic_wf l \<longleftrightarrow> (\<forall>v \<in> rr_set lapic_rr_irr l \<union> rr_set lapic_rr_isr l. 32 \<le> v)"

definition lapic_deliverable :: "local_apic_t \<Rightarrow> bool" where
  "lapic_deliverable l \<longleftrightarrow> rr_set lapic_rr_irr l \<noteq> {} \<and>
     (\<forall>s \<in> rr_set lapic_rr_isr l. s div 16 < Max (rr_set lapic_rr_irr l) div 16)"

definition lapic_claim :: "word_t \<Rightarrow> local_apic_t \<Rightarrow> local_apic_t" where
  "lapic_claim v l = bit_set_atomic_rr v lapic_rr_isr (bit_clear_atomic_rr v lapic_rr_irr l)"

lemma rr_set_less: "v \<in> rr_set rr l \<Longrightarrow> v < 256"
  by (simp add: rr_set_def)

lemma Max_rr_in: "rr_set rr l \<noteq> {} \<Longrightarrow> Max (rr_set rr l) \<in> rr_set rr l"
  by (rule Max_in) auto

lemma lapic_msb:
  assumes "lapic_wf l" "rr \<in> {lapic_rr_irr, lapic_rr_isr}"
  shows "msb_rr rr l = Some (if rr_set rr l = {} then 0 else of_nat (Max (rr_set rr l)))"
proof (rule msb_rr_correct)
  fix v :: nat
  assume "v < 32"
  with assms show "v \<notin> rr_set rr l" by (auto simp: lapic_wf_def not_le [symmetric])
qed

lemma drop_bit_4_less:
  "m < 256 \<Longrightarrow> n < 256 \<Longrightarrow>
   drop_bit 4 (of_nat m :: word_t) < drop_bit 4 (of_nat n) \<longleftrightarrow> m div 16 < n div 16"
  by (simp add: word_less_nat_alt unat_drop_bit_eq drop_bit_nat_def unat_of_nat)

lemma Max_class:
  fixes c :: nat
  assumes "finite S" "S \<noteq> {}"
  shows "Max S div 16 < c \<longleftrightarrow> (\<forall>s \<in> S. s div 16 < c)"
  using assms by (meson Max_ge Max_in div_le_mono le_less_trans)

lemma lapic_pending_yes:
  assumes "lapic_wf (lapics w this)" "lapic_deliverable (lapics w this)"
    and "lapic_get_id (lapics w this) = of_nat (cur_vcpu w)"
  defines "v \<equiv> Max (rr_set lapic_rr_irr (lapics w this))"
  shows "lapic_pending_vector this w =
      Some ((of_nat v, Some (lapic_claim (of_nat v) (lapics w this) (0x101 + 2 * v))),
            upd_lapic this (lapic_claim (of_nat v)) w)"
proof -
  let ?l = "lapics w this"
  have I: "rr_set lapic_rr_irr ?l \<noteq> {}" using assms(2) by (simp add: lapic_deliverable_def)
  have v: "v \<in> rr_set lapic_rr_irr ?l" unfolding v_def by (rule Max_rr_in [OF I])
  have v256: "v < 256" "32 \<le> v" using v rr_set_less assms(1) by (auto simp: lapic_wf_def)
  note vw = of_nat_256 [OF v256(1)]
  let ?s = "if rr_set lapic_rr_isr ?l = {} then 0 else of_nat (Max (rr_set lapic_rr_isr ?l)) :: word_t"
  have m: "msb_rr lapic_rr_irr ?l = Some (of_nat v)" "msb_rr lapic_rr_isr ?l = Some ?s"
    using lapic_msb [OF assms(1)] I by (simp_all add: v_def)
  have "drop_bit 4 ?s < drop_bit 4 (of_nat v)"
  proof (cases "rr_set lapic_rr_isr ?l = {}")
    case True
    then show ?thesis using drop_bit_4_less [of 0 v] v256 by simp
  next
    case False
    then have "Max (rr_set lapic_rr_isr ?l) div 16 < v div 16"
      using assms(2) by (simp add: Max_class lapic_deliverable_def v_def)
    then show ?thesis using drop_bit_4_less [of _ v] v256 rr_set_less [OF Max_rr_in [OF False]] False
      by simp
  qed
  moreover have "(15 :: word_t) < of_nat v" using vw v256 by (simp add: word_less_nat_alt)
  ultimately show ?thesis
    using m vw assms(3)
    by (simp add: lapic_pending_vector_def lapic_get_pin_def lapic_get_ioapic_def lapic_claim_def
        upd_lapic_def)
qed

lemma lapic_pending_no:
  assumes "lapic_wf (lapics w this)" "\<not> lapic_deliverable (lapics w this)"
    and "lapic_get_id (lapics w this) = of_nat (cur_vcpu w)"
  shows "\<exists>v. lapic_pending_vector this w = Some ((v, None), w)"
proof -
  let ?l = "lapics w this"
  define i s :: word_t where
    "i = (if rr_set lapic_rr_irr ?l = {} then 0 else of_nat (Max (rr_set lapic_rr_irr ?l)))" and
    "s = (if rr_set lapic_rr_isr ?l = {} then 0 else of_nat (Max (rr_set lapic_rr_isr ?l)))"
  have m: "msb_rr lapic_rr_irr ?l = Some i" "msb_rr lapic_rr_isr ?l = Some s"
    using lapic_msb [OF assms(1)] by (simp_all add: i_def s_def)
  have "\<not> (drop_bit 4 s < drop_bit 4 i \<and> 15 < i)"
  proof (cases "rr_set lapic_rr_irr ?l = {}")
    case True
    then show ?thesis by (simp add: i_def)
  next
    case False
    with assms(2) have S: "rr_set lapic_rr_isr ?l \<noteq> {}"
      by (auto simp: lapic_deliverable_def)
    with assms(2) False have
      "\<not> Max (rr_set lapic_rr_isr ?l) div 16 < Max (rr_set lapic_rr_irr ?l) div 16"
      by (simp add: lapic_deliverable_def Max_class)
    then show ?thesis
      using drop_bit_4_less rr_set_less [OF Max_rr_in [OF False]] rr_set_less [OF Max_rr_in [OF S]]
        False S by (simp add: i_def s_def)
  qed
  then show ?thesis using m assms(3) by (auto simp: lapic_pending_vector_def)
qed

lemma lapic_claim_sets:
  assumes "v < 256"
  shows "rr_set lapic_rr_irr (lapic_claim v l) = rr_set lapic_rr_irr l - {unat v}"
    and "rr_set lapic_rr_isr (lapic_claim v l) = insert (unat v) (rr_set lapic_rr_isr l)"
    and "rr_set lapic_rr_tmr (lapic_claim v l) = rr_set lapic_rr_tmr l"
    and "lapic_get_id (lapic_claim v l) = lapic_get_id l"
  using assms by (simp_all add: lapic_claim_def rr_set_update rr_set_other lapic_fields_frame)

section \<open>Raising a vector\<close>

text \<open>The registers of the addressed local APIC after a raise.\<close>

definition lapic_raised ::
    "word_t \<Rightarrow> word_t \<Rightarrow> bool \<Rightarrow> bool \<Rightarrow> word_t \<Rightarrow> local_apic_t \<Rightarrow> local_apic_t" where
  "lapic_raised v irq reraise from_eoi from l =
     (let l = (if reraise then bit_clear_atomic_rr v lapic_rr_isr l else l(0x101 + 2 * unat v := irq));
          l = bit_set_atomic_rr v lapic_rr_irr l
      in if from_eoi then bit_set_atomic_rr v lapic_rr_tmr (l(0x100 + 2 * unat v := from)) else l)"

lemma set_irq_vector_apic:
  assumes "v < 256"
  shows "\<exists>w'. set_irq_vector (v + 16) w = Some w'"
proof -
  have "unat (v + 16) < 272"
    using assms by (subst unat_add_lem [THEN iffD1]) (auto simp: word_less_nat_alt)
  then have "drop_bit 3 (v + 16) < 64"
    by (simp add: word_less_nat_alt unat_drop_bit_eq drop_bit_nat_def)
  then show ?thesis by (simp add: set_irq_vector_def cpu_set_irq_vector_def Let_def)
qed

lemma raise_vector_low: "v \<le> 15 \<Longrightarrow> lapic_raise_vector this v irq r e f w = Some w"
  by (auto simp: lapic_raise_vector_def APIC_MAX_VECTORS_def word_le_nat_alt word_less_nat_alt)

lemma raise_vector_eq:
  assumes "15 < v" "v < 256"
  shows "\<exists>w'. lapic_raise_vector this v irq reraise from_eoi from w = Some w' \<and>
     lapics w' = (lapics w)(this := lapic_raised v irq reraise from_eoi from (lapics w this)) \<and>
     set_irq_vector (v + 16) w \<noteq> None \<and>
     get_irq_vectors w' = get_irq_vectors (the (set_irq_vector (v + 16) w)) \<and>
     vcpus w' = vcpus (the (set_irq_vector (v + 16) w)) \<and>
     cur_vcpu w' = cur_vcpu w \<and> ioapics w' = ioapics w \<and> config w' = config w \<and>
     nr_vcpus w' = nr_vcpus w \<and> hwirq_words w' = hwirq_words w \<and> events w' = events w \<and>
     master w' = master w \<and> slave w' = slave w \<and> hwirq_to_ioapic w' = hwirq_to_ioapic w"
proof -
  define f where "f l = bit_set_atomic_rr v lapic_rr_irr
      (if reraise then bit_clear_atomic_rr v lapic_rr_isr l else l(0x101 + 2 * unat v := irq))" for l
  define w1 where "w1 = upd_lapic this f w"
  from set_irq_vector_apic [OF assms(2), of w] obtain c where
    c: "cpu_set_irq_vector (v + 16) (get_cpu w) = Some c"
    by (auto simp: set_irq_vector_def bind_eq_Some_conv)
  have s1: "set_irq_vector (v + 16) w1 = Some (upd_cpu (\<lambda>_. c) w1)"
    using c by (simp add: set_irq_vector_def w1_def)
  have s: "set_irq_vector (v + 16) w = Some (upd_cpu (\<lambda>_. c) w)"
    using c by (simp add: set_irq_vector_def)
  have pre: "(if reraise then Some (upd_lapic this (bit_clear_atomic_rr v lapic_rr_isr) w)
             else updo_lapic this (lapic_set_pin v irq) w) \<bind>
      (\<lambda>w. Some (upd_lapic this (bit_set_atomic_rr v lapic_rr_irr) w)) = Some w1"
    using assms(2)
    by (simp add: w1_def f_def updo_lapic_def lapic_set_pin_def upd_lapic_def)
  have "lapic_raise_vector this v irq reraise from_eoi from w =
      Some (upd_lapic this (\<lambda>l. if from_eoi then bit_set_atomic_rr v lapic_rr_tmr
                                  (l(0x100 + 2 * unat v := from)) else l) (upd_cpu (\<lambda>_. c) w1))"
    using assms s1
    by (auto simp: lapic_raise_vector_def APIC_MAX_VECTORS_def w1_def f_def updo_lapic_def
        lapic_set_pin_def lapic_set_ioapic_def lapic_get_pin_def upd_lapic_def Let_def)
  then show ?thesis
    using s by (simp add: w1_def f_def lapic_raised_def Let_def upd_cpu_def get_irq_vectors_def
        get_cpu_def upd_lapic_def fun_eq_iff)
qed

lemma lapic_raised_sets:
  assumes "v < 256"
  shows "rr_set lapic_rr_irr (lapic_raised v irq r e f l) = insert (unat v) (rr_set lapic_rr_irr l)"
    and "rr_set lapic_rr_isr (lapic_raised v irq r e f l) =
           (if r then rr_set lapic_rr_isr l - {unat v} else rr_set lapic_rr_isr l)"
    and "lapic_get_id (lapic_raised v irq r e f l) = lapic_get_id l"
proof -
  have fr: "rr_set rr (l(0x100 + k := x)) = rr_set rr l" for rr l k x
    by (rule rr_set_frame) (cases rr; simp)
  have fr': "rr_set rr (l(0x101 + k := x)) = rr_set rr l" for rr l k x
    using fr [of rr l "Suc k"] by simp
  have id: "lapic_get_id (l(0x100 + k := x)) = lapic_get_id l"
    "lapic_get_id (l(0x101 + k := x)) = lapic_get_id l" for l k x
    by (simp_all add: lapic_get_id_def)
  show "rr_set lapic_rr_irr (lapic_raised v irq r e f l) = insert (unat v) (rr_set lapic_rr_irr l)"
    "rr_set lapic_rr_isr (lapic_raised v irq r e f l) =
           (if r then rr_set lapic_rr_isr l - {unat v} else rr_set lapic_rr_isr l)"
    "lapic_get_id (lapic_raised v irq r e f l) = lapic_get_id l"
    using assms
    by (simp_all add: lapic_raised_def Let_def rr_set_update rr_set_other fr fr' id
        lapic_fields_frame)
qed

section \<open>A freshly booted multiprocessor\<close>

definition boot_apic :: "nat \<Rightarrow> apic_wedge" where
  "boot_apic n =
     \<lparr>cur_vcpu = 0, vcpus = boot_vcpu, hwirq_words = (\<lambda>_. 0), mem = (\<lambda>_. 0), events = [],
      master = i8259a_init, slave = i8259a_init,
      config = \<lparr>cfg_nr_vcpus = n, cfg_max_ioapics = 4, cfg_vsmp = True, cfg_startup_ip = (\<lambda>_. 0)\<rparr>,
      nr_vcpus = of_nat n, lapics = (\<lambda>i. lapic_init (of_nat i) (i = 0)),
      ioapics = (\<lambda>_. \<lparr>io_regsel = 0, io_regwin = 0, io_magic = (0x414f4956, 0x30434950),
                        io_irq_base = 0, io_raw = (\<lambda>_. 0)(1 := 0x170013)\<rparr>),
      hwirq_to_ioapic = (\<lambda>_. 0)\<rparr>"

lemma lapic_init_sets: "rr_set rr (lapic_init i b) = {}"
proof -
  have "lapic_init i b (rr_index rr + 4 * k) = 0" if "k < 8" for k
  proof -
    have "rr_index rr + 4 * k \<in> {0x40..<0xa0}" using that by (cases rr) auto
    then show ?thesis by (auto simp: lapic_init_def Let_def)
  qed
  then show ?thesis by (auto simp: rr_set_def rr_member_def)
qed

lemma lapic_init_id: "n < 256 \<Longrightarrow> lapic_get_id (lapic_init (of_nat n) b) = of_nat n"
proof -
  assume "n < 256"
  have "take_bit 8 (of_nat n :: u32) = of_nat n"
    using \<open>n < 256\<close>
    by (simp add: word_unat_eq_iff unsigned_take_bit_eq unat_of_nat take_bit_nat_eq_self)
  then show ?thesis by (simp add: lapic_get_id_def lapic_init_def Let_def getf_putf_same)
qed

end
