(* ===== verification/Lapic_Service.thy ===== *)
theory Lapic_Service
  imports Lapic
begin

text \<open>
  What the local APIC promises to the processor: which vector is delivered, which registers
  change, and how a raised vector reaches the CPU's word of pending vector clusters.
\<close>

section \<open>Properties\<close>

text \<open>
  C14: Taking an interrupt from a local APIC. If no vector below 32 is in use, the call succeeds
  exactly if the highest requested vector has a higher priority class (vector divided by 16) than
  every vector in service; it then returns that vector, moves exactly it from the request to the
  service register and leaves the other local APICs alone. Otherwise nothing changes.
\<close>

theorem lapic_pending_vector_correct:
  assumes "lapic_wf (lapics w this)" "lapic_get_id (lapics w this) = of_nat (cur_vcpu w)"
  shows "let irr = rr_set lapic_rr_irr (lapics w this); isr = rr_set lapic_rr_isr (lapics w this) in
     if irr \<noteq> {} \<and> (\<forall>s \<in> isr. s div 16 < Max irr div 16) then
       \<exists>irq w'. lapic_pending_vector this w = Some ((of_nat (Max irr), Some irq), w') \<and>
         rr_set lapic_rr_irr (lapics w' this) = irr - {Max irr} \<and>
         rr_set lapic_rr_isr (lapics w' this) = insert (Max irr) isr \<and>
         (\<forall>i. i \<noteq> this \<longrightarrow> lapics w' i = lapics w i) \<and> vcpus w' = vcpus w \<and> events w' = events w
     else \<exists>v. lapic_pending_vector this w = Some ((v, None), w)"
proof (cases "lapic_deliverable (lapics w this)")
  case True
  let ?v = "Max (rr_set lapic_rr_irr (lapics w this))"
  have v: "?v < 256" using True by (intro rr_set_less [OF Max_rr_in]) (simp add: lapic_deliverable_def)
  note vw = of_nat_256 [OF v]
  show ?thesis
    using lapic_pending_yes [OF assms(1) True assms(2)] True vw
    by (simp add: Let_def lapic_claim_sets lapic_deliverable_def [symmetric])
next
  case False
  then show ?thesis
    using lapic_pending_no [OF assms(1) False assms(2)]
    by (simp add: Let_def lapic_deliverable_def [symmetric])
qed

theorem lapic_pending_vector_correct_witness:
  "\<exists>irq w'. lapic_pending_vector 0 (upd_lapic 0 (bit_set_atomic_rr 0x31 lapic_rr_irr) (boot_apic 1))
     = Some ((0x31, Some irq), w') \<and> rr_set lapic_rr_isr (lapics w' 0) = {0x31}"
proof -
  define w where "w = upd_lapic 0 (bit_set_atomic_rr 0x31 lapic_rr_irr) (boot_apic 1)"
  have l: "lapics w 0 = bit_set_atomic_rr 0x31 lapic_rr_irr (lapic_init 0 True)"
    by (simp add: w_def boot_apic_def)
  have s: "rr_set lapic_rr_irr (lapics w 0) = {0x31}" "rr_set lapic_rr_isr (lapics w 0) = {}"
    unfolding l by (simp_all add: rr_set_update rr_set_other lapic_init_sets)
  have "lapic_wf (lapics w 0)" by (simp add: lapic_wf_def s)
  moreover have "lapic_get_id (lapics w 0) = of_nat (cur_vcpu w)"
    unfolding l using lapic_init_id [of 0 True] by (simp add: lapic_fields_frame w_def boot_apic_def)
  ultimately show ?thesis
    unfolding w_def [symmetric] using lapic_pending_vector_correct [of w 0] by (auto simp: s)
qed



text \<open>
  C18: Raising a vector at a local APIC records it, and for vectors up to 239 the CPU is told. After
  raising a vector above 15 it is requested in the addressed local APIC and in no other one. For a
  vector below 240 the cluster bit of vector + 16 is set in the current CPU; from 240 on the
  bit number leaves the word, the CPU's pending word stays as it was and the word behind it, the
  CPU's pointer to its local APIC, is changed instead.
\<close>

theorem lapic_raise_vector_flags_cpu:
  assumes "15 < v" "v < 256" "lapic_raise_vector this v irq reraise from_eoi from w = Some w'"
  shows "rr_set lapic_rr_irr (lapics w' this) = insert (unat v) (rr_set lapic_rr_irr (lapics w this)) \<and>
    (\<forall>i. i \<noteq> this \<longrightarrow> lapics w' i = lapics w i) \<and>
    (if v < 240 then
       get_irq_vectors w' = set_bit ((unat v + 16) div 8) (get_irq_vectors w) \<and>
       cpu_lapic (get_cpu w') = cpu_lapic (get_cpu w)
     else
       get_irq_vectors w' = get_irq_vectors w \<and>
       cpu_lapic (get_cpu w') = set_bit ((unat v + 16) div 8 - 32) (cpu_lapic (get_cpu w)))"
proof -
  from raise_vector_eq [OF assms(1,2), of this irq reraise from_eoi "from" w] assms(3) have
    eq: "lapics w' = (lapics w)(this := lapic_raised v irq reraise from_eoi from (lapics w this))"
      "get_cpu w' = get_cpu (the (set_irq_vector (v + 16) w))"
    by (auto simp: get_cpu_def set_irq_vector_def upd_cpu_def bind_eq_Some_conv)
  have u: "unat (v + 16) = unat v + 16" "unat v < 256"
    using assms(2) by (simp_all add: word_less_nat_alt unat_word_ariths)
  have d: "unat (drop_bit 3 (v + 16)) = (unat v + 16) div 8"
    using u by (simp add: unat_drop_bit_eq drop_bit_nat_def)
  have b: "drop_bit 3 (v + 16) < 32 \<longleftrightarrow> v < 240" "drop_bit 3 (v + 16) < 64"
    using u(2) unfolding word_less_nat_alt d by auto
  have o: "bt_offset (drop_bit 3 (v + 16)) = (if v < 240 then (unat v + 16) div 8 else (unat v + 16) div 8 - 32)"
    using u(2) unfolding bt_offset_def d by (auto simp: word_less_nat_alt mod_if)
  show ?thesis
    using b o
    by (auto simp: eq lapic_raised_sets [OF assms(2)] get_irq_vectors_def set_irq_vector_def
        cpu_set_irq_vector_def Let_def)
qed

theorem lapic_raise_vector_flags_cpu_witness:
  "\<exists>w'. lapic_raise_vector 0 0xfd 256 False False 0 (boot_apic 1) = Some w' \<and>
     get_irq_vectors w' = 0 \<and> cpu_lapic (get_cpu w') = 2"
proof -
  obtain w' where w': "lapic_raise_vector 0 0xfd 256 False False 0 (boot_apic 1) = Some w'"
    using raise_vector_eq [of "0xfd" 0 256 False False 0 "boot_apic 1"] by auto
  have "get_irq_vectors (boot_apic 1) = 0" "cpu_lapic (get_cpu (boot_apic 1)) = 0"
    "set_bit (Suc 0) (0 :: word_t) = 2"
    by (code_simp, code_simp, code_simp)
  with lapic_raise_vector_flags_cpu [OF _ _ w'] w' show ?thesis by simp
qed

end
