(* ===== verification/Ioapic.thy ===== *)
theory Ioapic
  imports Lapic
begin

text \<open>
  The IO-APIC: \<^verbatim>\<open>device/i82093.h\<close> and \<^verbatim>\<open>device/i82093.cc\<close>. The object's methods take the
  index of the virtual IO-APIC they run on. A redirection entry is addressed the way the compiled
  code does it, by a 32-bit byte offset from the start of \<^verbatim>\<open>io_regs\<close> that wraps around; an
  offset outside \<^verbatim>\<open>io_regs\<close> is \<open>None\<close>.
\<close>

section \<open>Registers\<close>

definition IOAPIC_MAX_REDIR_ENTRIES :: word_t where "IOAPIC_MAX_REDIR_ENTRIES = 64"

definition ioapic_virt_magic :: "u32 \<times> u32" where
  "ioapic_virt_magic = (0x414f4956, 0x30434950)"

definition ioapic_init :: i82093_t where
  "ioapic_init =
     \<lparr>io_regsel = 0, io_regwin = 0, io_magic = ioapic_virt_magic, io_irq_base = 0,
      io_raw = (\<lambda>_. 0)(1 := putf 16 8 0x17 (putf 0 8 0x13 0))\<rparr>"

definition ioapic_addr_to_ioapic :: "word_t \<Rightarrow> word_t" where
  "ioapic_addr_to_ioapic addr = addr AND 0xFFFFFF00"

definition ioapic_addr_to_reg :: "word_t \<Rightarrow> word_t" where
  "ioapic_addr_to_reg addr = addr AND 0xFF"

definition ioapic_set_id :: "word_t \<Rightarrow> i82093_t \<Rightarrow> i82093_t" where
  "ioapic_set_id i io = io\<lparr>io_raw := (io_raw io)(0 := putf 24 4 i (io_raw io 0))\<rparr>"

definition ioapic_get_id :: "i82093_t \<Rightarrow> word_t" where
  "ioapic_get_id io = getf 24 4 (io_raw io 0)"

definition ioapic_set_max_redir_entry :: "word_t \<Rightarrow> i82093_t \<Rightarrow> i82093_t" where
  "ioapic_set_max_redir_entry m io = io\<lparr>io_raw := (io_raw io)(1 := putf 16 8 m (io_raw io 1))\<rparr>"

definition ioapic_get_max_redir_entry :: "i82093_t \<Rightarrow> word_t" where
  "ioapic_get_max_redir_entry io = getf 16 8 (io_raw io 1)"

definition ioapic_set_base :: "word_t \<Rightarrow> i82093_t \<Rightarrow> i82093_t" where
  "ioapic_set_base i io = io\<lparr>io_irq_base := i\<rparr>"

definition ioapic_is_valid :: "i82093_t \<Rightarrow> bool" where
  "ioapic_is_valid io = (ioapic_get_id io \<noteq> 0xf)"

definition ioapic_is_valid_virtual :: "i82093_t \<Rightarrow> bool" where
  "ioapic_is_valid_virtual io = (io_magic io = ioapic_virt_magic)"

text \<open>The word of \<^verbatim>\<open>io_regs\<close> that half \<open>h\<close> of redirection entry \<open>entry\<close> names.\<close>

definition redtbl_ix :: "word_t \<Rightarrow> word_t \<Rightarrow> nat" where
  "redtbl_ix entry h = unat (64 + 8 * entry + 4 * h) div 4"

definition redtbl :: "word_t \<Rightarrow> word_t \<Rightarrow> i82093_t \<Rightarrow> u32 option" where
  "redtbl entry h io =
     (let i = redtbl_ix entry h in do { ASSERT (i < 144); Some (io_raw io i) })"

definition upd_ioapic ::
    "nat \<Rightarrow> (i82093_t \<Rightarrow> i82093_t) \<Rightarrow> 'w apic_wedge_scheme \<Rightarrow> 'w apic_wedge_scheme" where
  "upd_ioapic i f w = w\<lparr>ioapics := (ioapics w)(i := f (ioapics w i))\<rparr>"

definition set_redtbl ::
    "nat \<Rightarrow> word_t \<Rightarrow> word_t \<Rightarrow> u32 \<Rightarrow> 'w apic_wedge_scheme \<Rightarrow> 'w apic_wedge_scheme option" where
  "set_redtbl this entry h v w =
     (let i = redtbl_ix entry h in do {
        ASSERT (i < 144);
        Some (upd_ioapic this (\<lambda>io. io\<lparr>io_raw := (io_raw io)(i := v)\<rparr>) w)
      })"

text \<open>The fields of the low half of an entry.\<close>

definition rt_vec :: "u32 \<Rightarrow> u32" where "rt_vec lo = getf 0 8 lo"
definition rt_del :: "u32 \<Rightarrow> u32" where "rt_del lo = getf 8 3 lo"
definition rt_dstm :: "u32 \<Rightarrow> u32" where "rt_dstm lo = getf 11 1 lo"
definition rt_trg :: "u32 \<Rightarrow> u32" where "rt_trg lo = getf 15 1 lo"
definition rt_msk :: "u32 \<Rightarrow> u32" where "rt_msk lo = getf 16 1 lo"
definition rt_old_dstm :: "u32 \<Rightarrow> u32" where "rt_old_dstm lo = getf 18 1 lo"

section \<open>Destinations\<close>

text \<open>The VCPUs whose logical destination matches: the loop over all local APICs.\<close>

definition lid_match_mask :: "u8 \<Rightarrow> 'w apic_wedge_scheme \<Rightarrow> word_t option" where
  "lid_match_mask ldst w =
     fold (\<lambda>dest_id so. do {
             ret \<leftarrow> so;
             m \<leftarrow> lapic_lid_matches ldst (lapics w dest_id);
             Some (if m then ret OR shl1 (of_nat dest_id) else ret)
           }) [0..<unat (nr_vcpus w)] (Some 0)"

definition get_redir_entry_dest_mask ::
    "nat \<Rightarrow> word_t \<Rightarrow> bool \<Rightarrow> 'w apic_wedge_scheme \<Rightarrow> word_t option" where
  "get_redir_entry_dest_mask this entry old w = do {
     ASSERT (cfg_nr_vcpus (config w) < 32);
     lo \<leftarrow> redtbl entry 0 (ioapics w this);
     hi \<leftarrow> redtbl entry 1 (ioapics w this);
     let dstm = (if old then rt_old_dstm lo else rt_dstm lo);
     if dstm = 0 then
       (let pdst = (if old then getf 16 4 hi else getf 24 4 hi)
        in Some (shl1 pdst AND (shl1 (nr_vcpus w) - 1)))
     else
       (let ldst = (if old then getf 16 8 hi else getf 24 8 hi)
        in lid_match_mask (ucast ldst) w)
   }"

section \<open>Interrupts\<close>

text \<open>
  The sequence that acknowledges an interrupt at the device: unless it is squashed, and if it was
  masked in the device, unmask it with virtual interrupts disabled.
\<close>

definition ioapic_unmask_hwirq ::
    "nat \<Rightarrow> word_t \<Rightarrow> word_t \<Rightarrow> 'w apic_wedge_scheme \<Rightarrow> 'w apic_wedge_scheme option" where
  "ioapic_unmask_hwirq this entry hwirq w =
     (if is_hwirq_squashed hwirq w then Some w
      else do {
        (was, w) \<leftarrow> test_and_clear_hwirq_mask hwirq w;
        if was then do {
          let int_save = fst (cpu_disable_interrupts (get_cpu w));
          let w = upd_cpu (\<lambda>c. snd (cpu_disable_interrupts c)) w;
          m \<leftarrow> get_redir_entry_dest_mask this entry False w;
          ASSERT (m \<noteq> 0);
          let w = log_event (UnmaskDeviceInterrupt hwirq) w;
          Some (upd_cpu (cpu_restore_interrupts int_save) w)
        } else Some w
      })"

definition ioapic_deliver_step ::
    "word_t \<Rightarrow> word_t \<Rightarrow> bool \<Rightarrow> bool \<Rightarrow> word_t \<Rightarrow> word_t \<Rightarrow>
     'w apic_wedge_scheme option \<Rightarrow> 'w apic_wedge_scheme option" where
  "ioapic_deliver_step vector irq reraise from_eoi from dest_id so = do {
     w \<leftarrow> so;
     lapic_raise_vector (if unat dest_id = cfg_nr_vcpus (config w) then cur_vcpu w else unat dest_id)
       vector irq reraise from_eoi from w
   }"

definition ioapic_raise_irq ::
    "nat \<Rightarrow> word_t \<Rightarrow> bool \<Rightarrow> 'w apic_wedge_scheme \<Rightarrow> 'w apic_wedge_scheme option" where
  "ioapic_raise_irq this irq reraise w =
     (let entry = irq - io_irq_base (ioapics w this) in do {
        ASSERT (entry < IOAPIC_MAX_REDIR_ENTRIES);
        lo \<leftarrow> redtbl entry 0 (ioapics w this);
        if rt_vec lo \<le> 15 then Some w
        else if rt_msk lo = 0 then do {
          dest_id_mask \<leftarrow> get_redir_entry_dest_mask this entry False w;
          let vector = rt_vec lo;
          (from_eoi, from, w) \<leftarrow>
            (if rt_trg lo = 1 then do {
               w \<leftarrow> set_redtbl this entry 0 (set_bit 14 lo) w;
               Some (rt_del lo \<le> 1, of_nat this + 1, w)
             } else do {
               w \<leftarrow> ioapic_unmask_hwirq this entry irq w;
               Some (False, 0, w)
             });
          while_lsb (ioapic_deliver_step vector irq reraise from_eoi from) dest_id_mask (Some w)
        }
        else if rt_trg lo = 1 then set_redtbl this entry 0 (set_bit 17 lo) w
        else ioapic_unmask_hwirq this entry irq w
      })"

definition ioapic_eoi ::
    "nat \<Rightarrow> word_t \<Rightarrow> 'w apic_wedge_scheme \<Rightarrow> 'w apic_wedge_scheme option" where
  "ioapic_eoi this hwirq w =
     (let entry = hwirq - io_irq_base (ioapics w this) in do {
        ASSERT (entry < IOAPIC_MAX_REDIR_ENTRIES);
        lo \<leftarrow> redtbl entry 0 (ioapics w this);
        w \<leftarrow> set_redtbl this entry 0 (unset_bit 14 lo) w;
        if bit lo 14 then do {
          w \<leftarrow> ioapic_unmask_hwirq this entry hwirq w;
          lo \<leftarrow> redtbl entry 0 (ioapics w this);
          w \<leftarrow> set_redtbl this entry 0 (unset_bit 17 lo) w;
          if bit lo 17 then ioapic_raise_irq this hwirq True w else Some w
        } else Some w
      })"

definition enable_redir_entry_hwirq ::
    "nat \<Rightarrow> word_t \<Rightarrow> 'w apic_wedge_scheme \<Rightarrow> 'w apic_wedge_scheme option" where
  "enable_redir_entry_hwirq this entry w =
     (let hwirq = entry + io_irq_base (ioapics w this);
          none = of_nat (cfg_nr_vcpus (config w)) in do {
        new_mask \<leftarrow> get_redir_entry_dest_mask this entry False w;
        let new_dest = (if new_mask \<noteq> 0 then lsb new_mask else none);
        (latched, w) \<leftarrow> test_and_set_hwirq_latch hwirq w;
        w \<leftarrow> (if latched then do {
                old_mask \<leftarrow> get_redir_entry_dest_mask this entry True w;
                let old_dest = (if old_mask \<noteq> 0 then lsb old_mask else none);
                if old_dest \<noteq> new_dest then do {
                  let w = (if old_dest \<noteq> none
                           then log_event (DisableDeviceInterrupt hwirq (unat old_dest)) w else w);
                  Some (if new_dest \<noteq> none
                        then log_event (EnableDeviceInterrupt hwirq (unat new_dest)) w else w)
                } else Some w
              }
              else if new_dest \<noteq> none
              then Some (log_event (EnableDeviceInterrupt hwirq (unat new_dest)) w)
              else Some w);
        lo \<leftarrow> redtbl entry 0 (ioapics w this);
        w \<leftarrow> set_redtbl this entry 0 (putf 18 1 (rt_dstm lo) lo) w;
        hi \<leftarrow> redtbl entry 1 (ioapics w this);
        set_redtbl this entry 1
          (if rt_dstm lo = 0 then putf 16 4 (getf 24 4 hi) hi else putf 16 8 (getf 24 8 hi) hi) w
      })"

section \<open>Register writes\<close>

text \<open>
  The low half of an entry: the writable fields are copied one by one, in the source's order; an
  entry that becomes unmasked is enabled and a pending level interrupt is raised again.
\<close>

definition redtbl_low_fields :: "u32 \<Rightarrow> u32 \<Rightarrow> u32" where
  "redtbl_low_fields n lo =
     (let lo = putf 11 1 (getf 11 1 n) lo;
          lo = putf 16 1 (getf 16 1 n) lo;
          lo = putf 15 1 (getf 15 1 n) lo;
          lo = putf 13 1 (getf 13 1 n) lo;
          lo = putf 11 1 (getf 11 1 n) lo;
          lo = putf 8 3 (getf 8 3 n) lo
      in putf 0 8 (getf 0 8 n) lo)"

definition ioapic_write_redtbl ::
    "nat \<Rightarrow> u32 \<Rightarrow> 'w apic_wedge_scheme \<Rightarrow> 'w apic_wedge_scheme option" where
  "ioapic_write_redtbl this v w =
     (let regsel = io_regsel (ioapics w this);
          entry = drop_bit 1 (regsel - 0x10);
          hwirq = entry + io_irq_base (ioapics w this) in
      if regsel AND 1 = 0 then do {
        lo \<leftarrow> redtbl entry 0 (ioapics w this);
        let save_msk = rt_msk lo;
        w \<leftarrow> set_redtbl this entry 0 (redtbl_low_fields v lo) w;
        if rt_msk v = 0 \<and> save_msk = 1 then do {
          w \<leftarrow> enable_redir_entry_hwirq this entry w;
          lo \<leftarrow> redtbl entry 0 (ioapics w this);
          w \<leftarrow> set_redtbl this entry 0 (unset_bit 17 lo) w;
          if bit lo 17 then ioapic_raise_irq this hwirq True w else Some w
        } else Some w
      } else do {
        lo \<leftarrow> redtbl entry 0 (ioapics w this);
        hi \<leftarrow> redtbl entry 1 (ioapics w this);
        w \<leftarrow> set_redtbl this entry 1
              (if rt_dstm lo = 0 then putf 24 4 (getf 24 4 v) hi else putf 24 8 (getf 24 8 v) hi) w;
        lo \<leftarrow> redtbl entry 0 (ioapics w this);
        if rt_msk lo = 0 then enable_redir_entry_hwirq this entry w else Some w
      })"

text \<open>A write to the version or arbitration register falls through to the redirection table.\<close>

definition ioapic_write ::
    "nat \<Rightarrow> word_t \<Rightarrow> word_t \<Rightarrow> 'w apic_wedge_scheme \<Rightarrow> 'w apic_wedge_scheme option" where
  "ioapic_write this v reg w =
     (if reg = 0 then
        Some (upd_ioapic this (\<lambda>io.
          let io = io\<lparr>io_regsel := v\<rparr>
          in if v < 16 + 2 * IOAPIC_MAX_REDIR_ENTRIES then io\<lparr>io_regwin := io_raw io (unat v)\<rparr>
             else io) w)
      else if reg = 0x10 then
        (let regsel = io_regsel (ioapics w this) in
         if regsel = 0 then
           Some (upd_ioapic this (\<lambda>io.
             io\<lparr>io_raw := (io_raw io)(0 := putf 24 4 (getf 24 4 v) (io_raw io 0))\<rparr>) w)
         else if regsel = 1 \<or> regsel = 2 then ioapic_write_redtbl this v w
         else if 0x10 \<le> regsel \<and> regsel \<le> 0x3F then ioapic_write_redtbl this v w
         else Some w)
      else Some w)"

text \<open>
  The entry points of the rewritten guest code; \<open>this\<close> is the IO-APIC at the page of the
  address. The checks under \<^verbatim>\<open>debug_apic_sanity\<close> and \<^verbatim>\<open>debug_apic\<close>, which
  \<^verbatim>\<open>common/debug.h\<close> turns on, panic unless the guest maps the page for its kernel.
\<close>

definition apic_mapping_sane :: "vm_layout \<Rightarrow> word_t \<Rightarrow> 'w wedge_scheme \<Rightarrow> bool" where
  "apic_mapping_sane lay addr w =
     (case backend_resolve_addr lay addr w of
        None \<Rightarrow> False | Some (pgent, _) \<Rightarrow> pgent_is_kernel pgent)"

definition ioapic_write_patch ::
    "vm_layout \<Rightarrow> nat \<Rightarrow> word_t \<Rightarrow> word_t \<Rightarrow> 'w apic_wedge_scheme \<Rightarrow> 'w apic_wedge_scheme option" where
  "ioapic_write_patch lay this v addr w = do {
     ASSERT (apic_mapping_sane lay addr w);
     ASSERT (ioapic_is_valid_virtual (ioapics w this));
     ioapic_write this v (ioapic_addr_to_reg addr) w
   }"

text \<open>
  A read returns the word of the object at the address: the fields in the order of the
  class, \<open>None\<close> for an access that is not word aligned.
\<close>

definition ioapic_mm_word :: "i82093_t \<Rightarrow> word_t \<Rightarrow> word_t option" where
  "ioapic_mm_word io r =
     (if r AND 3 \<noteq> 0 then None
      else if r = 0 then Some (io_regsel io)
      else if r = 0x10 then Some (io_regwin io)
      else if r = 0x20 then Some (fst (io_magic io))
      else if r = 0x24 then Some (snd (io_magic io))
      else if r = 0x28 then Some (io_irq_base io)
      else if 0x30 \<le> r then Some (io_raw io (unat (r - 0x30) div 4))
      else Some 0)"

definition ioapic_read_patch ::
    "vm_layout \<Rightarrow> nat \<Rightarrow> word_t \<Rightarrow> 'w apic_wedge_scheme \<Rightarrow> word_t option" where
  "ioapic_read_patch lay this addr w = do {
     ASSERT (apic_mapping_sane lay addr w);
     ASSERT (ioapic_is_valid_virtual (ioapics w this));
     ioapic_mm_word (ioapics w this) (ioapic_addr_to_reg addr)
   }"

end
