(* ===== verification/Lapic_Regs.thy ===== *)
theory Lapic_Regs
  imports Ioapic
begin

text \<open>
  The register writes of the local APIC, \<^verbatim>\<open>local_apic_t::write\<close> of \<^verbatim>\<open>device/lapic.cc\<close>, one
  definition for each register with a body of its own, and the entry points of the rewritten guest
  code.
\<close>

section \<open>End of interrupt\<close>

text \<open>\<^verbatim>\<open>get_ioapic(vector)->eoi\<close>: a pointer that names no virtual IO-APIC is \<open>None\<close>.\<close>

definition ioapic_of_ptr :: "word_t \<Rightarrow> 'w apic_wedge_scheme \<Rightarrow> nat option" where
  "ioapic_of_ptr ptr w =
     do { ASSERT (1 \<le> ptr \<and> unat ptr \<le> cfg_max_ioapics (config w)); Some (unat ptr - 1) }"

definition lapic_write_eoi :: "nat \<Rightarrow> 'w apic_wedge_scheme \<Rightarrow> 'w apic_wedge_scheme option" where
  "lapic_write_eoi this w = do {
     vector \<leftarrow> msb_rr lapic_rr_isr (lapics w this);
     if vector > 15 then do {
       let (was, l) = bit_test_and_clear_atomic_rr vector lapic_rr_isr (lapics w this);
       let w = upd_lapic this (\<lambda>_. l) w;
       if was then do {
         w \<leftarrow> (if msb_rr_cluster lapic_rr_isr vector (lapics w this) = 0
               then clear_irq_vector (vector + 16) w else Some w);
         irq \<leftarrow> lapic_get_pin vector (lapics w this);
         ptr \<leftarrow> lapic_get_ioapic vector (lapics w this);
         let (level, l) = bit_test_and_clear_atomic_rr vector lapic_rr_tmr (lapics w this);
         let w = upd_lapic this (\<lambda>_. l) w;
         if level \<and> ptr \<noteq> 0 then do {
           io \<leftarrow> ioapic_of_ptr ptr w;
           ASSERT (ioapic_is_valid (ioapics w io));
           ASSERT (irq < INTLOGIC_MAX_HWIRQS);
           ioapic_eoi io irq w
         } else Some w
       } else Some w
     } else Some w
   }"

section \<open>Inter-processor interrupts\<close>

definition icrlo_fields :: "u32 \<Rightarrow> u32 \<Rightarrow> u32" where
  "icrlo_fields n x =
     (let x = putf 0 8 (getf 0 8 n) x;
          x = putf 8 3 (getf 8 3 n) x;
          x = putf 11 1 (getf 11 1 n) x;
          x = putf 14 1 (getf 14 1 n) x;
          x = putf 15 1 (getf 15 1 n) x
      in putf 18 2 (getf 18 2 n) x)"

definition ipi_dest_mask :: "nat \<Rightarrow> u32 \<Rightarrow> 'w apic_wedge_scheme \<Rightarrow> word_t option" where
  "ipi_dest_mask this icrlo w =
     (let all = shl1 (nr_vcpus w) - 1;
          self = shl1 (lapic_get_id (lapics w this));
          dest = getf 24 8 (lapics w this (0x310 div 4));
          shorthand = getf 18 2 icrlo in
      if shorthand = 0 then
        (if getf 11 1 icrlo = 0 then Some (shl1 dest) else lid_match_mask (ucast dest) w)
      else if shorthand = 1 then Some self
      else if shorthand = 2 then Some all
      else Some (all AND NOT self))"

definition ipi_fixed_step ::
    "word_t \<Rightarrow> word_t \<Rightarrow> 'w apic_wedge_scheme option \<Rightarrow> 'w apic_wedge_scheme option" where
  "ipi_fixed_step vector dest_id so = do {
     w \<leftarrow> so;
     if dest_id < nr_vcpus w
     then lapic_raise_vector (unat dest_id) vector INTLOGIC_INVALID_IRQ False False 0 w
     else Some w
   }"

text \<open>
  Starting a VCPU: the booting VCPU notes the one it boots (\<^verbatim>\<open>vcpu_t::startup\<close>) and waits until
  it has been turned on.
\<close>

definition ipi_startup_step ::
    "word_t \<Rightarrow> 'w apic_wedge_scheme option \<Rightarrow> 'w apic_wedge_scheme option" where
  "ipi_startup_step dest_id so = do {
     w \<leftarrow> so;
     ASSERT (cfg_vsmp (config w));
     let boot = vcpus w (cur_vcpu w);
     if is_booting_other_vcpu boot then Some w
     else if \<not> is_off (vcpus w (unat dest_id)) then Some w
     else do {
       let ip = cfg_startup_ip (config w) dest_id;
       boot \<leftarrow> bootstrap_other_vcpu dest_id boot;
       let w = w\<lparr>vcpus := (vcpus w)(cur_vcpu w := boot)\<rparr>;
       dest \<leftarrow> turn_on (vcpus w (unat dest_id));
       let w = w\<lparr>vcpus := (vcpus w)(unat dest_id := dest)\<rparr>;
       Some (log_event (StartupVcpu (unat dest_id) ip) w)
     }
   }"

definition lapic_write_icrlo ::
    "nat \<Rightarrow> u32 \<Rightarrow> 'w apic_wedge_scheme \<Rightarrow> 'w apic_wedge_scheme option" where
  "lapic_write_icrlo this v w = do {
     let w = upd_lapic this (\<lambda>l. l(0x300 div 4 := icrlo_fields v (l (0x300 div 4)))) w;
     let icrlo = lapics w this (0x300 div 4);
     ASSERT (nr_vcpus w < 32);
     dest_id_mask \<leftarrow> ipi_dest_mask this icrlo w;
     if dest_id_mask \<ge> shl1 (nr_vcpus w) then Some w
     else if getf 8 3 icrlo = 0 then
       while_lsb (ipi_fixed_step (getf 0 8 icrlo)) dest_id_mask (Some w)
     else if getf 8 3 icrlo = 6 then while_lsb ipi_startup_step dest_id_mask (Some w)
     else Some w
   }"

section \<open>The other registers\<close>

definition svr_fields :: "u32 \<Rightarrow> local_apic_t \<Rightarrow> local_apic_t" where
  "svr_fields n l =
     (let l = l(0xF0 div 4 := putf 0 8 (getf 0 8 n) (l (0xF0 div 4)));
          l = l(0xF0 div 4 := putf 9 1 (getf 9 1 n) (l (0xF0 div 4)));
          l = l(0xF0 div 4 := putf 8 1 (getf 8 1 n) (l (0xF0 div 4)))
      in if getf 8 1 n \<noteq> 0 then l(0x08 div 4 := 1) else l)"

definition lvt_timer_fields :: "u32 \<Rightarrow> u32 \<Rightarrow> u32" where
  "lvt_timer_fields n x =
     putf 17 1 (getf 17 1 n) (putf 16 1 (getf 16 1 n) (putf 0 8 (getf 0 8 n) x))"

definition lvt_fields :: "u32 \<Rightarrow> u32 \<Rightarrow> u32" where
  "lvt_fields n x =
     putf 0 8 (getf 0 8 n) (putf 8 3 (getf 8 3 n) (putf 13 1 (getf 13 1 n)
       (putf 15 1 (getf 15 1 n) (putf 16 1 (getf 16 1 n) x))))"

definition divide_fields :: "u32 \<Rightarrow> u32 \<Rightarrow> u32" where
  "divide_fields n x =
     putf 3 1 (getf 3 1 n) (putf 1 1 (getf 1 1 n) (putf 0 1 (getf 0 1 n) x))"

definition lapic_write ::
    "nat \<Rightarrow> word_t \<Rightarrow> word_t \<Rightarrow> 'w apic_wedge_scheme \<Rightarrow> 'w apic_wedge_scheme option" where
  "lapic_write this v reg w = do {
     ASSERT (of_nat (cur_vcpu w) = lapic_get_id (lapics w this));
     if reg = LAPIC_REG_VER then Some w
     else if reg = LAPIC_REG_LDR then
       Some (upd_lapic this (\<lambda>l. l(0xD0 div 4 := putf 24 8 (getf 24 8 v) (l (0xD0 div 4)))) w)
     else if reg = LAPIC_REG_DFR then
       Some (upd_lapic this (\<lambda>l. l(0xE0 div 4 := putf 28 4 (getf 28 4 v) (l (0xE0 div 4)))) w)
     else if reg = LAPIC_REG_TPR then Some w
     else if reg = LAPIC_REG_EOI then lapic_write_eoi this w
     else if reg = LAPIC_REG_SVR then Some (upd_lapic this (svr_fields v) w)
     else if reg = LAPIC_REG_LVT_TIMER then
       Some (upd_lapic this (\<lambda>l. l(0x320 div 4 := lvt_timer_fields v (l (0x320 div 4)))) w)
     else if reg \<in> {LAPIC_REG_LVT_LINT0, LAPIC_REG_LVT_PMC, LAPIC_REG_LVT_LINT1, LAPIC_REG_LVT_ERROR}
     then (let i = unat reg div 4 in Some (upd_lapic this (\<lambda>l. l(i := lvt_fields v (l i))) w))
     else if reg = LAPIC_REG_ERR_STATUS then Some w
     else if reg = LAPIC_REG_INTR_CMDLO then lapic_write_icrlo this v w
     else if reg = LAPIC_REG_INTR_CMDHI then
       Some (upd_lapic this (\<lambda>l. l(0x310 div 4 := putf 24 8 (getf 24 8 v) (l (0x310 div 4)))) w)
     else if reg = LAPIC_REG_TIMER_DIVIDE then
       Some (upd_lapic this (\<lambda>l. l(0x3E0 div 4 := divide_fields v (l (0x3E0 div 4)))) w)
     else if reg = LAPIC_REG_TIMER_COUNT then
       Some (upd_lapic this (\<lambda>l. l(0x380 div 4 := v)) w)
     else Some w
   }"

section \<open>Entry points\<close>

definition lapic_write_patch ::
    "vm_layout \<Rightarrow> word_t \<Rightarrow> word_t \<Rightarrow> 'w apic_wedge_scheme \<Rightarrow> 'w apic_wedge_scheme option" where
  "lapic_write_patch lay v addr w = do {
     ASSERT (lapic_get_id (get_lapic w) = of_nat (cur_vcpu w));
     ASSERT (apic_mapping_sane lay addr w);
     ASSERT (lapic_is_valid (get_lapic w));
     lapic_write (cur_vcpu w) v (lapic_addr_to_reg addr) w
   }"

definition lapic_read_patch :: "vm_layout \<Rightarrow> word_t \<Rightarrow> 'w apic_wedge_scheme \<Rightarrow> word_t option" where
  "lapic_read_patch lay addr w = do {
     ASSERT (lapic_get_id (get_lapic w) = of_nat (cur_vcpu w));
     let ret = lapic_get_reg (lapic_addr_to_reg addr) (get_lapic w);
     ASSERT (apic_mapping_sane lay addr w);
     ASSERT (lapic_is_valid (get_lapic w));
     Some ret
   }"

definition lapic_xchg_patch ::
    "word_t \<Rightarrow> word_t \<Rightarrow> 'w apic_wedge_scheme \<Rightarrow> (word_t \<times> 'w apic_wedge_scheme) option" where
  "lapic_xchg_patch v addr w = do {
     ASSERT (lapic_get_id (get_lapic w) = of_nat (cur_vcpu w));
     let ret = lapic_get_reg (lapic_addr_to_reg addr) (get_lapic w);
     w \<leftarrow> lapic_write (cur_vcpu w) v (lapic_addr_to_reg addr) w;
     Some (ret, w)
   }"

end
