(* ===== verification/Intlogic.thy ===== *)
theory Intlogic
  imports Lapic_Regs
begin

text \<open>
  The interrupt logic that joins the controllers: \<^verbatim>\<open>ia32/intlogic.h\<close> and
  \<^verbatim>\<open>ia32/intlogic.cc\<close>. The build option \<^verbatim>\<open>CONFIG_DEVICE_APIC\<close> is an argument \<open>apic\<close>:
  with it the local APIC and the IO-APICs come first and the 8259A pair is consulted only
  through the virtual wire, without it only the 8259A pair exists. The QEMU extension is off.
\<close>

section \<open>IO-APIC registration\<close>

definition hwirq_register_ioapic ::
    "word_t \<Rightarrow> nat \<Rightarrow> 'w apic_wedge_scheme \<Rightarrow> 'w apic_wedge_scheme option" where
  "hwirq_register_ioapic hwirq i w = do {
     ASSERT (hwirq < INTLOGIC_MAX_HWIRQS);
     ASSERT (ioapic_is_valid (ioapics w i));
     Some (w\<lparr>hwirq_to_ioapic := (hwirq_to_ioapic w)(unat hwirq := of_nat i + 1)\<rparr>)
   }"

definition hwirq_get_ioapic :: "word_t \<Rightarrow> 'w apic_wedge_scheme \<Rightarrow> nat option option" where
  "hwirq_get_ioapic hwirq w = do {
     ASSERT (hwirq < INTLOGIC_MAX_HWIRQS);
     let ret = hwirq_to_ioapic w (unat hwirq);
     if ret = 0 then Some None
     else do {
       i \<leftarrow> ioapic_of_ptr ret w;
       ASSERT (ioapic_is_valid (ioapics w i));
       Some (Some i)
     }
   }"

definition virtual_irq_sources :: word_t where "virtual_irq_sources = 10"

text \<open>
  The inner loop of \<^verbatim>\<open>init_virtual_apics\<close> registers the interrupts from \<^verbatim>\<open>gsi_min\<close> to
  \<^verbatim>\<open>gsi_max\<close>; the outer one configures an IO-APIC for every 24 of them. The ACPI table that the
  function fills as well is not part of the state.
\<close>

definition register_gsis ::
    "nat \<Rightarrow> word_t \<Rightarrow> word_t \<Rightarrow> 'w apic_wedge_scheme \<Rightarrow> 'w apic_wedge_scheme option" where
  "register_gsis ioapic gsi_min gsi_max w =
     fold (\<lambda>gsi so. so \<bind> hwirq_register_ioapic (of_nat gsi) ioapic)
       [unat gsi_min..<Suc (unat gsi_max)] (Some w)"

definition gsi_per_ioapic :: word_t where "gsi_per_ioapic = 24"

definition init_virtual_ioapic ::
    "word_t \<Rightarrow> word_t \<Rightarrow> nat \<Rightarrow> 'w apic_wedge_scheme \<Rightarrow> 'w apic_wedge_scheme option" where
  "init_virtual_ioapic irq_sources start_id ioapic w =
     (let gsi_min = gsi_per_ioapic * of_nat ioapic;
          gsi_max = min (gsi_min + gsi_per_ioapic) irq_sources - 1;
          w = upd_ioapic ioapic (\<lambda>io.
            ioapic_set_max_redir_entry (gsi_max - gsi_min)
              (ioapic_set_base (gsi_per_ioapic * of_nat ioapic)
                (ioapic_set_id (start_id + of_nat ioapic) io))) w
      in register_gsis ioapic gsi_min gsi_max w)"

definition init_virtual_apics ::
    "word_t \<Rightarrow> word_t \<Rightarrow> 'w apic_wedge_scheme \<Rightarrow> 'w apic_wedge_scheme option" where
  "init_virtual_apics real_irq_sources num_vcpus w =
     (let irq_sources = real_irq_sources + virtual_irq_sources;
          nr_ioapics = irq_sources div gsi_per_ioapic
            + (if irq_sources mod gsi_per_ioapic \<noteq> 0 then 1 else 0);
          start_id = num_vcpus + 1;
          max_io = cfg_max_ioapics (config w) in do {
        ASSERT (unat nr_ioapics < max_io);
        w \<leftarrow> fold (\<lambda>i so. so \<bind> init_virtual_ioapic irq_sources start_id i)
              [0..<unat nr_ioapics] (Some w);
        Some (fold (\<lambda>i. upd_ioapic i (ioapic_set_id 0xf)) [unat nr_ioapics..<max_io] w)
      })"

section \<open>Raising interrupts\<close>

definition pic_raise_irq :: "word_t \<Rightarrow> 'w apic_wedge_scheme \<Rightarrow> 'w apic_wedge_scheme option" where
  "pic_raise_irq irq w =
     (if irq < 8 then do { (p, w) \<leftarrow> i8259a_raise_irq irq 0 (master w) w; Some (w\<lparr>master := p\<rparr>) }
      else if irq < 16 then do { (p, w) \<leftarrow> i8259a_raise_irq irq 8 (slave w) w; Some (w\<lparr>slave := p\<rparr>) }
      else Some w)"

definition intlogic_raise_irq ::
    "bool \<Rightarrow> word_t \<Rightarrow> 'w apic_wedge_scheme \<Rightarrow> 'w apic_wedge_scheme option" where
  "intlogic_raise_irq apic irq w = do {
     w \<leftarrow> set_hwirq_mask irq w;
     if \<not> apic then pic_raise_irq irq w
     else do {
       w \<leftarrow> (if irq = 0 then
               (if lapic_is_enabled (get_lapic w) then lapic_raise_timer_irq (cur_vcpu w) w else Some w)
             else do {
               io \<leftarrow> hwirq_get_ioapic irq w;
               (case io of Some i \<Rightarrow> ioapic_raise_irq i irq False w | None \<Rightarrow> Some w)
             });
       if \<not> lapic_is_virtual_wire (get_lapic w) \<or> irq > 16 then Some w
       else do {
         ASSERT (lapic_get_id (get_lapic w) = 0);
         pic_raise_irq irq w
       }
     }
   }"

section \<open>Taking interrupts\<close>

definition maybe_pending_vector :: "'w apic_wedge_scheme \<Rightarrow> bool" where
  "maybe_pending_vector w = (get_irq_vectors w \<noteq> 0)"

text \<open>The short-circuit evaluation over master and slave.\<close>

definition pic_pair_pending_vector ::
    "'w apic_wedge_scheme \<Rightarrow> ((word_t \<times> word_t) option \<times> 'w apic_wedge_scheme) option" where
  "pic_pair_pending_vector w = do {
     (r, w) \<leftarrow> (if irq_request (master w) \<noteq> 0 then do {
                  (r, p, w) \<leftarrow> i8259a_pending_vector 0 (master w) w; Some (r, w\<lparr>master := p\<rparr>) }
                else Some (None, w));
     if r \<noteq> None then Some (r, w)
     else if irq_request (slave w) \<noteq> 0 then do {
       (r, p, w) \<leftarrow> i8259a_pending_vector 8 (slave w) w; Some (r, w\<lparr>slave := p\<rparr>) }
     else Some (None, w)
   }"

definition intlogic_pending_vector ::
    "bool \<Rightarrow> 'w apic_wedge_scheme \<Rightarrow> ((word_t \<times> word_t) option \<times> 'w apic_wedge_scheme) option" where
  "intlogic_pending_vector apic w =
     (if get_irq_vectors w = 0 then Some (None, w)
      else if \<not> apic then pic_pair_pending_vector w
      else do {
        ASSERT (lapic_get_id (get_lapic w) = of_nat (cur_vcpu w));
        ASSERT (lapic_is_valid (get_lapic w));
        (r, w) \<leftarrow> (if lapic_is_enabled (get_lapic w) then do {
                     ((vector, irq), w) \<leftarrow> lapic_pending_vector (cur_vcpu w) w;
                     Some (map_option (\<lambda>i. (vector, i)) irq, w)
                   } else Some (None, w));
        if r \<noteq> None \<or> \<not> lapic_is_virtual_wire (get_lapic w) then Some (r, w)
        else do {
          ASSERT (lapic_get_id (get_lapic w) = 0);
          pic_pair_pending_vector w
        }
      })"

definition intlogic_reraise_vector ::
    "bool \<Rightarrow> word_t \<Rightarrow> 'w apic_wedge_scheme \<Rightarrow> 'w apic_wedge_scheme option" where
  "intlogic_reraise_vector apic vector w = do {
     (stop, w) \<leftarrow> (if apic then do {
                    w \<leftarrow> lapic_raise_vector (cur_vcpu w) vector 0 True False 0 w;
                    if \<not> lapic_is_virtual_wire (get_lapic w) then Some (True, w)
                    else do { ASSERT (lapic_get_id (get_lapic w) = 0); Some (False, w) }
                  } else Some (False, w));
     if stop then Some w
     else do {
       (p, w) \<leftarrow> i8259a_reraise_vector vector 0 (master w) w;
       let w = w\<lparr>master := p\<rparr>;
       (p, w) \<leftarrow> i8259a_reraise_vector vector 8 (slave w) w;
       Some (w\<lparr>slave := p\<rparr>)
     }
   }"

section \<open>Synchronous delivery\<close>

definition deliver_synchronous_irq ::
    "bool \<Rightarrow> 'w apic_wedge_scheme \<Rightarrow> (bool \<times> 'w apic_wedge_scheme) option" where
  "deliver_synchronous_irq apic w =
     (let saved_int_state = fst (cpu_disable_interrupts (get_cpu w));
          w = upd_cpu (\<lambda>c. snd (cpu_disable_interrupts c)) w in
      if \<not> saved_int_state then Some (False, w)
      else do {
        (r, w) \<leftarrow> intlogic_pending_vector apic w;
        case r of
          None \<Rightarrow> Some (False, upd_cpu (cpu_restore_interrupts saved_int_state) w)
        | Some (vector, irq) \<Rightarrow>
            Some (True, log_event (SyncDeliverException (vector AND 0xff) saved_int_state) w)
      })"

definition raise_synchronous_irq ::
    "bool \<Rightarrow> word_t \<Rightarrow> 'w apic_wedge_scheme \<Rightarrow> 'w apic_wedge_scheme option" where
  "raise_synchronous_irq apic irq w = do {
     w \<leftarrow> intlogic_raise_irq apic irq w;
     (_, w) \<leftarrow> deliver_synchronous_irq apic w;
     Some w
   }"

end
