(* ===== verification/Apic_Protocol.thy ===== *)
theory Apic_Protocol
  imports Lapic_Service Intlogic
begin

text \<open>
  The protocol between a processor and its local APIC: raising, taking and ending interrupts.
  The end-of-interrupt write is characterised, the nesting discipline of the interrupts in service
  is proved by rule induction over every sequence of operations, and the local APIC is shown to
  meet the interrupt controller contract.
\<close>

section \<open>End of interrupt\<close>

definition lapic_ended :: "word_t \<Rightarrow> local_apic_t \<Rightarrow> local_apic_t" where
  "lapic_ended v l = bit_clear_atomic_rr v lapic_rr_tmr (bit_clear_atomic_rr v lapic_rr_isr l)"

lemma lapic_ended_sets:
  assumes "v < 256"
  shows "rr_set lapic_rr_irr (lapic_ended v l) = rr_set lapic_rr_irr l"
    and "rr_set lapic_rr_isr (lapic_ended v l) = rr_set lapic_rr_isr l - {unat v}"
    and "rr_set lapic_rr_tmr (lapic_ended v l) = rr_set lapic_rr_tmr l - {unat v}"
    and "lapic_get_id (lapic_ended v l) = lapic_get_id l"
  using assms by (simp_all add: lapic_ended_def rr_set_update rr_set_other lapic_fields_frame)

lemma clear_irq_vector_apic:
  assumes "v < 256"
  shows "\<exists>c. cpu_clear_irq_vector (v + 16) (get_cpu w) = Some c \<and>
             clear_irq_vector (v + 16) w = Some (upd_cpu (\<lambda>_. c) w)"
proof -
  have "drop_bit 3 (v + 16) < 64"
    using assms
    by (simp add: word_less_nat_alt unat_drop_bit_eq drop_bit_nat_def unat_word_ariths)
  then show ?thesis by (auto simp: clear_irq_vector_def cpu_clear_irq_vector_def Let_def)
qed

lemma write_eoi_idle:
  assumes "lapic_wf (lapics w this)" "rr_set lapic_rr_isr (lapics w this) = {}"
  shows "lapic_write_eoi this w = Some w"
  using lapic_msb [OF assms(1), of lapic_rr_isr] assms(2) by (simp add: lapic_write_eoi_def)

lemma rr_test_and_clear:
  assumes "v < 256"
  shows "bit_test_and_clear_atomic_rr v rr l =
    (unat v \<in> rr_set rr l, bit_clear_atomic_rr v rr l)"
  using assms by (auto simp: rr_ops_eq rr_set_def rr_member_def word_less_nat_alt)

lemma write_eoi_busy:
  assumes "lapic_wf (lapics w this)" "rr_set lapic_rr_isr (lapics w this) \<noteq> {}"
    and "Max (rr_set lapic_rr_isr (lapics w this)) \<notin> rr_set lapic_rr_tmr (lapics w this)"
  defines "v \<equiv> Max (rr_set lapic_rr_isr (lapics w this))"
  shows "\<exists>w'. lapic_write_eoi this w = Some w' \<and>
     lapics w' = (lapics w)(this := lapic_ended (of_nat v) (lapics w this)) \<and>
     cur_vcpu w' = cur_vcpu w \<and>
     get_cpu w' =
       (if msb_rr_cluster lapic_rr_isr (of_nat v)
             (bit_clear_atomic_rr (of_nat v) lapic_rr_isr (lapics w this)) = 0
        then the (cpu_clear_irq_vector (of_nat v + 16) (get_cpu w)) else get_cpu w)"
proof -
  let ?l = "lapics w this"
  have v: "v \<in> rr_set lapic_rr_isr ?l" unfolding v_def by (rule Max_rr_in [OF assms(2)])
  have v256: "v < 256" "32 \<le> v" using v rr_set_less assms(1) by (auto simp: lapic_wf_def)
  note vw = of_nat_256 [OF v256(1)]
  have gt: "(15 :: word_t) < of_nat v" using vw v256 by (simp add: word_less_nat_alt)
  have m: "msb_rr lapic_rr_isr ?l = Some (of_nat v)"
    using lapic_msb [OF assms(1)] assms(2) by (simp add: v_def)
  define w1 where "w1 = upd_lapic this (bit_clear_atomic_rr (of_nat v) lapic_rr_isr) w"
  have w1: "upd_lapic this (\<lambda>_. bit_clear_atomic_rr (of_nat v) lapic_rr_isr ?l) w = w1"
    by (simp add: w1_def upd_lapic_def)
  obtain c where cc: "cpu_clear_irq_vector (of_nat v + 16) (get_cpu w1) = Some c"
    and c: "clear_irq_vector (of_nat v + 16) w1 = Some (upd_cpu (\<lambda>_. c) w1)"
    using clear_irq_vector_apic vw by blast
  define w2 where "w2 = (if msb_rr_cluster lapic_rr_isr (of_nat v) (lapics w1 this) = 0
    then upd_cpu (\<lambda>_. c) w1 else w1)"
  have l1: "lapics w1 this = bit_clear_atomic_rr (of_nat v) lapic_rr_isr ?l"
    by (simp add: w1_def)
  have w2: "lapics w2 = lapics w1" "cur_vcpu w2 = cur_vcpu w"
    by (simp_all add: w2_def w1_def)
  have nt: "v \<notin> rr_set lapic_rr_tmr (lapics w2 this)"
    using assms(3) vw by (simp add: w2 w1_def rr_set_other v_def [symmetric])
  have "lapic_write_eoi this w =
      Some (upd_lapic this (\<lambda>_. bit_clear_atomic_rr (of_nat v) lapic_rr_tmr (lapics w2 this)) w2)"
    using m gt v vw nt
    by (cases "msb_rr_cluster lapic_rr_isr (of_nat v) (lapics w1 this) = 0")
      (simp_all add: lapic_write_eoi_def rr_test_and_clear w1 w2_def c l1 Let_def lapic_get_pin_def
        lapic_get_ioapic_def)
  moreover have "the (cpu_clear_irq_vector (of_nat v + 16) (get_cpu w)) = c"
    using cc by (simp add: w1_def)
  ultimately show ?thesis by (simp add: w2 w2_def w1_def lapic_ended_def)
qed

section \<open>Sequences of operations\<close>

text \<open>
  Every sequence of operations on one local APIC, together with the stack of the vectors that the
  processor is serving: a delivered vector is pushed, an end of interrupt pops, and a vector that
  is raised again because its delivery was abandoned leaves the stack. The interrupts are
  edge triggered and use the vectors that the architecture leaves for interrupts.
\<close>

inductive lapic_run :: "nat \<Rightarrow> nat list \<Rightarrow> 'w apic_wedge_scheme \<Rightarrow> bool" for this where
  start: "(\<And>rr. rr_set rr (lapics w this) = {}) \<Longrightarrow>
    lapic_get_id (lapics w this) = of_nat (cur_vcpu w) \<Longrightarrow> lapic_run this [] w"
| raise: "lapic_run this st w \<Longrightarrow> 32 \<le> v \<Longrightarrow> v < 256 \<Longrightarrow>
    lapic_raise_vector this v irq False False 0 w = Some w' \<Longrightarrow> lapic_run this st w'"
| reraise: "lapic_run this st w \<Longrightarrow> 32 \<le> v \<Longrightarrow> v < 256 \<Longrightarrow>
    lapic_raise_vector this v irq True False 0 w = Some w' \<Longrightarrow>
    lapic_run this (removeAll (unat v) st) w'"
| deliver: "lapic_run this st w \<Longrightarrow> lapic_pending_vector this w = Some ((v, Some irq), w') \<Longrightarrow>
    lapic_run this (unat v # st) w'"
| nothing: "lapic_run this st w \<Longrightarrow> lapic_pending_vector this w = Some ((v, None), w') \<Longrightarrow>
    lapic_run this st w'"
| eoi: "lapic_run this st w \<Longrightarrow> lapic_write_eoi this w = Some w' \<Longrightarrow> lapic_run this (tl st) w'"

definition lapic_nested :: "nat \<Rightarrow> nat list \<Rightarrow> 'w apic_wedge_scheme \<Rightarrow> bool" where
  "lapic_nested this st w \<longleftrightarrow>
     set st = rr_set lapic_rr_isr (lapics w this) \<and>
     sorted_wrt (\<lambda>a b. b div 16 < a div 16) st \<and>
     rr_set lapic_rr_tmr (lapics w this) = {} \<and> lapic_wf (lapics w this) \<and>
     lapic_get_id (lapics w this) = of_nat (cur_vcpu w)"

lemma lapic_raised_tmr:
  assumes "v < 256"
  shows "rr_set lapic_rr_tmr (lapic_raised v irq r False f l) = rr_set lapic_rr_tmr l"
proof -
  have "rr_set lapic_rr_tmr (l(0x101 + k := x)) = rr_set lapic_rr_tmr l" for l k x
    by (rule rr_set_frame) auto
  then show ?thesis using assms by (simp add: lapic_raised_def Let_def rr_set_other)
qed

lemma lapic_nested_raise:
  assumes "lapic_nested this st w" "32 \<le> v" "v < 256"
    and "lapic_raise_vector this v irq r False 0 w = Some w'"
  shows "lapic_nested this (if r then removeAll (unat v) st else st) w'"
proof -
  have gt: "15 < v" using assms(2) by (auto simp: word_less_nat_alt word_le_nat_alt)
  from raise_vector_eq [OF gt assms(3), of this irq r False 0 w] assms(4) have
    eq: "lapics w' this = lapic_raised v irq r False 0 (lapics w this)" "cur_vcpu w' = cur_vcpu w"
    by auto
  have "32 \<le> unat v" using assms(2) by (simp add: word_le_nat_alt)
  then show ?thesis
    using assms(1,3)
    by (auto simp: lapic_nested_def eq lapic_raised_sets lapic_raised_tmr lapic_wf_def
        removeAll_filter_not_eq intro: sorted_wrt_filter)
qed

lemma lapic_nested_deliver:
  assumes "lapic_nested this st w" "lapic_pending_vector this w = Some ((v, Some irq), w')"
  shows "lapic_nested this (unat v # st) w'"
proof -
  let ?l = "lapics w this"
  note nest = assms(1) [unfolded lapic_nested_def]
  have d: "lapic_deliverable ?l"
    using lapic_pending_no [of w this] nest assms(2) by fastforce
  define m where "m = Max (rr_set lapic_rr_irr ?l)"
  have I: "m \<in> rr_set lapic_rr_irr ?l"
    unfolding m_def using d by (intro Max_rr_in) (simp add: lapic_deliverable_def)
  have m: "m < 256" "32 \<le> m" using I rr_set_less nest by (auto simp: lapic_wf_def)
  have eq: "v = of_nat m" "w' = upd_lapic this (lapic_claim (of_nat m)) w"
    using lapic_pending_yes [OF _ d] nest assms(2) by (auto simp: m_def)
  show ?thesis
    using nest d of_nat_256 [OF m(1)] m(2) unfolding eq
    by (auto simp: lapic_nested_def lapic_claim_sets lapic_wf_def lapic_deliverable_def m_def)
qed

lemma descending_classes:
  "sorted_wrt (\<lambda>a b. b div 16 < (a :: nat) div 16) (v # st) \<Longrightarrow> Max (set (v # st)) = v"
  by (rule Max_eqI) (auto simp: less_imp_le dest!: bspec div_le_mono [of _ _ 16] simp flip: not_le)

lemma lapic_nested_eoi:
  assumes "lapic_nested this st w" "lapic_write_eoi this w = Some w'"
  shows "lapic_nested this (tl st) w'"
proof (cases st)
  case Nil
  then show ?thesis using assms write_eoi_idle [of w this] by (simp add: lapic_nested_def)
next
  case (Cons v st')
  note nest = assms(1) [unfolded lapic_nested_def]
  have mx: "Max (rr_set lapic_rr_isr (lapics w this)) = v" and ne: "rr_set lapic_rr_isr (lapics w this) \<noteq> {}"
    using nest descending_classes [of v st'] Cons by auto
  have v: "v < 256" using nest Cons rr_set_less [of v lapic_rr_isr] by auto
  have eq: "lapics w' = (lapics w)(this := lapic_ended (of_nat v) (lapics w this))"
    "cur_vcpu w' = cur_vcpu w"
    using write_eoi_busy [of w this] nest ne assms(2) by (auto simp: mx)
  have "v \<notin> set st'" using nest Cons by auto
  then show ?thesis
    using nest Cons of_nat_256 [OF v] by (auto simp: lapic_nested_def eq lapic_ended_sets lapic_wf_def)
qed

lemma lapic_run_nested: "lapic_run this st w \<Longrightarrow> lapic_nested this st w"
proof (induction rule: lapic_run.induct)
  case (start w)
  then show ?case by (simp add: lapic_nested_def lapic_wf_def)
next
  case (raise st w v irq w')
  then show ?case using lapic_nested_raise [of this st w v irq False w'] by simp
next
  case (reraise st w v irq w')
  then show ?case using lapic_nested_raise [of this st w v irq True w'] by simp
next
  case (deliver st w v irq w')
  then show ?case by (rule_tac lapic_nested_deliver)
next
  case (nothing st w v w')
  then show ?case
    using lapic_pending_no [of w this] lapic_pending_yes [of w this]
    by (cases "lapic_deliverable (lapics w this)") (auto simp: lapic_nested_def)
next
  case (eoi st w w')
  then show ?case by (rule_tac lapic_nested_eoi)
qed

lemma descending_length:
  "sorted_wrt (\<lambda>a b. b div 16 < (a :: nat) div 16) st \<Longrightarrow> \<forall>v \<in> set st. 32 \<le> v \<Longrightarrow>
   st \<noteq> [] \<Longrightarrow> length st + 1 \<le> hd st div 16"
proof (induction st)
  case (Cons v st)
  then show ?case
  proof (cases st)
    case (Cons u st')
    with Cons.IH Cons.prems show ?thesis by fastforce
  qed (use Cons.prems div_le_mono [of 32 v 16] in simp)
qed simp

text \<open>
  C8: Interrupts nest. After every sequence of raised, abandoned, delivered and ended interrupts
  the vectors in service are exactly those delivered and not yet ended, every one has a higher
  priority class than the one it interrupted, at most 14 are nested, neither the next
  poll nor the next end of interrupt panics, and an end of interrupt always ends the vector
  delivered last.
\<close>

theorem lapic_interrupts_nest:
  assumes "lapic_run this st w"
  shows "set st = rr_set lapic_rr_isr (lapics w this) \<and> sorted_wrt (\<lambda>a b. b div 16 < a div 16) st \<and>
     length st \<le> 14 \<and> lapic_pending_vector this w \<noteq> None \<and>
     (\<exists>w'. lapic_write_eoi this w = Some w' \<and>
           rr_set lapic_rr_isr (lapics w' this) = set (tl st) \<and>
           rr_set lapic_rr_irr (lapics w' this) = rr_set lapic_rr_irr (lapics w this))"
proof -
  note nest = lapic_run_nested [OF assms, unfolded lapic_nested_def]
  have "length st \<le> 14"
  proof (cases st)
    case (Cons v st')
    then have "v < 256" "length st + 1 \<le> v div 16"
      using nest rr_set_less [of v lapic_rr_isr] descending_length [of st] by (auto simp: lapic_wf_def)
    then show ?thesis by auto
  qed simp
  moreover have "lapic_pending_vector this w \<noteq> None"
    using lapic_pending_no [of w this] lapic_pending_yes [of w this] nest
    by (cases "lapic_deliverable (lapics w this)") auto
  moreover have "\<exists>w'. lapic_write_eoi this w = Some w' \<and>
      rr_set lapic_rr_irr (lapics w' this) = rr_set lapic_rr_irr (lapics w this)"
  proof (cases "st = []")
    case True
    then show ?thesis using write_eoi_idle [of w this] nest by simp
  next
    case False
    then have ne: "rr_set lapic_rr_isr (lapics w this) \<noteq> {}" using nest by auto
    show ?thesis
      using write_eoi_busy [of w this] ne nest of_nat_256 [OF rr_set_less [OF Max_rr_in [OF ne]]]
      by (auto simp: lapic_ended_sets)
  qed
  ultimately show ?thesis
    using nest lapic_nested_eoi [OF lapic_run_nested [OF assms]] by (fastforce simp: lapic_nested_def)
qed

theorem lapic_interrupts_nest_witness:
  "\<exists>irq w'. lapic_run 0 [0x31] w' \<and> lapic_pending_vector 0 w' \<noteq> None \<and>
     rr_set lapic_rr_isr (lapics (w' :: apic_wedge) 0) = {0x31}"
proof -
  have s0: "lapic_run 0 [] (boot_apic 1)"
    using lapic_init_id [of 0] by (intro lapic_run.start) (simp_all add: boot_apic_def lapic_init_sets)
  obtain w1 where w1: "lapic_raise_vector 0 0x31 256 False False 0 (boot_apic 1) = Some w1"
      "lapics w1 = (lapics (boot_apic 1))(0 := lapic_raised 0x31 256 False False 0 (lapics (boot_apic 1) 0))"
    using raise_vector_eq [of "0x31" 0 256 False False 0 "boot_apic 1"] by auto
  have s1: "lapic_run 0 [] w1" by (rule lapic_run.raise [OF s0 _ _ w1(1)]) simp_all
  note nest = lapic_run_nested [OF s1, unfolded lapic_nested_def]
  have irr: "rr_set lapic_rr_irr (lapics w1 0) = {0x31}"
    by (simp add: w1(2) lapic_raised_sets boot_apic_def lapic_init_sets)
  then have "lapic_deliverable (lapics w1 0)" using nest by (simp add: lapic_deliverable_def)
  from lapic_pending_yes [OF _ this] nest irr obtain irq w2 where
    w2: "lapic_pending_vector 0 w1 = Some ((0x31, Some irq), w2)" by auto
  have "lapic_run 0 [0x31] w2" using lapic_run.deliver [OF s1 w2] by simp
  with lapic_interrupts_nest [OF this] show ?thesis by auto
qed

section \<open>The interrupt controller contract\<close>

text \<open>Serving an interrupt: taking it from the local APIC of the current VCPU and ending it.\<close>

definition lapic_serve :: "'w apic_wedge_scheme \<Rightarrow> nat option \<times> 'w apic_wedge_scheme" where
  "lapic_serve w =
     (case lapic_pending_vector (cur_vcpu w) w of
        Some ((v, Some irq), w1) \<Rightarrow>
          (case lapic_write_eoi (cur_vcpu w1) w1 of Some w2 \<Rightarrow> (Some (unat v), w2) | None \<Rightarrow> (None, w1))
      | _ \<Rightarrow> (None, w))"

definition lapic_idle :: "'w apic_wedge_scheme \<Rightarrow> bool" where
  "lapic_idle w \<longleftrightarrow> lapic_nested (cur_vcpu w) [] w"

lemma lapic_idle_alt:
  "lapic_idle w \<longleftrightarrow> rr_set lapic_rr_isr (get_lapic w) = {} \<and> rr_set lapic_rr_tmr (get_lapic w) = {} \<and>
     lapic_wf (get_lapic w) \<and> lapic_get_id (get_lapic w) = of_nat (cur_vcpu w)"
  by (auto simp: lapic_idle_def lapic_nested_def get_lapic_def)

lemma lapic_serve_yes:
  assumes "lapic_idle w" "rr_set lapic_rr_irr (get_lapic w) \<noteq> {}"
  shows "\<exists>w'. lapic_serve w = (Some (Max (rr_set lapic_rr_irr (get_lapic w))), w') \<and> lapic_idle w' \<and>
     rr_set lapic_rr_irr (get_lapic w') =
       rr_set lapic_rr_irr (get_lapic w) - {Max (rr_set lapic_rr_irr (get_lapic w))}"
proof -
  let ?c = "cur_vcpu w"
  define m where "m = Max (rr_set lapic_rr_irr (lapics w ?c))"
  note idle = assms(1) [unfolded lapic_idle_def]
  note n = idle [unfolded lapic_nested_def]
  have m: "m < 256"
    using assms(2) rr_set_less [OF Max_rr_in] by (simp add: m_def get_lapic_def del: Max_less_iff)
  define w1 where "w1 = upd_lapic ?c (lapic_claim (of_nat m)) w"
  have "lapic_deliverable (lapics w ?c)"
    using n assms(2) by (auto simp: lapic_deliverable_def get_lapic_def)
  from lapic_pending_yes [OF _ this] n obtain irq where
    p: "lapic_pending_vector ?c w = Some ((of_nat m, Some irq), w1)" by (auto simp: w1_def m_def)
  have n1: "lapic_nested ?c [m] w1"
    using lapic_nested_deliver [OF idle p] of_nat_256 [OF m] by simp
  note n1' = n1 [unfolded lapic_nested_def]
  have isr1: "rr_set lapic_rr_isr (lapics w1 ?c) = {m}" using n1' by auto
  have c1: "cur_vcpu w1 = ?c" by (simp add: w1_def)
  from n1' have "lapic_wf (lapics w1 ?c)" "rr_set lapic_rr_tmr (lapics w1 ?c) = {}" by auto
  with write_eoi_busy [of w1 ?c, unfolded isr1] obtain w2 where
    w2: "lapic_write_eoi ?c w1 = Some w2" "cur_vcpu w2 = ?c"
      "lapics w2 = (lapics w1)(?c := lapic_ended (of_nat m) (lapics w1 ?c))"
    by (auto simp: c1)
  have "lapic_idle w2" using lapic_nested_eoi [OF n1 w2(1)] w2(2) by (simp add: lapic_idle_def)
  moreover have "lapic_serve w = (Some m, w2)"
    using p w2 of_nat_256 [OF m] by (simp add: lapic_serve_def w1_def)
  moreover have "rr_set lapic_rr_irr (lapics w2 ?c) = rr_set lapic_rr_irr (lapics w ?c) - {m}"
    using of_nat_256 [OF m] by (simp add: w2 lapic_ended_sets w1_def lapic_claim_sets)
  ultimately show ?thesis by (simp add: get_lapic_def m_def w2)
qed

interpretation lapic_ctl: int_controller lapic_idle "\<lambda>w. rr_set lapic_rr_irr (get_lapic w)"
    lapic_serve "\<lambda>v. - int v"
proof
  show "inj (\<lambda>v. - int v)" by (simp add: inj_def)
  fix s :: "'a apic_wedge_scheme"
  show "finite (rr_set lapic_rr_irr (get_lapic s))" by simp
  show "fst (lapic_serve s) = None" if "lapic_idle s" "rr_set lapic_rr_irr (get_lapic s) = {}"
    using that lapic_pending_no [of s "cur_vcpu s"]
    by (auto simp: lapic_serve_def lapic_idle_alt get_lapic_def lapic_deliverable_def)
  show "\<exists>n s'. lapic_serve s = (Some n, s') \<and> lapic_idle s' \<and> n \<in> rr_set lapic_rr_irr (get_lapic s) \<and>
      (\<forall>m \<in> rr_set lapic_rr_irr (get_lapic s). - int n \<le> - int m) \<and>
      rr_set lapic_rr_irr (get_lapic s') = rr_set lapic_rr_irr (get_lapic s) - {n}"
    if "lapic_idle s" "rr_set lapic_rr_irr (get_lapic s) \<noteq> {}"
    using lapic_serve_yes [OF that] Max_rr_in [OF that(2)] by auto
qed

text \<open>
  C15: Serving the local APIC until it is empty. Starting with nothing in service, at most 256
  rounds of taking and ending an interrupt serve every requested vector exactly once, in
  descending order of the vector.
\<close>

theorem lapic_serves_all_requests:
  assumes "lapic_idle w"
  shows "set (fst (lapic_ctl.drain 256 w)) = rr_set lapic_rr_irr (get_lapic w) \<and>
         sorted_wrt (>) (fst (lapic_ctl.drain 256 w))"
proof -
  have "card (rr_set lapic_rr_irr (get_lapic w)) \<le> card {..<256 :: nat}"
    by (rule card_mono) (auto dest: rr_set_less)
  with lapic_ctl.drain_all [OF assms, of 256] show ?thesis by simp
qed

theorem lapic_serves_all_requests_witness:
  "set (fst (lapic_ctl.drain 256 (upd_lapic 0 (bit_set_atomic_rr 0x31 lapic_rr_irr)
     (upd_lapic 0 (bit_set_atomic_rr 0x45 lapic_rr_irr) (boot_apic 1))))) = {0x31, 0x45}"
proof -
  define w where "w = upd_lapic 0 (bit_set_atomic_rr 0x31 lapic_rr_irr)
     (upd_lapic 0 (bit_set_atomic_rr 0x45 lapic_rr_irr) (boot_apic 1))"
  have l: "get_lapic w = bit_set_atomic_rr 0x31 lapic_rr_irr
      (bit_set_atomic_rr 0x45 lapic_rr_irr (lapic_init 0 True))" "cur_vcpu w = 0"
    by (simp_all add: w_def boot_apic_def get_lapic_def)
  have "rr_set lapic_rr_irr (get_lapic w) = {0x31, 0x45}" "lapic_idle w"
    using lapic_init_id [of 0 True]
    by (simp_all add: l lapic_idle_alt rr_set_update rr_set_other lapic_init_sets lapic_fields_frame
        lapic_wf_def)
  with lapic_serves_all_requests [of w] show ?thesis unfolding w_def by simp
qed

end
