(* ===== verification/Int_Routing.thy ===== *)
theory Int_Routing
  imports Apic_Protocol
begin

text \<open>
  From an interrupt source to the processor: the pair of 8259As implements a set of pending
  interrupts, inter-processor interrupts reach the right local APICs, and what the word of
  pending clusters does and does not record.
\<close>

section \<open>The pair of 8259As as a set of pending interrupts\<close>

definition pic_pair_inv :: "'w apic_wedge_scheme \<Rightarrow> bool" where
  "pic_pair_inv w \<longleftrightarrow> pic_inv 0 (master w) w \<and> pic_inv 8 (slave w) w"

definition pic_pair_irqs :: "'w apic_wedge_scheme \<Rightarrow> nat set" where
  "pic_pair_irqs w = pic_pending (master w) \<union> (\<lambda>n. n + 8) ` pic_pending (slave w)"

text \<open>The abstract interrupt logic: a set, from which the lowest number is taken.\<close>

definition spec_take :: "nat set \<Rightarrow> nat option \<times> nat set" where
  "spec_take P = (if P = {} then (None, {}) else (Some (Min P), P - {Min P}))"

definition spec_raise :: "nat \<Rightarrow> bool \<Rightarrow> nat set \<Rightarrow> nat set" where
  "spec_raise irq masked P = (if masked then P else insert irq P)"

definition pic_pair_masked :: "nat \<Rightarrow> 'w apic_wedge_scheme \<Rightarrow> bool" where
  "pic_pair_masked irq w =
     (if irq < 8 then bit (irq_mask (master w)) irq else bit (irq_mask (slave w)) (irq - 8))"

lemma pic_wedge_frame [simp]:
  "get_irq_vectors (w\<lparr>master := p\<rparr>) = get_irq_vectors w"
  "get_irq_vectors (w\<lparr>slave := p\<rparr>) = get_irq_vectors w"
  by (simp_all add: get_irq_vectors_def get_cpu_def)

lemma pic_inv_wedge [simp]:
  "pic_inv b q (w\<lparr>master := p\<rparr>) = pic_inv b q w" "pic_inv b q (w\<lparr>slave := p\<rparr>) = pic_inv b q w"
  by (simp_all add: pic_inv_def pic_flagged_def)

lemma pic_inv_other_flag:
  assumes "pic_inv b p w" "n \<noteq> unat b div 8"
  shows "pic_inv b p (flag_upd (unset_bit n) w)" "pic_inv b p (flag_upd (set_bit n) w)"
  using assms by (auto simp: pic_inv_def pic_flagged_def bit_unset_bit_iff intro: bit_set_bit_mono)

lemma pic_wedge_flag_upd [simp]:
  "master (hw_upd k f w) = master w" "slave (hw_upd k f w) = slave w"
  by (simp_all add: hw_upd_def)

text \<open>Polling one controller of the pair.\<close>

lemma poll_nothing:
  assumes "pic_pending p = {}" "pic_base b"
  shows "\<exists>w'. (if irq_request p \<noteq> 0 then i8259a_pending_vector b p w else Some (None, p, w)) =
           Some (None, p, w') \<and> (w' = w \<or> w' = flag_upd (unset_bit (unat b div 8)) w)"
  using assms by (simp add: pending_vector_None pic_base_less)

lemma poll_something:
  assumes "pic_pending p \<noteq> {}" "pic_inv b p w" "pic_base b"
  defines "n \<equiv> Min (pic_pending p)"
  shows "\<exists>v w'. i8259a_pending_vector b p w = Some (Some (v, of_nat n + b), pic_take n p, w') \<and>
           (w' = w \<or> w' = flag_upd (unset_bit (unat b div 8)) w) \<and> pic_inv b (pic_take n p) w' \<and>
           irq_request p \<noteq> 0 \<and> n < 8"
proof -
  have n: "n \<in> pic_pending p" unfolding n_def using assms(1) by (intro Min_in) auto
  then have "n < 8" using assms(2) by (auto simp: pic_inv_def dest: pic_pending_less)
  moreover have "irq_request p \<noteq> 0" using n by (auto simp: pic_pending_def')
  moreover note eq = pending_vector_Some [OF assms(1) pic_base_less [OF assms(3)], of w, folded n_def]
  moreover have "pic_inv b (pic_take n p)
      (if pic_pending p = {n} then flag_upd (unset_bit (unat b div 8)) w else w)"
    by (rule pic_inv_claim [OF assms(2,3) eq])
  ultimately show ?thesis by auto
qed

lemma Min_union_below:
  fixes A B :: "nat set"
  assumes "finite A" "A \<noteq> {}" "finite B" "\<forall>a \<in> A. \<forall>b \<in> B. a < b"
  shows "Min (A \<union> B) = Min A"
proof (rule Min_eqI)
  show "Min A \<le> y" if "y \<in> A \<union> B" for y
    using that assms Min_in [of A] by (metis Min_le Un_iff less_imp_le)
qed (use assms in auto)

lemma Min_shift: "finite A \<Longrightarrow> A \<noteq> {} \<Longrightarrow> Min ((\<lambda>n. n + 8) ` A) = Min A + (8 :: nat)"
  by (rule Min_eqI) auto

lemma image_shift_diff: "(\<lambda>n. n + (8 :: nat)) ` (A - {m}) = (\<lambda>n. n + 8) ` A - {m + 8}"
  by auto

lemma pic_pair_poll:
  assumes "pic_pair_inv w"
  shows "\<exists>r w'. pic_pair_pending_vector w = Some (r, w') \<and> pic_pair_inv w' \<and>
           spec_take (pic_pair_irqs w) = (map_option (unat \<circ> snd) r, pic_pair_irqs w')"
proof (cases "pic_pending (master w) = {}")
  case False
  define n where "n = Min (pic_pending (master w))"
  have inv: "pic_inv 0 (master w) w" "pic_inv 8 (slave w) w"
    using assms by (simp_all add: pic_pair_inv_def)
  from poll_something [OF False inv(1)] obtain v w1 where
    p: "i8259a_pending_vector 0 (master w) w = Some (Some (v, of_nat n), pic_take n (master w), w1)"
      "w1 = w \<or> w1 = flag_upd (unset_bit 0) w" "pic_inv 0 (pic_take n (master w)) w1"
      "irq_request (master w) \<noteq> 0" "n < 8"
    by (auto simp: pic_base_def n_def)
  have s: "slave w1 = slave w" "pic_inv 8 (slave w) w1"
    using p(2) inv(2) pic_inv_other_flag [OF inv(2), of 0] by auto
  have sep: "\<forall>a \<in> pic_pending (master w). \<forall>b \<in> (\<lambda>n. n + 8) ` pic_pending (slave w). a < b"
    using inv(1) by (auto simp: pic_inv_def dest!: pic_pending_less)
  have m: "Min (pic_pair_irqs w) = n"
    unfolding pic_pair_irqs_def n_def by (rule Min_union_below) (use False sep in auto)
  have nm: "n \<in> pic_pending (master w)" unfolding n_def using False by (intro Min_in) auto
  have "spec_take (pic_pair_irqs w) = (Some n, pic_pair_irqs (w1\<lparr>master := pic_take n (master w)\<rparr>))"
    using False sep nm unfolding spec_take_def m
    by (auto simp: pic_pair_irqs_def s pic_take_pending)
  moreover have "pic_pair_pending_vector w =
      Some (Some (v, of_nat n), w1\<lparr>master := pic_take n (master w)\<rparr>)"
    using p by (simp add: pic_pair_pending_vector_def)
  ultimately show ?thesis
    using p s by (simp add: pic_pair_inv_def unat_of_nat)
next
  case True
  have inv: "pic_inv 0 (master w) w" "pic_inv 8 (slave w) w"
    using assms by (simp_all add: pic_pair_inv_def)
  from poll_nothing [OF True, of 0 w] obtain w1 where
    p: "(if irq_request (master w) \<noteq> 0 then i8259a_pending_vector 0 (master w) w
         else Some (None, master w, w)) = Some (None, master w, w1)"
      "w1 = w \<or> w1 = flag_upd (unset_bit 0) w"
    by (auto simp: pic_base_def)
  define w2 where "w2 = w1\<lparr>master := master w\<rparr>"
  have step: "(if irq_request (master w) \<noteq> 0 then do {
        (r, p, w) \<leftarrow> i8259a_pending_vector 0 (master w) w; Some (r, w\<lparr>master := p\<rparr>) }
      else Some (None, w)) = Some (None, w2)"
    using p by (auto simp: w2_def split: if_splits)
  have s: "slave w2 = slave w" "master w2 = master w" "pic_inv 8 (slave w) w2" "pic_inv 0 (master w) w2"
    using p(2) inv pic_inv_other_flag [OF inv(2), of 0] True
    by (auto simp: w2_def pic_inv_def pic_flagged_def)
  show ?thesis
  proof (cases "pic_pending (slave w) = {}")
    case False
    define n where "n = Min (pic_pending (slave w))"
    from poll_something [OF False s(3)] obtain v w3 where
      q: "i8259a_pending_vector 8 (slave w) w2 = Some (Some (v, of_nat n + 8), pic_take n (slave w), w3)"
        "w3 = w2 \<or> w3 = flag_upd (unset_bit 1) w2" "pic_inv 8 (pic_take n (slave w)) w3"
        "irq_request (slave w) \<noteq> 0" "n < 8"
      by (auto simp: pic_base_def n_def)
    have t: "master w3 = master w" "pic_inv 0 (master w) w3"
      using q(2) s pic_inv_other_flag [OF s(4), of 1] by auto
    have u: "unat (of_nat n + 8 :: word_t) = n + 8"
      using q(5) by (simp add: unat_word_ariths unat_of_nat)
    have "spec_take (pic_pair_irqs w) = (Some (n + 8), pic_pair_irqs (w3\<lparr>slave := pic_take n (slave w)\<rparr>))"
      using False True t by (simp add: spec_take_def pic_pair_irqs_def Min_shift n_def
          pic_take_pending image_shift_diff)
    moreover have "pic_pair_pending_vector w =
        Some (Some (v, of_nat n + 8), w3\<lparr>slave := pic_take n (slave w)\<rparr>)"
      using q s unfolding pic_pair_pending_vector_def step by simp
    ultimately show ?thesis using q t u by (simp add: pic_pair_inv_def)
  next
    case empty: True
    from poll_nothing [OF empty, of 8 w2] obtain w3 where
      q: "(if irq_request (slave w) \<noteq> 0 then i8259a_pending_vector 8 (slave w) w2
           else Some (None, slave w, w2)) = Some (None, slave w, w3)"
        "w3 = w2 \<or> w3 = flag_upd (unset_bit 1) w2"
      by (auto simp: pic_base_def)
    have "pic_pair_pending_vector w = Some (None, w3\<lparr>slave := slave w\<rparr>)"
      using q s unfolding pic_pair_pending_vector_def step by (auto split: if_splits)
    moreover have "master w3 = master w" using q s by auto
    ultimately show ?thesis
      using True empty inv
      by (auto simp: pic_pair_inv_def pic_inv_def pic_flagged_def spec_take_def pic_pair_irqs_def)
  qed
qed

lemma pic_pair_raise:
  assumes "pic_pair_inv w" "irq < 16"
  shows "\<exists>w'. intlogic_raise_irq False irq w = Some w' \<and> pic_pair_inv w' \<and>
     pic_pair_irqs w' = spec_raise (unat irq) (pic_pair_masked (unat irq) w) (pic_pair_irqs w)"
proof (cases "irq < 8")
  case True
  define w0 where "w0 = hw_upd HW_MASK (set_bit (unat irq)) w"
  have inv: "pic_inv 0 (master w0) w0" "pic_inv 8 (slave w0) w0"
    using assms(1) by (simp_all add: pic_pair_inv_def w0_def)
  have w0: "set_hwirq_mask irq w = Some w0"
    using True by (simp add: hwirq_ops_small w0_def word_less_nat_alt)
  have n: "unat irq < 8" "unat irq mod 8 = unat irq" using True by (simp_all add: word_less_nat_alt)
  have r: "i8259a_raise_irq irq 0 (master w0) w0 =
      Some (master w0\<lparr>irq_request := set_bit (unat irq) (irq_request (master w0))\<rparr>,
        (if bit (irq_mask (master w0)) (unat irq) then id else flag_upd (set_bit 0))
          (hw_upd HW_MASK (set_bit (unat irq)) w0))" (is "_ = Some (?p, ?w')")
    using raise_irq_eq [of 0 irq "master w0" w0] True n by (simp add: pic_base_def)
  have "pic_inv 0 ?p ?w'" by (rule pic_inv_raise [OF inv(1) _ _ r]) (use True in \<open>simp_all add: pic_base_def\<close>)
  moreover have "pic_inv 8 (slave w0) ?w'"
    using inv(2) pic_inv_other_flag(2) [of 8 "slave w0" "hw_upd HW_MASK (set_bit (unat irq)) w0" 0] by auto
  moreover have "intlogic_raise_irq False irq w = Some (?w'\<lparr>master := ?p\<rparr>)"
    using w0 True r by (simp add: intlogic_raise_irq_def pic_raise_irq_def)
  moreover have "slave ?w' = slave w0" "master w0 = master w" "slave w0 = slave w"
    by (simp_all add: w0_def)
  ultimately show ?thesis
    using n by (auto simp: pic_pair_inv_def pic_pair_irqs_def spec_raise_def pic_pair_masked_def
        pic_request_pending)
next
  case False
  define w0 where "w0 = hw_upd HW_MASK (set_bit (unat irq)) w"
  have inv: "pic_inv 0 (master w0) w0" "pic_inv 8 (slave w0) w0"
    using assms(1) by (simp_all add: pic_pair_inv_def w0_def)
  have w0: "set_hwirq_mask irq w = Some w0"
    using assms(2) by (simp add: hwirq_ops_small w0_def word_less_nat_alt)
  have b: "8 \<le> unat irq" "unat irq < 16" using False assms(2) by (simp_all add: word_less_nat_alt)
  have n: "unat irq mod 8 = unat irq - 8"
    using b by (simp add: mod_if [of "unat irq"])
  have ge: "(8 :: word_t) \<le> irq" using b by (simp add: word_le_nat_alt)
  have lt: "irq - 8 < 8" using b by (simp add: word_less_nat_alt unat_sub [OF ge])
  have r: "i8259a_raise_irq irq 8 (slave w0) w0 =
      Some (slave w0\<lparr>irq_request := set_bit (unat irq - 8) (irq_request (slave w0))\<rparr>,
        (if bit (irq_mask (slave w0)) (unat irq - 8) then id else flag_upd (set_bit 1))
          (hw_upd HW_MASK (set_bit (unat irq)) w0))" (is "_ = Some (?p, ?w')")
    using raise_irq_eq [of 8 irq "slave w0" w0] lt n by (simp add: pic_base_def)
  have "pic_inv 8 ?p ?w'" by (rule pic_inv_raise [OF inv(2) _ lt r]) (simp add: pic_base_def)
  moreover have "pic_inv 0 (master w0) ?w'"
    using inv(1) pic_inv_other_flag(2) [of 0 "master w0" "hw_upd HW_MASK (set_bit (unat irq)) w0" 1] by auto
  moreover have "intlogic_raise_irq False irq w = Some (?w'\<lparr>slave := ?p\<rparr>)"
    using w0 False assms(2) r by (simp add: intlogic_raise_irq_def pic_raise_irq_def)
  moreover have "master ?w' = master w0" "master w0 = master w" "slave w0 = slave w"
    by (simp_all add: w0_def)
  moreover have "unat irq - 8 < 32" "unat irq - 8 + 8 = unat irq" using b by simp_all
  ultimately show ?thesis
    using b False by (auto simp: pic_pair_inv_def pic_pair_irqs_def spec_raise_def pic_pair_masked_def
        pic_request_pending)
qed

lemma raise_irq_ok:
  assumes "pic_pair_inv w" "irq < 16"
  obtains w' where "intlogic_raise_irq False irq w = Some w'" "pic_pair_inv w'"
  using pic_pair_raise [OF assms] by auto

lemma intlogic_poll:
  assumes "pic_pair_inv w"
  shows "\<exists>r w'. intlogic_pending_vector False w = Some (r, w') \<and> pic_pair_inv w' \<and>
            spec_take (pic_pair_irqs w) = (map_option (unat \<circ> snd) r, pic_pair_irqs w')"
proof (cases "get_irq_vectors w = 0")
  case True
  then have "pic_pending (master w) = {}" "pic_pending (slave w) = {}"
    using assms by (auto simp: pic_pair_inv_def pic_inv_def pic_flagged_def)
  then show ?thesis
    using True assms by (simp add: intlogic_pending_vector_def spec_take_def pic_pair_irqs_def)
next
  case False
  then show ?thesis using pic_pair_poll [OF assms] by (simp add: intlogic_pending_vector_def)
qed

text \<open>
  C9: The interrupt logic over the pair of 8259As implements a set of pending interrupts. Without
  an APIC, a poll takes the lowest pending interrupt out of the set and reports its number,
  and reports nothing exactly if the set is empty; raising one of the sixteen interrupts
  inserts it, unless its line is masked. Both always succeed and keep the invariant, so this
  holds along every sequence of raises and polls.
\<close>

theorem intlogic_refines_pending_set:
  assumes "pic_pair_inv w"
  shows "(\<exists>r w'. intlogic_pending_vector False w = Some (r, w') \<and> pic_pair_inv w' \<and>
            spec_take (pic_pair_irqs w) = (map_option (unat \<circ> snd) r, pic_pair_irqs w')) \<and>
         (irq < 16 \<longrightarrow> (\<exists>w'. intlogic_raise_irq False irq w = Some w' \<and> pic_pair_inv w' \<and>
            pic_pair_irqs w' = spec_raise (unat irq) (pic_pair_masked (unat irq) w) (pic_pair_irqs w)))"
  using intlogic_poll [OF assms] pic_pair_raise [OF assms] by blast

lemma boot_pic_pair: "pic_pair_inv (boot_apic n)" "pic_pair_irqs (boot_apic n) = {}"
proof -
  have "pic_pending i8259a_init = {}" by (simp add: pic_pending_def i8259a_init_def)
  then show "pic_pair_inv (boot_apic n)" "pic_pair_irqs (boot_apic n) = {}"
    using pic_inv_init [of 0 "boot_apic n"] pic_inv_init [of 8 "boot_apic n"]
    by (simp_all add: pic_pair_inv_def pic_pair_irqs_def boot_apic_def)
qed

theorem intlogic_refines_pending_set_witness:
  "\<exists>w'. intlogic_raise_irq False 3 ((boot_apic 1)\<lparr>master := i8259a_init\<lparr>irq_mask := 0\<rparr>\<rparr>) = Some w' \<and>
     pic_pair_irqs w' = {3}"
proof -
  define w where "w = (boot_apic 1)\<lparr>master := i8259a_init\<lparr>irq_mask := 0\<rparr>\<rparr>"
  have p: "pic_pending (i8259a_init\<lparr>irq_mask := 0\<rparr>) = {}"
    by (simp add: pic_pending_def i8259a_init_def)
  have "pic_inv 0 (master w) w" using p
    by (simp add: w_def pic_inv_def pic_flagged_def pic_wf_def i8259a_init_def)
  then have "pic_pair_inv w" "pic_pair_irqs w = {}"
    using boot_pic_pair [of 1] p by (simp_all add: w_def pic_pair_inv_def pic_pair_irqs_def)
  with intlogic_refines_pending_set [of w 3] show ?thesis
    by (auto simp: spec_raise_def pic_pair_masked_def w_def)
qed

section \<open>Ending one interrupt hides another one\<close>

lemma cluster_of_vector:
  assumes "32 \<le> v" "v < 256"
  shows "push_bit 3 (msb v) AND NOT 0x1f = (32 :: word_t)"
proof -
  have nz: "v \<noteq> 0" using assms(1) by auto
  have "unat (msb v) < 8"
    using msb_bit [OF nz] assms(2) by (auto simp: bits_less_256 bits_def)
  moreover have "\<not> unat (msb v) < 5"
  proof
    assume "unat (msb v) < 5"
    then have "bits v \<subseteq> {..<5}"
      using unat_msb [OF nz] Max_ge [OF finite_bits, of _ v]
      by (metis le_less_trans lessThan_iff subsetI)
    then have "take_bit 5 v = v" by (intro bit_word_eqI) (auto simp: bit_take_bit_iff bits_def)
    then have "unat v < 2 ^ 5" by (metis take_bit_nat_less_exp unsigned_take_bit_eq)
    with assms(1) show False by (simp add: word_le_nat_alt)
  qed
  ultimately have "unat (msb v) = 5 \<or> unat (msb v) = 6 \<or> unat (msb v) = 7" by auto
  then have "msb v = 5 \<or> msb v = 6 \<or> msb v = 7"
    by (metis unat_eq_of_nat of_nat_numeral)
  moreover have "push_bit 3 5 AND NOT 0x1f = (32 :: word_t)" "push_bit 3 6 AND NOT 0x1f = (32 :: word_t)"
    "push_bit 3 7 AND NOT 0x1f = (32 :: word_t)"
    by (code_simp, code_simp, code_simp)
  ultimately show ?thesis by metis
qed

lemma msb_rr_cluster_none:
  assumes "32 \<le> v" "v < 256" "rr_set rr l = {}"
  shows "msb_rr_cluster rr v l = 0"
proof -
  have "l (rr_index rr + 4) = 0"
  proof (rule bit_word_eqI)
    fix n
    assume "n < LENGTH(32)"
    then have "32 + n \<notin> rr_set rr l" "32 + n < 256" using assms(3) by auto
    moreover have "(32 + n) div 32 = 1" using \<open>n < LENGTH(32)\<close> by simp
    ultimately show "bit (l (rr_index rr + 4)) n = bit 0 n"
      using \<open>n < LENGTH(32)\<close> by (simp add: rr_set_def rr_member_def)
  qed
  moreover have "unat (sb_to_raw rr 32) = rr_index rr + 4"
    using sb_to_raw_index [of 32 rr] by simp
  ultimately show ?thesis
    unfolding msb_rr_cluster_def cluster_of_vector [OF assms(1,2)] by (simp add: Let_def)
qed

text \<open>
  C19: An end of interrupt can hide a pending one. Let one vector be in service and let its cluster
  of eight vectors be the only one flagged in the CPU, while another vector of the same cluster
  is requested. The end of interrupt finds nothing else in service and clears the cluster bit: the
  request stays in the local APIC, but the word of pending clusters is zero and the poll of the
  interrupt logic reports no interrupt.
\<close>

theorem eoi_hides_pending_vector:
  assumes "lapic_wf (get_lapic w)" "rr_set lapic_rr_isr (get_lapic w) = {s}"
    and "rr_set lapic_rr_tmr (get_lapic w) = {}" "s < 240"
    and "get_irq_vectors w = set_bit ((s + 16) div 8) 0"
    and "r \<in> rr_set lapic_rr_irr (get_lapic w)" "r div 8 = s div 8"
  shows "\<exists>w'. lapic_write_eoi (cur_vcpu w) w = Some w' \<and>
     r \<in> rr_set lapic_rr_irr (get_lapic w') \<and> get_irq_vectors w' = 0 \<and>
     intlogic_pending_vector True w' = Some (None, w')"
proof -
  let ?l = "lapics w (cur_vcpu w)"
  have s: "32 \<le> s" "s < 256" using assms(1,2) by (auto simp: lapic_wf_def dest: rr_set_less)
  note sw = of_nat_256 [OF s(2)]
  have ge: "(32 :: word_t) \<le> of_nat s" using s sw by (simp add: word_le_nat_alt)
  have none: "msb_rr_cluster lapic_rr_isr (of_nat s) (bit_clear_atomic_rr (of_nat s) lapic_rr_isr ?l) = 0"
    using sw assms(2) by (intro msb_rr_cluster_none ge) (simp_all add: rr_set_update get_lapic_def)
  from write_eoi_busy [of w "cur_vcpu w"] assms(1-3) none obtain w' where
    w': "lapic_write_eoi (cur_vcpu w) w = Some w'" "cur_vcpu w' = cur_vcpu w"
      "lapics w' = (lapics w)(cur_vcpu w := lapic_ended (of_nat s) ?l)"
      "get_cpu w' = the (cpu_clear_irq_vector (of_nat s + 16) (get_cpu w))"
    by (auto simp: get_lapic_def)
  have u: "unat (of_nat s + 16 :: word_t) = s + 16"
    using s by (simp add: unat_word_ariths unat_of_nat)
  then have lt: "(of_nat s + 16 :: word_t) < 256" using assms(4) by (simp add: word_less_nat_alt)
  have "cpu_clear_irq_vector (of_nat s + 16) (get_cpu w) =
      Some (get_cpu w\<lparr>cpu_irq_vectors := unset_bit ((s + 16) div 8) (cpu_irq_vectors (get_cpu w))\<rparr>)"
    using cluster_small [OF lt] bt_offset_cluster [OF lt] u by (simp add: cpu_clear_irq_vector_def)
  then have z: "get_irq_vectors w' = 0"
    using w'(4) assms(5) by (simp add: get_irq_vectors_def) (auto intro!: bit_word_eqI simp: bit_simps)
  then have "intlogic_pending_vector True w' = Some (None, w')"
    by (simp add: intlogic_pending_vector_def)
  then show ?thesis
    using w' z assms(6) sw by (simp add: get_lapic_def lapic_ended_sets)
qed

theorem eoi_hides_pending_vector_witness:
  "\<exists>w'. lapic_write_eoi 0 (upd_lapic 0 (bit_set_atomic_rr 0x33 lapic_rr_isr \<circ>
       bit_set_atomic_rr 0x31 lapic_rr_irr) (flag_upd (set_bit 8) (boot_apic 1))) = Some w' \<and>
     0x31 \<in> rr_set lapic_rr_irr (get_lapic w') \<and> intlogic_pending_vector True w' = Some (None, w')"
proof -
  define w where "w = upd_lapic 0 (bit_set_atomic_rr 0x33 lapic_rr_isr \<circ>
       bit_set_atomic_rr 0x31 lapic_rr_irr) (flag_upd (set_bit 8) (boot_apic 1))"
  have l: "get_lapic w = bit_set_atomic_rr 0x33 lapic_rr_isr
      (bit_set_atomic_rr 0x31 lapic_rr_irr (lapic_init 0 True))" "cur_vcpu w = 0"
    by (simp_all add: w_def boot_apic_def get_lapic_def)
  have "get_irq_vectors (boot_apic 1) = 0" by code_simp
  then have "get_irq_vectors w = set_bit 8 0" by (simp add: w_def)
  moreover have "rr_set lapic_rr_irr (get_lapic w) = {0x31}" "rr_set lapic_rr_isr (get_lapic w) = {0x33}"
    "rr_set lapic_rr_tmr (get_lapic w) = {}" "lapic_wf (get_lapic w)"
    by (simp_all add: l rr_set_update rr_set_other lapic_init_sets lapic_wf_def)
  ultimately show ?thesis
    unfolding w_def [symmetric] using eoi_hides_pending_vector [of w "0x33" "0x31"] l(2) by auto
qed

section \<open>Inter-processor interrupts\<close>

lemma bits_below: "n < 32 \<Longrightarrow> bits (shl1 n - 1) = {..<unat n}"
proof -
  assume "n < 32"
  then have "shl1 n = 2 ^ unat n" by (simp add: shl1_def word_less_nat_alt push_bit_eq_mult)
  then have "shl1 n - 1 = mask (unat n)" by (simp add: mask_eq_exp_minus_1)
  then show ?thesis using \<open>n < 32\<close> by (auto simp: bits_def bit_mask_iff word_less_nat_alt)
qed

lemma fold_ipi_fixed:
  assumes "distinct ds" "\<forall>d \<in> set ds. d < unat (nr_vcpus w)" "nr_vcpus w < 32" "15 < v" "v < 256"
  shows "\<exists>w'. fold (\<lambda>n. ipi_fixed_step v (of_nat n)) ds (Some w) = Some w' \<and>
     lapics w' = (\<lambda>i. if i \<in> set ds then lapic_raised v INTLOGIC_INVALID_IRQ False False 0 (lapics w i)
                      else lapics w i) \<and>
     cur_vcpu w' = cur_vcpu w \<and> (\<forall>i. i \<noteq> cur_vcpu w \<longrightarrow> vcpus w' i = vcpus w i) \<and>
     nr_vcpus w' = nr_vcpus w"
  using assms(1,2,3)
proof (induction ds arbitrary: w)
  case Nil
  then show ?case by simp
next
  case (Cons d ds)
  have d: "d < unat (nr_vcpus w)" "unat (nr_vcpus w) < 32"
    using Cons.prems by (auto simp: word_less_nat_alt)
  then have dd: "unat (of_nat d :: word_t) = d" "of_nat d < nr_vcpus w"
    by (simp_all add: unat_of_nat word_less_nat_alt)
  obtain s where s: "set_irq_vector (v + 16) w = Some s"
    using set_irq_vector_apic [OF assms(5)] by blast
  from raise_vector_eq [OF assms(4,5), of d INTLOGIC_INVALID_IRQ False False 0 w] s
  obtain w1 where w1: "lapic_raise_vector d v INTLOGIC_INVALID_IRQ False False 0 w = Some w1"
      "lapics w1 = (lapics w)(d := lapic_raised v INTLOGIC_INVALID_IRQ False False 0 (lapics w d))"
      "vcpus w1 = vcpus s" "cur_vcpu w1 = cur_vcpu w" "nr_vcpus w1 = nr_vcpus w"
    by auto
  have "\<exists>w'. fold (\<lambda>n. ipi_fixed_step v (of_nat n)) ds (Some w1) = Some w' \<and>
     lapics w' = (\<lambda>i. if i \<in> set ds then lapic_raised v INTLOGIC_INVALID_IRQ False False 0 (lapics w1 i)
                      else lapics w1 i) \<and>
     cur_vcpu w' = cur_vcpu w1 \<and> (\<forall>i. i \<noteq> cur_vcpu w1 \<longrightarrow> vcpus w' i = vcpus w1 i) \<and>
     nr_vcpus w' = nr_vcpus w1"
    by (rule Cons.IH) (use Cons.prems w1 in auto)
  moreover have "ipi_fixed_step v (of_nat d) (Some w) = Some w1"
    using dd w1 by (simp add: ipi_fixed_step_def)
  ultimately show ?case
    using Cons.prems w1 set_irq_vector_frame(11) [OF s] by (auto intro!: ext)
qed

lemma icrlo_fields_get:
  "getf 0 8 (icrlo_fields n x) = getf 0 8 n" "getf 8 3 (icrlo_fields n x) = getf 8 3 n"
  "getf 18 2 (icrlo_fields n x) = getf 18 2 n"
  by (simp_all add: icrlo_fields_def Let_def getf_putf_same getf_putf_other getf_def [of _ _ n])

text \<open>
  C17: A fixed inter-processor interrupt to all other processors. Writing the command register with
  the shorthand "all excluding self" never panics and requests the vector in the local APIC of
  every other VCPU and in no other one; but it flags only the sending CPU: no other VCPU's state
  changes, so that none of the destinations' words of pending clusters records the vector.
\<close>

theorem ipi_all_excluding_self:
  assumes "lapic_get_id (lapics w this) = of_nat this" "this < unat (nr_vcpus w)" "nr_vcpus w < 32"
    and "getf 18 2 v = 3" "getf 8 3 v = 0" "15 < getf 0 8 v"
  shows "\<exists>w'. lapic_write_icrlo this v w = Some w' \<and>
     (\<forall>i. rr_set lapic_rr_irr (lapics w' i) =
        (if i < unat (nr_vcpus w) \<and> i \<noteq> this
         then insert (unat (getf 0 8 v)) (rr_set lapic_rr_irr (lapics w i))
         else rr_set lapic_rr_irr (lapics w i))) \<and>
     (\<forall>i. i \<noteq> cur_vcpu w \<longrightarrow> vcpus w' i = vcpus w i)"
proof -
  define n where "n = unat (nr_vcpus w)"
  have n: "this < n" "n < 32" using assms(2,3) by (simp_all add: n_def word_less_nat_alt)
  define w1 where "w1 = upd_lapic this (\<lambda>l. l(0xC0 := icrlo_fields v (l 0xC0))) w"
  define m where "m = (shl1 (nr_vcpus w) - 1) AND NOT (shl1 (of_nat this))"
  have fr: "rr_set rr (l(0xC0 := x)) = rr_set rr l" for rr l x
    by (rule rr_set_frame) (cases rr; simp)
  have id: "lapic_get_id (lapics w1 this) = of_nat this"
    using assms(1) by (simp add: w1_def lapic_get_id_def)
  have bm: "bits m = {..<n} - {this}"
  proof -
    have "{..<n} \<inter> ({..<32} - {this}) = {..<n} - {this}" using n by auto
    then show ?thesis
      using bits_below [OF assms(3)] n by (simp add: m_def n_def bitset_simps bt_offset_of_nat)
  qed
  have "shl1 (nr_vcpus w) \<noteq> 0"
    using bits_shl1 [of "nr_vcpus w"] by (metis bits_eq_empty insert_not_empty)
  then have "shl1 (nr_vcpus w) - 1 < shl1 (nr_vcpus w)"
    by (simp add: word_less_nat_alt unat_minus_one) (simp add: unat_gt_0)
  then have small: "\<not> shl1 (nr_vcpus w) \<le> m"
    unfolding m_def not_le by (metis word_and_le2 le_less_trans)
  have dest: "ipi_dest_mask this (lapics w1 this 0xC0) w1 = Some m"
    using assms(4) id by (simp add: ipi_dest_mask_def Let_def m_def w1_def icrlo_fields_get)
  have v: "getf 0 8 v < 256" using getf_less [of 8 0 v] by (simp add: word_less_nat_alt)
  have "\<exists>w'. fold (\<lambda>n. ipi_fixed_step (getf 0 8 v) (of_nat n)) (sorted_list_of_set (bits m)) (Some w1) =
      Some w' \<and>
     lapics w' = (\<lambda>i. if i \<in> set (sorted_list_of_set (bits m))
       then lapic_raised (getf 0 8 v) INTLOGIC_INVALID_IRQ False False 0 (lapics w1 i) else lapics w1 i) \<and>
     cur_vcpu w' = cur_vcpu w1 \<and> (\<forall>i. i \<noteq> cur_vcpu w1 \<longrightarrow> vcpus w' i = vcpus w1 i) \<and>
     nr_vcpus w' = nr_vcpus w1"
    by (rule fold_ipi_fixed) (use assms v in \<open>auto simp: bm w1_def n_def\<close>)
  then obtain w' where
    w': "while_lsb (ipi_fixed_step (getf 0 8 v)) m (Some w1) = Some w'"
      "lapics w' = (\<lambda>i. if i < n \<and> i \<noteq> this
         then lapic_raised (getf 0 8 v) INTLOGIC_INVALID_IRQ False False 0 (lapics w1 i) else lapics w1 i)"
      "\<forall>i. i \<noteq> cur_vcpu w \<longrightarrow> vcpus w' i = vcpus w i"
    by (auto simp: while_lsb_fold bm w1_def)
  have "lapic_write_icrlo this v w = Some w'"
    using w' dest small assms(3,5)
    by (simp add: lapic_write_icrlo_def w1_def [symmetric] icrlo_fields_get)
      (simp add: w1_def icrlo_fields_get)
  then show ?thesis
    using w'(2,3) v by (auto simp: w1_def n_def fr lapic_raised_sets)
qed

theorem ipi_all_excluding_self_witness:
  "\<exists>w'. lapic_write_icrlo 0 0xC00FD (boot_apic 2) = Some w' \<and>
     0xFD \<in> rr_set lapic_rr_irr (lapics w' 1) \<and> vcpus w' 1 = vcpus (boot_apic 2) 1"
proof -
  have g: "getf 18 2 0xC00FD = (3 :: word_t)" "getf 8 3 0xC00FD = (0 :: word_t)"
    "getf 0 8 0xC00FD = (0xFD :: word_t)"
    by (code_simp, code_simp, code_simp)
  have "lapic_get_id (lapics (boot_apic 2) 0) = of_nat 0" "nr_vcpus (boot_apic 2) = 2"
    "cur_vcpu (boot_apic 2) = 0"
    using lapic_init_id [of 0 True] by (simp_all add: boot_apic_def)
  with ipi_all_excluding_self [of "boot_apic 2" 0 "0xC00FD"] g show ?thesis by auto
qed

end
