(* ===== verification/Port_Device.thy ===== *)
theory Port_Device
  imports Prelude
begin

text \<open>
  The contract of a device behind I/O ports. The wedge calls a handler for every trapped port
  instruction of the guest; a device keeps the contract when no access to its ports, with any value,
  makes the handler panic and every access keeps the device's invariant. Whatever the guest does with
  the ports, the wedge then survives: the client lemmas are about arbitrary sequences of accesses.
\<close>

text \<open>
  An access is what the handler takes from outside at that moment (the time, for instance), a port, the
  value written, and whether the access is a read.
\<close>

type_synonym 'e port_access = "'e \<times> u16 \<times> u32 \<times> bool"

definition port_run ::
    "('e \<Rightarrow> u16 \<Rightarrow> u32 \<Rightarrow> bool \<Rightarrow> 's \<Rightarrow> (u32 \<times> 's) option) \<Rightarrow> 'e port_access list \<Rightarrow> 's \<Rightarrow>
     (u32 list \<times> 's) option" where
  "port_run portio as s =
     fold (\<lambda>(e, port, val, rd) so. do { (vs, s) \<leftarrow> so; (v, s) \<leftarrow> portio e port val rd s; Some (vs @ [v], s) })
       as (Some ([], s))"

lemma port_run_Nil [simp]: "port_run portio [] s = Some ([], s)"
  by (simp add: port_run_def)

lemma port_run_snoc:
  "port_run portio (as @ [(e, port, val, rd)]) s =
     do { (vs, s) \<leftarrow> port_run portio as s; (v, s) \<leftarrow> portio e port val rd s; Some (vs @ [v], s) }"
  by (simp add: port_run_def)

locale port_device =
  fixes portio :: "'e \<Rightarrow> u16 \<Rightarrow> u32 \<Rightarrow> bool \<Rightarrow> 's \<Rightarrow> (u32 \<times> 's) option"
    and inv :: "'s \<Rightarrow> bool"
  assumes access: "inv s \<Longrightarrow> \<exists>v s'. portio e port val rd s = Some (v, s') \<and> inv s'"
begin

lemma run_survives:
  assumes "inv s"
  shows "\<exists>vs s'. port_run portio as s = Some (vs, s') \<and> inv s' \<and> length vs = length as"
  using assms
proof (induction as rule: rev_induct)
  case (snoc a as)
  obtain e port val rd where a: "a = (e, port, val, rd)" by (metis prod.exhaust)
  from snoc obtain vs s' where run: "port_run portio as s = Some (vs, s')" "inv s'" "length vs = length as"
    by auto
  then obtain v s'' where "portio e port val rd s' = Some (v, s'')" "inv s''"
    using access by blast
  with run a show ?case by (simp add: port_run_snoc)
qed simp

end

end
