(* ===== verification/Serial8250.thy ===== *)
theory Serial8250
  imports Int_Routing Port_Device
begin

text \<open>
  The serial ports: \<^verbatim>\<open>device/8250.cc\<close>, with the receive path that feeds them,
  \<^verbatim>\<open>resourcemon_check_console_rx\<close> of \<^verbatim>\<open>l4ka/resourcemon.h\<close>, and its producer
  \<^verbatim>\<open>vm_t::add_console_rx\<close> of the resource monitor (\<^verbatim>\<open>l4ka-resourcemon/vm.h\<close>). The registers are bytes read
  through \<open>getf\<close> and \<open>putf\<close>; the characters that the ports send are appended to
  \<open>con_out\<close>, newest last.
\<close>

section \<open>Interrupt identification\<close>

record iir_t =
  iir_raw :: u8
  iir_pending :: word_t

datatype int_status_e = modem_status | tx_empty | rcv_data | rcv_line

fun int_status_num :: "int_status_e \<Rightarrow> nat" where
  "int_status_num modem_status = 0"
| "int_status_num tx_empty = 1"
| "int_status_num rcv_data = 2"
| "int_status_num rcv_line = 3"

definition no_interrupt_pending :: "iir_t \<Rightarrow> bool" where
  "no_interrupt_pending i = (getf 0 1 (iir_raw i) \<noteq> 0)"

definition interrupt_status :: "iir_t \<Rightarrow> nat" where
  "interrupt_status i = unat (getf 1 2 (iir_raw i))"

definition set_interrupt_pending :: "int_status_e \<Rightarrow> iir_t \<Rightarrow> bool \<times> iir_t" where
  "set_interrupt_pending status i =
     (if \<not> no_interrupt_pending i then
        (False, i\<lparr>iir_pending := iir_pending i OR push_bit (int_status_num status) 1\<rparr>)
      else
        (True, i\<lparr>iir_raw := putf 0 1 0 (putf 1 2 (of_nat (int_status_num status)) (iir_raw i))\<rparr>))"

definition next_interrupt_pending :: "iir_t \<Rightarrow> bool \<times> iir_t" where
  "next_interrupt_pending i =
     (if iir_pending i \<noteq> 0 then
        (let b = lsb (iir_pending i) in
         (True, i\<lparr>iir_pending := bit_clear b (iir_pending i),
                  iir_raw := putf 0 1 0 (putf 1 2 (ucast b) (iir_raw i))\<rparr>))
      else (False, i\<lparr>iir_raw := putf 0 1 1 (iir_raw i)\<rparr>))"

text \<open>
  The function returns nothing when the status does not match; no caller looks at the result.
\<close>

definition clear_interrupt_pending :: "int_status_e \<Rightarrow> iir_t \<Rightarrow> iir_t" where
  "clear_interrupt_pending status i =
     (let i = i\<lparr>iir_pending := bit_clear (of_nat (int_status_num status)) (iir_pending i)\<rparr> in
      if interrupt_status i = int_status_num status then snd (next_interrupt_pending i) else i)"

section \<open>A serial port\<close>

record serial8250_t =
  ser_port :: u16
  ser_irq :: word_t
  ser_ier :: u8
  ser_iir :: iir_t
  ser_lcr :: u8
  ser_lsr :: u8
  ser_mcr :: u8
  ser_msr :: u8
  ser_fcr :: u8
  dlab_low :: u8
  dlab_high :: u8
  recv_buffer :: u8

definition is_dlab_enabled :: "serial8250_t \<Rightarrow> bool" where
  "is_dlab_enabled d = (getf 7 1 (ser_lcr d) \<noteq> 0)"

definition enable_rcv_data :: "u8 \<Rightarrow> bool" where
  "enable_rcv_data ier = (getf 0 1 ier \<noteq> 0)"

definition enable_tx_empty :: "u8 \<Rightarrow> bool" where
  "enable_tx_empty ier = (getf 1 1 ier \<noteq> 0)"

definition data_ready :: "serial8250_t \<Rightarrow> bool" where
  "data_ready d = (getf 0 1 (ser_lsr d) \<noteq> 0)"

definition base_port :: "u16 \<Rightarrow> u16" where
  "base_port port = port AND NOT 7"

definition reg_addr :: "u16 \<Rightarrow> word_t" where
  "reg_addr port = ucast (port AND 7)"

definition serial8250_init :: "u16 \<Rightarrow> word_t \<Rightarrow> serial8250_t" where
  "serial8250_init port irq =
     \<lparr>ser_port = port, ser_irq = irq, ser_ier = 0, ser_iir = \<lparr>iir_raw = 1, iir_pending = 0\<rparr>,
      ser_lcr = 0, ser_lsr = putf 6 1 1 (putf 5 1 1 0), ser_mcr = 0, ser_msr = putf 4 1 1 (putf 7 1 1 0),
      ser_fcr = 0, dlab_low = 1, dlab_high = 0, recv_buffer = 0\<rparr>"

definition raise_interrupt ::
    "bool \<Rightarrow> int_status_e \<Rightarrow> serial8250_t \<Rightarrow> 'w apic_wedge_scheme \<Rightarrow>
     (serial8250_t \<times> 'w apic_wedge_scheme) option" where
  "raise_interrupt apic status d w =
     (let (now, i) = set_interrupt_pending status (ser_iir d); d = d\<lparr>ser_iir := i\<rparr> in
      if now then do { w \<leftarrow> intlogic_raise_irq apic (ser_irq d) w; Some (d, w) } else Some (d, w))"

definition raise_rx_interrupt ::
    "bool \<Rightarrow> serial8250_t \<Rightarrow> 'w apic_wedge_scheme \<Rightarrow> (serial8250_t \<times> 'w apic_wedge_scheme) option" where
  "raise_rx_interrupt apic d w =
     (if \<not> enable_rcv_data (ser_ier d) then Some (d, w) else raise_interrupt apic rcv_data d w)"

definition disable_rx_interrupt :: "serial8250_t \<Rightarrow> serial8250_t" where
  "disable_rx_interrupt d =
     d\<lparr>ser_ier := putf 0 1 0 (ser_ier d), ser_iir := clear_interrupt_pending rcv_data (ser_iir d)\<rparr>"

definition raise_tx_interrupt ::
    "bool \<Rightarrow> serial8250_t \<Rightarrow> 'w apic_wedge_scheme \<Rightarrow> (serial8250_t \<times> 'w apic_wedge_scheme) option" where
  "raise_tx_interrupt apic d w =
     (if \<not> enable_tx_empty (ser_ier d) then Some (d, w) else raise_interrupt apic tx_empty d w)"

definition disable_tx_interrupt :: "serial8250_t \<Rightarrow> serial8250_t" where
  "disable_tx_interrupt d =
     d\<lparr>ser_ier := putf 1 1 0 (ser_ier d), ser_iir := clear_interrupt_pending tx_empty (ser_iir d)\<rparr>"

section \<open>The four ports and the console\<close>

text \<open>
  \<open>console_rx\<close> holds the bytes of the shared structure \<^verbatim>\<open>IConsole_stream_t\<close>: 128 bytes of
  \<^verbatim>\<open>raw\<close>, followed by the 32-bit \<^verbatim>\<open>len\<close>, so that an index past \<^verbatim>\<open>raw\<close> reaches \<^verbatim>\<open>len\<close>.
\<close>

record serial_ports_t =
  ser_ports :: "nat \<Rightarrow> serial8250_t"
  con_out :: "u8 list"
  console_rx :: memory

definition serial_ports_init :: serial_ports_t where
  "serial_ports_init =
     \<lparr>ser_ports = (\<lambda>n. if n = 0 then serial8250_init 0x3f8 4 else if n = 1 then serial8250_init 0x2f8 3
                      else if n = 2 then serial8250_init 0x3e8 4 else serial8250_init 0x2e8 3),
      con_out = [], console_rx = (\<lambda>_. 0)\<rparr>"

definition set_ser :: "nat \<Rightarrow> serial8250_t \<Rightarrow> serial_ports_t \<Rightarrow> serial_ports_t" where
  "set_ser n d s = s\<lparr>ser_ports := (ser_ports s)(n := d)\<rparr>"

definition serial8250_receive_byte ::
    "bool \<Rightarrow> u8 \<Rightarrow> nat \<Rightarrow> serial_ports_t \<Rightarrow> 'w apic_wedge_scheme \<Rightarrow>
     (serial_ports_t \<times> 'w apic_wedge_scheme) option" where
  "serial8250_receive_byte apic b which s w = do {
     ASSERT (which < 4);
     let d = ser_ports s which;
     if \<not> data_ready d then do {
       let d = d\<lparr>recv_buffer := b, ser_lsr := putf 0 1 1 (ser_lsr d)\<rparr>;
       (d, w) \<leftarrow> raise_rx_interrupt apic d w;
       Some (set_ser which d s, w) }
     else Some (s, w)
   }"

definition IConsole_max_len :: word_t where "IConsole_max_len = 128"

definition rx_len :: "serial_ports_t \<Rightarrow> word_t" where
  "rx_len s = load32 128 (console_rx s)"

definition set_rx_len :: "word_t \<Rightarrow> serial_ports_t \<Rightarrow> serial_ports_t" where
  "set_rx_len n s = s\<lparr>console_rx := store32 128 n (console_rx s)\<rparr>"

definition add_console_rx :: "u8 \<Rightarrow> serial_ports_t \<Rightarrow> serial_ports_t" where
  "add_console_rx b s =
     (if rx_len s \<ge> IConsole_max_len then s
      else (let s = set_rx_len (rx_len s + 1) s in s\<lparr>console_rx := (console_rx s)(rx_len s := b)\<rparr>))"

definition resourcemon_check_console_rx ::
    "bool \<Rightarrow> serial_ports_t \<Rightarrow> 'w apic_wedge_scheme \<Rightarrow> (serial_ports_t \<times> 'w apic_wedge_scheme) option" where
  "resourcemon_check_console_rx apic s w =
     (if rx_len s \<noteq> 0 then do {
        (s, w) \<leftarrow> serial8250_receive_byte apic (console_rx s (rx_len s)) 1 s w;
        Some (set_rx_len (rx_len s - 1) s, w) }
      else Some (s, w))"

definition which_port :: "u16 \<Rightarrow> nat option" where
  "which_port port =
     (if base_port port = 0x3f8 then Some 0 else if base_port port = 0x2f8 then Some 1
      else if base_port port = 0x3e8 then Some 2 else if base_port port = 0x2e8 then Some 3 else None)"

definition serial_read ::
    "bool \<Rightarrow> word_t \<Rightarrow> u32 \<Rightarrow> serial8250_t \<Rightarrow> 'w apic_wedge_scheme \<Rightarrow>
     (u32 \<times> serial8250_t \<times> 'w apic_wedge_scheme) option" where
  "serial_read apic addr val d w =
     (if addr = 0 then
        Some (if is_dlab_enabled d then (ucast (dlab_low d), d, w)
              else (ucast (recv_buffer d), d\<lparr>ser_lsr := putf 0 1 0 (ser_lsr d)\<rparr>, w))
      else if addr = 1 then
        Some (if is_dlab_enabled d then (ucast (dlab_high d), d, w) else (ucast (ser_ier d), d, w))
      else if addr = 2 then do {
        let v = ucast (iir_raw (ser_iir d));
        let (more, i) = next_interrupt_pending (ser_iir d);
        let d = d\<lparr>ser_iir := i\<rparr>;
        w \<leftarrow> (if more then intlogic_raise_irq apic (ser_irq d) w else Some w);
        Some (v, d, w) }
      else if addr = 3 then Some (ucast (ser_lcr d), d, w)
      else if addr = 4 then Some (ucast (ser_mcr d), d, w)
      else if addr = 5 then Some (ucast (ser_lsr d), d, w)
      else if addr = 6 then Some (ucast (ser_msr d), d, w)
      else Some (val, d, w))"

definition write_ier ::
    "bool \<Rightarrow> u8 \<Rightarrow> serial8250_t \<Rightarrow> 'w apic_wedge_scheme \<Rightarrow> (serial8250_t \<times> 'w apic_wedge_scheme) option" where
  "write_ier apic v d w = do {
     let old_ier = ser_ier d;
     let d = d\<lparr>ser_ier := v\<rparr>;
     (d, w) \<leftarrow> (if enable_tx_empty (ser_ier d) \<and> \<not> enable_tx_empty old_ier then raise_tx_interrupt apic d w
                else if \<not> enable_tx_empty (ser_ier d) \<and> enable_tx_empty old_ier then
                  Some (disable_tx_interrupt d, w)
                else Some (d, w));
     if enable_rcv_data (ser_ier d) \<and> \<not> enable_rcv_data old_ier then raise_rx_interrupt apic d w
     else if \<not> enable_rcv_data (ser_ier d) \<and> enable_rcv_data old_ier then Some (disable_rx_interrupt d, w)
     else Some (d, w)
   }"

text \<open>A write to a register; the first component is the character that goes to the console.\<close>

definition serial_write ::
    "bool \<Rightarrow> word_t \<Rightarrow> u8 \<Rightarrow> serial8250_t \<Rightarrow> 'w apic_wedge_scheme \<Rightarrow>
     (u8 list \<times> serial8250_t \<times> 'w apic_wedge_scheme) option" where
  "serial_write apic addr v d w =
     (if addr = 0 then
        (if is_dlab_enabled d then Some ([], d\<lparr>dlab_low := v\<rparr>, w)
         else do { (d, w) \<leftarrow> raise_tx_interrupt apic d w; Some ([v], d, w) })
      else if addr = 1 then
        (if is_dlab_enabled d then Some ([], d\<lparr>dlab_high := v\<rparr>, w)
         else do { (d, w) \<leftarrow> write_ier apic v d w; Some ([], d, w) })
      else if addr = 2 then Some ([], d\<lparr>ser_fcr := v\<rparr>, w)
      else if addr = 3 then Some ([], d\<lparr>ser_lcr := v\<rparr>, w)
      else if addr = 4 then Some ([], d\<lparr>ser_mcr := v\<rparr>, w)
      else Some ([], d, w))"

definition serial8250_portio ::
    "bool \<Rightarrow> u16 \<Rightarrow> u32 \<Rightarrow> bool \<Rightarrow> serial_ports_t \<times> 'w apic_wedge_scheme \<Rightarrow>
     (u32 \<times> serial_ports_t \<times> 'w apic_wedge_scheme) option" where
  "serial8250_portio apic port val read sw =
     (let (s, w) = sw; addr = reg_addr port in
      case which_port port of
        None \<Rightarrow> Some (val, s, w)
      | Some which \<Rightarrow>
          if read then do {
            (v, d, w) \<leftarrow> serial_read apic addr val (ser_ports s which) w;
            Some (v, set_ser which d s, w) }
          else do {
            (out, d, w) \<leftarrow> serial_write apic addr (ucast val) (ser_ports s which) w;
            let s = set_ser which d (s\<lparr>con_out := con_out s @ out\<rparr>);
            (s, w) \<leftarrow> resourcemon_check_console_rx apic s w;
            Some (val, s, w) })"

section \<open>Causes of an interrupt\<close>

text \<open>
  What a port may announce: the indicated cause and the waiting ones are among the causes \<open>C\<close> that the
  guest has enabled, and no cause waits while none is indicated.
\<close>

definition enabled_causes :: "u8 \<Rightarrow> nat set" where
  "enabled_causes ier = (if enable_tx_empty ier then {1} else {}) \<union> (if enable_rcv_data ier then {2} else {})"

definition iir_inv :: "nat set \<Rightarrow> iir_t \<Rightarrow> bool" where
  "iir_inv C i \<longleftrightarrow>
     (if no_interrupt_pending i then iir_pending i = 0 else interrupt_status i \<in> C) \<and>
     bits (iir_pending i) \<subseteq> C \<and> C \<subseteq> {1, 2}"

lemma iir_raw_putf [unfolded One_nat_def, simp]:
  "no_interrupt_pending (i\<lparr>iir_raw := putf 0 1 0 x\<rparr>) = False"
  "no_interrupt_pending (i\<lparr>iir_raw := putf 0 1 1 x\<rparr>) = True"
  "interrupt_status (i\<lparr>iir_raw := putf 0 1 y (putf 1 2 v x)\<rparr>) = unat (take_bit 2 v)"
  "no_interrupt_pending (i\<lparr>iir_pending := p\<rparr>) = no_interrupt_pending i"
  "interrupt_status (i\<lparr>iir_pending := p\<rparr>) = interrupt_status i"
  by (simp_all add: no_interrupt_pending_def interrupt_status_def getf_putf_same getf_putf_other)

lemma iir_inv_mono: "iir_inv C i \<Longrightarrow> C \<subseteq> D \<Longrightarrow> D \<subseteq> {1, 2} \<Longrightarrow> iir_inv D i"
  by (auto simp: iir_inv_def split: if_splits)

lemma bits_single: "n < 32 \<Longrightarrow> bits (2 ^ n :: word_t) = {n}"
  by (auto simp: bit_exp_iff)

lemma iir_inv_set:
  assumes "iir_inv C i" "int_status_num status \<in> C"
  shows "iir_inv C (snd (set_interrupt_pending status i))"
proof -
  have n: "int_status_num status < 32" "take_bit 2 (of_nat (int_status_num status) :: u8) = of_nat (int_status_num status)"
    "unat (of_nat (int_status_num status) :: u8) = int_status_num status"
    by (cases status; simp)+
  then show ?thesis using assms
    by (auto simp: iir_inv_def set_interrupt_pending_def bits_or bits_single)
qed

lemma iir_inv_next:
  assumes "bits (iir_pending i) \<subseteq> C" "C \<subseteq> {1, 2}"
  shows "iir_inv C (snd (next_interrupt_pending i))"
proof (cases "iir_pending i = 0")
  case True
  with assms show ?thesis by (simp add: iir_inv_def next_interrupt_pending_def)
next
  case False
  let ?b = "lsb (iir_pending i)"
  have b: "unat ?b \<in> C" using lsb_bit [OF False] assms(1) by auto
  with assms(2) have "unat ?b = 1 \<or> unat ?b = 2" by auto
  then have "?b = 1 \<or> ?b = 2" by (metis unat_eq_of_nat of_nat_1 of_nat_numeral)
  with b False assms show ?thesis
    by (auto simp: iir_inv_def next_interrupt_pending_def Let_def bit_clear_def bit_simps
        bt_index_small bt_offset_small)
qed

lemma iir_inv_clear:
  assumes "iir_inv C i"
  shows "iir_inv (C - {int_status_num status}) (clear_interrupt_pending status i)"
proof -
  let ?n = "int_status_num status"
  let ?i = "i\<lparr>iir_pending := bit_clear (of_nat ?n) (iir_pending i)\<rparr>"
  have p: "iir_pending ?i = unset_bit ?n (iir_pending i)"
    by (cases status) (simp_all add: bit_clear_def bt_index_small bt_offset_small)
  have C: "bits (iir_pending ?i) \<subseteq> C - {?n}" "C - {?n} \<subseteq> {1, 2}"
    using assms by (auto simp: p iir_inv_def bit_simps)
  show ?thesis
  proof (cases "interrupt_status i = ?n")
    case True
    then show ?thesis using iir_inv_next [OF C] by (simp add: clear_interrupt_pending_def Let_def)
  next
    case False
    have "iir_inv (C - {?n}) ?i"
      using assms C False p by (auto simp: iir_inv_def)
    with False show ?thesis by (simp add: clear_interrupt_pending_def Let_def)
  qed
qed

section \<open>No port access panics\<close>

definition ser_inv :: "serial8250_t \<Rightarrow> bool" where
  "ser_inv d \<longleftrightarrow> iir_inv (enabled_causes (ser_ier d)) (ser_iir d) \<and> ser_irq d < 16"

definition serial_inv :: "serial_ports_t \<times> 'w apic_wedge_scheme \<Rightarrow> bool" where
  "serial_inv sw \<longleftrightarrow> (\<forall>n. ser_inv (ser_ports (fst sw) n)) \<and> pic_pair_inv (snd sw)"

lemma enabled_causes_12: "enabled_causes ier \<subseteq> {1, 2}"
  by (simp add: enabled_causes_def)

lemma raise_interrupt_ok:
  assumes "iir_inv C (ser_iir d)" "int_status_num status \<in> C" "ser_irq d < 16" "pic_pair_inv w"
  shows "\<exists>i w'. raise_interrupt False status d w = Some (d\<lparr>ser_iir := i\<rparr>, w') \<and> iir_inv C i \<and> pic_pair_inv w'"
proof -
  obtain w' where w': "intlogic_raise_irq False (ser_irq d) w = Some w'" "pic_pair_inv w'"
    by (rule raise_irq_ok [OF assms(4,3)])
  show ?thesis using iir_inv_set [OF assms(1,2)] w' assms(4)
    by (cases "set_interrupt_pending status (ser_iir d)") (auto simp: raise_interrupt_def Let_def)
qed

lemma raise_tx_ok:
  assumes "ser_inv d" "pic_pair_inv w"
  shows "\<exists>i w'. raise_tx_interrupt False d w = Some (d\<lparr>ser_iir := i\<rparr>, w') \<and>
     iir_inv (enabled_causes (ser_ier d)) i \<and> pic_pair_inv w'"
proof (cases "enable_tx_empty (ser_ier d)")
  case True
  then show ?thesis
    using raise_interrupt_ok [of "enabled_causes (ser_ier d)" d tx_empty w] assms
    by (simp add: raise_tx_interrupt_def ser_inv_def enabled_causes_def)
next
  case False
  then show ?thesis using assms
    by (intro exI [of _ "ser_iir d"]) (simp add: raise_tx_interrupt_def ser_inv_def)
qed

lemma raise_rx_ok:
  assumes "ser_inv d" "pic_pair_inv w"
  shows "\<exists>i w'. raise_rx_interrupt False d w = Some (d\<lparr>ser_iir := i\<rparr>, w') \<and>
     iir_inv (enabled_causes (ser_ier d)) i \<and> pic_pair_inv w'"
proof (cases "enable_rcv_data (ser_ier d)")
  case True
  then show ?thesis
    using raise_interrupt_ok [of "enabled_causes (ser_ier d)" d rcv_data w] assms
    by (simp add: raise_rx_interrupt_def ser_inv_def enabled_causes_def)
next
  case False
  then show ?thesis using assms
    by (intro exI [of _ "ser_iir d"]) (simp add: raise_rx_interrupt_def ser_inv_def)
qed

text \<open>Programming the interrupt enable register: the transmitter's part, then the receiver's.\<close>

lemma write_ier_tx:
  assumes "iir_inv (enabled_causes old) (ser_iir d)" "ser_irq d < 16" "pic_pair_inv w"
  shows "\<exists>d' w'. (if enable_tx_empty (ser_ier d) \<and> \<not> enable_tx_empty old then raise_tx_interrupt False d w
                else if \<not> enable_tx_empty (ser_ier d) \<and> enable_tx_empty old then
                  Some (disable_tx_interrupt d, w)
                else Some (d, w)) = Some (d', w') \<and>
     iir_inv (enabled_causes old - {1} \<union> (enabled_causes (ser_ier d) \<inter> {1})) (ser_iir d') \<and>
     enabled_causes (ser_ier d') = enabled_causes (ser_ier d) \<and> ser_irq d' = ser_irq d \<and> pic_pair_inv w'"
proof -
  consider (on) "enable_tx_empty (ser_ier d)" "\<not> enable_tx_empty old"
    | (off) "\<not> enable_tx_empty (ser_ier d)" "enable_tx_empty old"
    | (same) "enable_tx_empty (ser_ier d) = enable_tx_empty old" by blast
  then show ?thesis
  proof cases
    case on
    let ?C = "insert 1 (enabled_causes old)"
    have "iir_inv ?C (ser_iir d)"
      by (rule iir_inv_mono [OF assms(1)]) (use enabled_causes_12 [of old] in auto)
    from raise_interrupt_ok [OF this _ assms(2,3), of tx_empty] on show ?thesis
      by (fastforce simp: raise_tx_interrupt_def enabled_causes_def)
  next
    case off
    have "enable_rcv_data (putf 1 1 0 (ser_ier d)) = enable_rcv_data (ser_ier d)"
      "\<not> enable_tx_empty (putf 1 1 0 (ser_ier d))"
      by (simp_all add: enable_rcv_data_def enable_tx_empty_def getf_putf_other getf_putf_same)
    then show ?thesis using off iir_inv_clear [OF assms(1), of tx_empty] assms(3)
      by (simp add: disable_tx_interrupt_def enabled_causes_def)
  next
    case same
    then have "enabled_causes old - {1} \<union> (enabled_causes (ser_ier d) \<inter> {1}) = enabled_causes old"
      by (auto simp: enabled_causes_def)
    then show ?thesis using same assms by simp
  qed
qed

lemma write_ier_rx:
  assumes "iir_inv (enabled_causes old - {1} \<union> (enabled_causes (ser_ier d) \<inter> {1})) (ser_iir d)"
    "ser_irq d < 16" "pic_pair_inv w"
  shows "\<exists>d' w'. (if enable_rcv_data (ser_ier d) \<and> \<not> enable_rcv_data old then raise_rx_interrupt False d w
                else if \<not> enable_rcv_data (ser_ier d) \<and> enable_rcv_data old then
                  Some (disable_rx_interrupt d, w)
                else Some (d, w)) = Some (d', w') \<and> ser_inv d' \<and> pic_pair_inv w'"
proof -
  let ?C = "enabled_causes old - {1} \<union> (enabled_causes (ser_ier d) \<inter> {1})"
  consider (on) "enable_rcv_data (ser_ier d)" "\<not> enable_rcv_data old"
    | (off) "\<not> enable_rcv_data (ser_ier d)" "enable_rcv_data old"
    | (same) "enable_rcv_data (ser_ier d) = enable_rcv_data old" by blast
  then show ?thesis
  proof cases
    case on
    have "?C \<subseteq> enabled_causes (ser_ier d)" using on by (auto simp: enabled_causes_def)
    then have "ser_inv d"
      using iir_inv_mono [OF assms(1) _ enabled_causes_12] assms(2) by (simp add: ser_inv_def)
    from raise_rx_ok [OF this assms(3)] on assms(2) show ?thesis by (auto simp: ser_inv_def)
  next
    case off
    have e: "enable_tx_empty (putf 0 1 0 (ser_ier d)) = enable_tx_empty (ser_ier d)"
      "\<not> enable_rcv_data (putf 0 1 0 (ser_ier d))"
      by (simp_all add: enable_rcv_data_def enable_tx_empty_def getf_putf_other getf_putf_same)
    have "?C - {2} = enabled_causes (putf 0 1 0 (ser_ier d))"
      using e off by (auto simp: enabled_causes_def)
    then show ?thesis using off iir_inv_clear [OF assms(1), of rcv_data] assms(2,3)
      by (simp add: disable_rx_interrupt_def ser_inv_def)
  next
    case same
    then have "?C = enabled_causes (ser_ier d)" by (auto simp: enabled_causes_def)
    then show ?thesis using same assms by (simp add: ser_inv_def)
  qed
qed

lemma write_ier_ok:
  assumes "ser_inv d" "pic_pair_inv w"
  shows "\<exists>d' w'. write_ier False v d w = Some (d', w') \<and> ser_inv d' \<and> pic_pair_inv w'"
proof -
  let ?d = "d\<lparr>ser_ier := v\<rparr>"
  obtain d' w' where tx: "(if enable_tx_empty (ser_ier ?d) \<and> \<not> enable_tx_empty (ser_ier d)
          then raise_tx_interrupt False ?d w
        else if \<not> enable_tx_empty (ser_ier ?d) \<and> enable_tx_empty (ser_ier d) then
          Some (disable_tx_interrupt ?d, w)
        else Some (?d, w)) = Some (d', w')"
      "iir_inv (enabled_causes (ser_ier d) - {1} \<union> (enabled_causes (ser_ier ?d) \<inter> {1})) (ser_iir d')"
      "enabled_causes (ser_ier d') = enabled_causes (ser_ier ?d)" "ser_irq d' = ser_irq ?d" "pic_pair_inv w'"
    using write_ier_tx [of "ser_ier d" ?d w] assms by (auto simp: ser_inv_def)
  from write_ier_rx [of "ser_ier d" d' w'] tx assms(1) show ?thesis
    by (simp add: write_ier_def Let_def ser_inv_def)
qed

lemma ser_inv_frame [simp]:
  "ser_inv (d\<lparr>ser_lsr := x\<rparr>) = ser_inv d" "ser_inv (d\<lparr>ser_lcr := x\<rparr>) = ser_inv d"
  "ser_inv (d\<lparr>ser_mcr := x\<rparr>) = ser_inv d" "ser_inv (d\<lparr>ser_fcr := x\<rparr>) = ser_inv d"
  "ser_inv (d\<lparr>dlab_low := x\<rparr>) = ser_inv d" "ser_inv (d\<lparr>dlab_high := x\<rparr>) = ser_inv d"
  "ser_inv (d\<lparr>recv_buffer := x\<rparr>) = ser_inv d"
  by (simp_all add: ser_inv_def)

lemma serial_read_ok:
  assumes "ser_inv d" "pic_pair_inv w"
  shows "\<exists>v d' w'. serial_read False addr val d w = Some (v, d', w') \<and> ser_inv d' \<and> pic_pair_inv w'"
proof (cases "addr = 2")
  case True
  have "iir_inv (enabled_causes (ser_ier d)) (snd (next_interrupt_pending (ser_iir d)))"
    by (rule iir_inv_next) (use assms(1) in \<open>simp_all add: ser_inv_def iir_inv_def\<close>)
  moreover obtain w' where "intlogic_raise_irq False (ser_irq d) w = Some w'" "pic_pair_inv w'"
    using assms by (auto simp: ser_inv_def intro: raise_irq_ok)
  ultimately show ?thesis using True assms
    by (cases "next_interrupt_pending (ser_iir d)") (auto simp: serial_read_def ser_inv_def Let_def)
next
  case False
  then show ?thesis using assms by (simp add: serial_read_def)
qed

lemma serial_write_ok:
  assumes "ser_inv d" "pic_pair_inv w"
  shows "\<exists>out d' w'. serial_write False addr v d w = Some (out, d', w') \<and> ser_inv d' \<and> pic_pair_inv w'"
proof -
  have "\<exists>d' w'. raise_tx_interrupt False d w = Some (d', w') \<and> ser_inv d' \<and> pic_pair_inv w'"
    using raise_tx_ok [OF assms] assms(1) by (auto simp: ser_inv_def)
  with write_ier_ok [OF assms, of v] assms show ?thesis
    by (auto simp: serial_write_def)
qed

lemma serial_inv_set:
  "serial_inv (s, w) \<Longrightarrow> ser_inv d \<Longrightarrow> pic_pair_inv w' \<Longrightarrow> serial_inv (set_ser n d s, w')"
  by (simp add: serial_inv_def set_ser_def)

lemma serial_inv_frame [simp]:
  "serial_inv (s\<lparr>con_out := x\<rparr>, w) = serial_inv (s, w)"
  "serial_inv (s\<lparr>console_rx := y\<rparr>, w) = serial_inv (s, w)"
  "serial_inv (set_rx_len n s, w) = serial_inv (s, w)"
  "serial_inv (add_console_rx b s, w) = serial_inv (s, w)"
  by (simp_all add: serial_inv_def set_rx_len_def add_console_rx_def Let_def)

lemma receive_byte_ok:
  assumes "serial_inv (s, w)" "which < 4"
  shows "\<exists>sw. serial8250_receive_byte False b which s w = Some sw \<and> serial_inv sw"
proof -
  let ?d = "ser_ports s which"
  have d: "ser_inv (?d\<lparr>recv_buffer := b, ser_lsr := putf 0 1 1 (ser_lsr ?d)\<rparr>)" "pic_pair_inv w"
    using assms(1) by (simp_all add: serial_inv_def)
  have i: "ser_irq ?d < 16" using assms(1) by (simp add: serial_inv_def ser_inv_def)
  from raise_rx_ok [OF d] i assms show ?thesis
    by (auto simp: serial8250_receive_byte_def Let_def ser_inv_def intro!: serial_inv_set [OF assms(1)])
qed

lemma check_console_ok:
  assumes "serial_inv (s, w)"
  shows "\<exists>sw. resourcemon_check_console_rx False s w = Some sw \<and> serial_inv sw"
  using receive_byte_ok [OF assms, of 1 "console_rx s (rx_len s)"] assms
  by (auto simp: resourcemon_check_console_rx_def)

lemma serial_portio_ok:
  assumes "serial_inv sw"
  shows "\<exists>v sw'. serial8250_portio False port val rd sw = Some (v, sw') \<and> serial_inv sw'"
proof (cases "which_port port")
  case None
  then show ?thesis using assms by (cases sw) (simp add: serial8250_portio_def)
next
  case (Some n)
  obtain s w where sw: "sw = (s, w)" by (cases sw)
  have d: "ser_inv (ser_ports s n)" "pic_pair_inv w" using assms sw by (simp_all add: serial_inv_def)
  show ?thesis
  proof (cases rd)
    case True
    with serial_read_ok [OF d, of "reg_addr port" val] Some sw assms show ?thesis
      by (auto simp: serial8250_portio_def intro: serial_inv_set)
  next
    case False
    obtain out d' w' where "serial_write False (reg_addr port) (ucast val) (ser_ports s n) w = Some (out, d', w')"
      "ser_inv d'" "pic_pair_inv w'"
      using serial_write_ok [OF d] by blast
    moreover from this have "serial_inv (set_ser n d' (s\<lparr>con_out := con_out s @ out\<rparr>), w')"
      using assms sw by (intro serial_inv_set) simp_all
    ultimately show ?thesis using check_console_ok False Some sw
      by (fastforce simp: serial8250_portio_def Let_def)
  qed
qed

interpretation uart: port_device "\<lambda>_ :: unit. serial8250_portio False" serial_inv
  by unfold_locales (rule serial_portio_ok)

section \<open>Properties\<close>

text \<open>What happens to the serial ports: port accesses of the guest, and bytes from the console.\<close>

datatype serial_op = PortAccess u16 u32 bool | ConsoleByte u8 | PollConsole

fun serial_step ::
    "serial_op \<Rightarrow> serial_ports_t \<times> 'w apic_wedge_scheme \<Rightarrow> (serial_ports_t \<times> 'w apic_wedge_scheme) option" where
  "serial_step (PortAccess port val rd) sw = do { (_, sw) \<leftarrow> serial8250_portio False port val rd sw; Some sw }"
| "serial_step (ConsoleByte b) (s, w) = Some (add_console_rx b s, w)"
| "serial_step PollConsole (s, w) = resourcemon_check_console_rx False s w"

definition serial_run ::
    "serial_op list \<Rightarrow> serial_ports_t \<times> 'w apic_wedge_scheme \<Rightarrow> (serial_ports_t \<times> 'w apic_wedge_scheme) option" where
  "serial_run ops sw = fold (\<lambda>op so. so \<bind> serial_step op) ops (Some sw)"

lemma serial_step_ok:
  assumes "serial_inv sw"
  shows "\<exists>sw'. serial_step op sw = Some sw' \<and> serial_inv sw'"
proof -
  obtain s w where sw: "sw = (s, w)" by (cases sw)
  show ?thesis
  proof (cases op)
    case (PortAccess port val rd)
    then show ?thesis using uart.access [OF assms, of port val rd] by auto
  next
    case PollConsole
    then show ?thesis using check_console_ok assms sw by simp
  qed (use assms sw in simp)
qed

lemma serial_run_ok:
  assumes "serial_inv sw"
  shows "\<exists>sw'. serial_run ops sw = Some sw' \<and> serial_inv sw'"
  using assms
proof (induction ops rule: rev_induct)
  case (snoc op ops)
  then show ?case using serial_step_ok [of _ op] by (auto simp: serial_run_def)
qed (simp add: serial_run_def)

lemma serial_inv_init: "pic_pair_inv w \<Longrightarrow> serial_inv (serial_ports_init, w)"
proof -
  have "ser_inv (serial8250_init p i)" if "i < 16" for p i
    using that by (simp add: ser_inv_def serial8250_init_def iir_inv_def no_interrupt_pending_def
        getf_def enabled_causes_def enable_tx_empty_def enable_rcv_data_def)
  then show "pic_pair_inv w \<Longrightarrow> serial_inv (serial_ports_init, w)"
    by (simp add: serial_inv_def serial_ports_init_def)
qed

text \<open>
  C32: The serial ports survive everything the guest and the console do to them, and never announce a
  cause that the guest has not enabled. After any sequence of port accesses with any values, bytes
  pushed by the resource monitor and polls, from power-on, no handler has panicked; a port that
  indicates an interrupt indicates an enabled cause, and a port that indicates none has
  no cause waiting.
\<close>

theorem serial_ports_sound:
  assumes "pic_pair_inv w"
  shows "\<exists>s' w'. serial_run ops (serial_ports_init, w) = Some (s', w') \<and> pic_pair_inv w' \<and>
     (\<forall>n. let d = ser_ports s' n in
        if no_interrupt_pending (ser_iir d) then iir_pending (ser_iir d) = 0
        else interrupt_status (ser_iir d) = 1 \<and> enable_tx_empty (ser_ier d) \<or>
             interrupt_status (ser_iir d) = 2 \<and> enable_rcv_data (ser_ier d))"
proof -
  obtain s' w' where run: "serial_run ops (serial_ports_init, w) = Some (s', w')" "serial_inv (s', w')"
    using serial_run_ok [OF serial_inv_init [OF assms], of ops] by auto
  have "if no_interrupt_pending (ser_iir d) then iir_pending (ser_iir d) = 0
        else interrupt_status (ser_iir d) = 1 \<and> enable_tx_empty (ser_ier d) \<or>
             interrupt_status (ser_iir d) = 2 \<and> enable_rcv_data (ser_ier d)" if "ser_inv d" for d
    using that by (auto simp: ser_inv_def iir_inv_def enabled_causes_def split: if_splits)
  moreover have "ser_inv (ser_ports s' n)" for n using run(2) by (simp add: serial_inv_def)
  ultimately show ?thesis using run unfolding serial_inv_def Let_def fst_conv snd_conv by blast
qed

theorem serial_ports_sound_witness:
  "\<exists>s' w'. serial_run [PortAccess 0x2f9 3 False, ConsoleByte 65, PollConsole, PortAccess 0x2fa 0 True]
       (serial_ports_init, boot_apic 1) = Some (s', w') \<and> pic_pair_inv w'"
  using serial_ports_sound [OF boot_pic_pair(1),
      of "[PortAccess 0x2f9 3 False, ConsoleByte 65, PollConsole, PortAccess 0x2fa 0 True]" 1] by blast

section \<open>The console's receive buffer\<close>

lemma rx_len_set [simp]: "rx_len (set_rx_len n s) = n"
  by (simp add: rx_len_def set_rx_len_def load32_store32_same)

lemma rx_len_below:
  assumes "a < 128"
  shows "rx_len (s\<lparr>console_rx := (console_rx s)(a := b)\<rparr>) = rx_len s"
proof -
  have "a \<noteq> 128" "a \<noteq> 129" "a \<noteq> 130" "a \<noteq> 131" using assms by auto
  then show ?thesis by (simp add: rx_len_def load32_def)
qed

lemma set_rx_len_below: "a < 128 \<Longrightarrow> console_rx (set_rx_len n s) a = console_rx s a"
  by (auto simp: set_rx_len_def store32_def)

text \<open>
  The console's receive buffer corrupts its own length. The resource monitor accepts a byte
  as long as fewer than 128 are stored, counts it, and stores it at the index of the new
  count: the 128th byte lands behind the buffer, in the low byte of the length itself.
\<close>

theorem console_rx_overflow:
  assumes "rx_len s = 127"
  shows "rx_len (add_console_rx b s) = ucast b"
proof -
  have "add_console_rx b s =
      set_rx_len 128 s\<lparr>console_rx := (console_rx (set_rx_len 128 s))(128 := b)\<rparr>"
    using assms by (simp add: add_console_rx_def IConsole_max_len_def Let_def)
  then show ?thesis by (simp add: rx_len_def set_rx_len_def load32_def store32_def)
qed

theorem console_rx_overflow_witness:
  "rx_len (add_console_rx 65 (set_rx_len 127 serial_ports_init)) = 65"
  using console_rx_overflow [of "set_rx_len 127 serial_ports_init" 65] by simp

text \<open>A guest that polls the second port without interrupts, and the bytes in the buffer, oldest first.\<close>

definition console_read ::
    "serial_ports_t \<times> 'w apic_wedge_scheme \<Rightarrow> (u32 \<times> serial_ports_t \<times> 'w apic_wedge_scheme) option" where
  "console_read sw = do {
     sw \<leftarrow> resourcemon_check_console_rx False (fst sw) (snd sw);
     serial8250_portio False 0x2f8 0 True sw }"

primrec console_reads ::
    "nat \<Rightarrow> serial_ports_t \<times> 'w apic_wedge_scheme \<Rightarrow> (u32 list \<times> serial_ports_t \<times> 'w apic_wedge_scheme) option" where
  "console_reads 0 sw = Some ([], sw)"
| "console_reads (Suc n) sw = do {
     (v, sw) \<leftarrow> console_read sw;
     (vs, sw) \<leftarrow> console_reads n sw;
     Some (v # vs, sw) }"

definition console_holds :: "u8 list \<Rightarrow> serial_ports_t \<Rightarrow> bool" where
  "console_holds bs s \<longleftrightarrow>
     rx_len s = of_nat (length bs) \<and> length bs < 128 \<and> (\<forall>i < length bs. console_rx s (of_nat (Suc i)) = bs ! i)"

definition polled :: "serial8250_t \<Rightarrow> bool" where
  "polled d \<longleftrightarrow> \<not> data_ready d \<and> \<not> enable_rcv_data (ser_ier d) \<and> \<not> is_dlab_enabled d"

lemma console_index:
  assumes "i < 127"
  shows "unat (of_nat (Suc i) :: word_t) = Suc i" "of_nat (Suc i) < (128 :: word_t)"
proof -
  show u: "unat (of_nat (Suc i) :: word_t) = Suc i"
    using assms by (simp add: unat_of_nat del: of_nat_Suc)
  then show "of_nat (Suc i) < (128 :: word_t)" using assms by (simp add: word_less_nat_alt del: of_nat_Suc)
qed

lemma console_holds_add:
  assumes "console_holds bs s" "length bs < 127"
  shows "console_holds (bs @ [b]) (add_console_rx b s)"
proof -
  let ?n = "of_nat (length bs) + 1 :: word_t"
  have n: "unat ?n = length bs + 1" using assms(2) by (simp add: unat_word_ariths unat_of_nat)
  have lt: "?n < 128" using n assms(2) by (simp add: word_less_nat_alt)
  have "\<not> 128 \<le> (of_nat (length bs) :: word_t)"
    using assms(2) by (simp add: word_le_nat_alt unat_of_nat)
  then have a: "add_console_rx b s = set_rx_len ?n s\<lparr>console_rx := (console_rx (set_rx_len ?n s))(?n := b)\<rparr>"
    using assms(1) by (simp add: add_console_rx_def IConsole_max_len_def console_holds_def Let_def)
  have i: "of_nat (Suc i) < (128 :: word_t)" "of_nat (Suc i) \<noteq> ?n" if "i < length bs" for i
  proof -
    have u: "unat (of_nat (Suc i) :: word_t) = Suc i" using that assms(2) by (intro console_index) simp
    show "of_nat (Suc i) < (128 :: word_t)" using that assms(2) by (intro console_index) simp
    show "of_nat (Suc i) \<noteq> ?n" using u n that by (metis Suc_eq_plus1 nat.inject nat_neq_iff)
  qed
  have "console_rx (add_console_rx b s) (of_nat (Suc i)) = (bs @ [b]) ! i" if "i < Suc (length bs)" for i
  proof (cases "i = length bs")
    case True
    then show ?thesis by (simp add: a add.commute)
  next
    case False
    with that have "i < length bs" by simp
    with i [OF this] assms(1) show ?thesis
      by (simp add: a set_rx_len_below nth_append console_holds_def)
  qed
  moreover have "rx_len (add_console_rx b s) = of_nat (length (bs @ [b]))"
    using rx_len_below [OF lt, of "set_rx_len ?n s" b] by (simp add: a add.commute)
  ultimately show ?thesis using assms(2) by (simp add: console_holds_def)
qed

lemma console_read_last:
  assumes "console_holds (bs @ [b]) s" "polled (ser_ports s 1)"
  shows "\<exists>s'. console_read (s, w) = Some (ucast b, s', w) \<and> console_holds bs s' \<and> polled (ser_ports s' 1)"
proof -
  let ?n = "of_nat (length bs) + 1 :: word_t" and ?d = "ser_ports s 1"
  let ?d' = "?d\<lparr>recv_buffer := b, ser_lsr := putf 0 1 1 (ser_lsr ?d)\<rparr>"
  have len: "rx_len s = ?n" "length bs < 127" and b: "console_rx s ?n = b"
    using assms(1) by (auto simp: console_holds_def add.commute dest: spec [of _ "length bs"])
  have "unat ?n = length bs + 1" using len(2) by (simp add: unat_word_ariths unat_of_nat)
  then have nz: "?n \<noteq> 0" by (metis add_is_0 unat_0 zero_neq_one)
  have rx: "resourcemon_check_console_rx False s w =
      Some (set_rx_len (of_nat (length bs)) (set_ser 1 ?d' s), w)"
    using assms(2) nz len(1) b
    by (simp add: resourcemon_check_console_rx_def serial8250_receive_byte_def raise_rx_interrupt_def
        polled_def Let_def rx_len_def set_ser_def)
  have port: "which_port 0x2f8 = Some 1" "reg_addr 0x2f8 = 0"
    by (simp_all add: which_port_def base_port_def reg_addr_def)
  let ?s' = "set_ser 1 (?d'\<lparr>ser_lsr := putf 0 1 0 (ser_lsr ?d')\<rparr>)
    (set_rx_len (of_nat (length bs)) (set_ser 1 ?d' s))"
  have "console_read (s, w) = Some (ucast b, ?s', w)"
    using rx port assms(2)
    by (simp add: console_read_def serial8250_portio_def serial_read_def polled_def is_dlab_enabled_def
        set_ser_def set_rx_len_def)
  moreover have "polled (ser_ports ?s' 1)"
    using assms(2) by (simp add: polled_def set_ser_def data_ready_def is_dlab_enabled_def getf_putf_same)
  moreover have "console_holds bs ?s'"
  proof -
    have "console_rx ?s' (of_nat (Suc i)) = bs ! i" if "i < length bs" for i
    proof -
      have "of_nat (Suc i) < (128 :: word_t)" using that len(2) by (intro console_index) simp
      then have "console_rx ?s' (of_nat (Suc i)) = console_rx s (of_nat (Suc i))"
        by (simp add: set_ser_def set_rx_len_below)
      then show ?thesis using assms(1) that by (simp add: console_holds_def nth_append)
    qed
    then show ?thesis using len(2) by (simp add: console_holds_def rx_len_def set_ser_def set_rx_len_def load32_store32_same)
  qed
  ultimately show ?thesis by blast
qed

lemma add_console_ports [simp]: "ser_ports (add_console_rx b s) = ser_ports s"
  by (simp add: add_console_rx_def set_rx_len_def Let_def)

lemma console_holds_fold:
  "console_holds cs s \<Longrightarrow> length cs + length bs < 128 \<Longrightarrow>
     console_holds (cs @ bs) (fold add_console_rx bs s) \<and> ser_ports (fold add_console_rx bs s) = ser_ports s"
proof (induction bs arbitrary: cs s)
  case (Cons b bs)
  then show ?case using Cons.IH [OF console_holds_add [OF Cons.prems(1)], of b] by simp
qed simp

lemma console_reads_rev:
  "console_holds bs s \<Longrightarrow> polled (ser_ports s 1) \<Longrightarrow>
     \<exists>s'. console_reads (length bs) (s, w) = Some (map ucast (rev bs), s', w)"
proof (induction bs arbitrary: s rule: rev_induct)
  case (snoc b bs)
  obtain s' where "console_read (s, w) = Some (ucast b, s', w)" "console_holds bs s'" "polled (ser_ports s' 1)"
    using console_read_last [OF snoc.prems, of w] by auto
  then show ?case using snoc.IH [of s'] by auto
qed simp

text \<open>
  Console input arrives in reverse order. The bytes that the resource monitor stores into an
  empty buffer, up to 127 of them, are delivered to a polling guest with the last one first.
\<close>

theorem console_input_reversed:
  assumes "rx_len s = 0" "polled (ser_ports s 1)" "length bs \<le> 127"
  shows "\<exists>s'. console_reads (length bs) (fold add_console_rx bs s, w) = Some (map ucast (rev bs), s', w)"
proof -
  have "console_holds [] s" using assms(1) by (simp add: console_holds_def)
  from console_holds_fold [OF this, of bs] assms(2,3) show ?thesis
    by (intro console_reads_rev) simp_all
qed

theorem console_input_reversed_witness:
  "\<exists>s'. console_reads 3 (fold add_console_rx [76, 52, 65] serial_ports_init, boot_apic 1) =
     Some ([65, 52, 76], s', boot_apic 1)"
proof -
  have "rx_len serial_ports_init = 0" "polled (ser_ports serial_ports_init 1)"
    by (simp_all add: rx_len_def serial_ports_init_def load32_def polled_def serial8250_init_def data_ready_def
        enable_rcv_data_def is_dlab_enabled_def getf_def putf_def)
  from console_input_reversed [OF this, of "[76, 52, 65]" "boot_apic 1"] show ?thesis
    by (simp add: numeral_3_eq_3)
qed

end
