(* ===== verification/Pit.thy ===== *)
theory Pit
  imports Prelude
begin

text \<open>
  The interval timer: \<^verbatim>\<open>device/i8253.h\<close>, \<^verbatim>\<open>device/i8253.cc\<close> and the integer arithmetic of
  \<^verbatim>\<open>l4ka/intmath.h\<close>. The cycle counter that \<^verbatim>\<open>get_cycles\<close> reads and the \<^verbatim>\<open>cpu_hz\<close> of the
  VCPU are arguments; \<open>None\<close> is the failed assertion on \<^verbatim>\<open>cpu_hz\<close> or the trap of a division by
  zero. The PC speaker is not passed through (\<^verbatim>\<open>CONFIG_DEVICE_PASSTHRU_PCSPEAKER\<close> is off).
\<close>

section \<open>Integer arithmetic\<close>

definition muldiv32 :: "u32 \<Rightarrow> u32 \<Rightarrow> u32 \<Rightarrow> u32" where
  "muldiv32 a b c =
     (let n = ucast a * ucast b :: u64 in if c = 0 then 0 else ucast (n div ucast c))"

definition muldiv64 :: "u64 \<Rightarrow> u32 \<Rightarrow> u32 \<Rightarrow> u64 option" where
  "muldiv64 a b c =
     (let low = take_bit 32 a; high = drop_bit 32 a;
          rl = low * ucast b;
          rh = high * ucast b;
          rh = rh + drop_bit 32 rl in do {
        ASSERT (c \<noteq> 0);
        let res_high = (ucast (rh div ucast c) :: u32);
        let res_low = (ucast ((push_bit 32 (rh mod ucast c) + (rl AND 0xffffffff)) div ucast c) :: u32);
        Some (push_bit 32 (ucast res_high) OR ucast res_low)
      })"

section \<open>Counters\<close>

type_synonym i8253_control_t = u8

definition get_read_write_mode :: "i8253_control_t \<Rightarrow> u8" where
  "get_read_write_mode x = getf 4 2 x"

definition get_mode :: "i8253_control_t \<Rightarrow> u8" where
  "get_mode x = getf 1 3 x"

definition is_bcd :: "i8253_control_t \<Rightarrow> bool" where
  "is_bcd x = (getf 0 1 x \<noteq> 0)"

definition is_periodic :: "i8253_control_t \<Rightarrow> bool" where
  "is_periodic x = (get_mode x = 2)"

definition which_counter :: "i8253_control_t \<Rightarrow> nat" where
  "which_counter x = unat (getf 6 2 x)"

record i8253_counter_t =
  control :: i8253_control_t
  first_write :: bool
  start_cycle :: u64
  counter :: u16

definition clock_rate :: word_t where "clock_rate = 1193182"

definition get_usecs :: "i8253_counter_t \<Rightarrow> word_t" where
  "get_usecs ct = muldiv32 (ucast (counter ct)) 1000000 clock_rate"

definition cycles_to_usecs :: "word_t \<Rightarrow> u64 \<Rightarrow> word_t option" where
  "cycles_to_usecs cpu_hz cycles =
     do { ASSERT (cpu_hz \<ge> 1000); Some (muldiv32 (ucast cycles) 1000 cpu_hz) }"

definition get_remaining_count :: "u64 \<Rightarrow> word_t \<Rightarrow> i8253_counter_t \<Rightarrow> word_t option" where
  "get_remaining_count now cpu_hz ct = do {
     delta_usecs \<leftarrow> cycles_to_usecs cpu_hz (now - start_cycle ct);
     let delta_count = muldiv32 delta_usecs clock_rate 1000000;
     if is_periodic (control ct) then do {
       ASSERT (counter ct \<noteq> 0);
       Some (delta_count mod ucast (counter ct)) }
     else if delta_count > ucast (counter ct) then Some 0
     else Some (ucast (counter ct) - delta_count)
   }"

definition get_remaining_usecs :: "u64 \<Rightarrow> word_t \<Rightarrow> i8253_counter_t \<Rightarrow> word_t option" where
  "get_remaining_usecs now cpu_hz ct =
     do { r \<leftarrow> get_remaining_count now cpu_hz ct; Some (r * 1000000 div clock_rate) }"

definition get_out :: "u64 \<Rightarrow> word_t \<Rightarrow> i8253_counter_t \<Rightarrow> word_t option" where
  "get_out now cpu_hz ct = do {
     remaining \<leftarrow> get_remaining_count now cpu_hz ct;
     Some (if get_mode (control ct) = 0 then (if remaining = 0 then 1 else 0)
           else if get_mode (control ct) = 1 then (if remaining > 0 then 1 else 0)
           else NOT 0)
   }"

section \<open>Port access\<close>

record i8253_t =
  counters :: "nat \<Rightarrow> i8253_counter_t"
  register_0x61 :: u8

definition upd_counter :: "nat \<Rightarrow> (i8253_counter_t \<Rightarrow> i8253_counter_t) \<Rightarrow> i8253_t \<Rightarrow> i8253_t" where
  "upd_counter n f p = p\<lparr>counters := (counters p)(n := f (counters p n))\<rparr>"

definition set_lsb :: "u32 \<Rightarrow> i8253_counter_t \<Rightarrow> i8253_counter_t" where
  "set_lsb val ct = ct\<lparr>counter := (counter ct AND 0xff00) OR ucast (0xff AND val)\<rparr>"

definition set_msb :: "u64 \<Rightarrow> u32 \<Rightarrow> i8253_counter_t \<Rightarrow> i8253_counter_t" where
  "set_msb now val ct =
     ct\<lparr>counter := (counter ct AND 0x00ff) OR ucast (push_bit 8 (0xff AND val)), start_cycle := now\<rparr>"

definition counter_write :: "u64 \<Rightarrow> u32 \<Rightarrow> i8253_counter_t \<Rightarrow> i8253_counter_t" where
  "counter_write now val ct =
     (let rw = get_read_write_mode (control ct) in
      if rw = 0 then ct
      else if rw = 1 then set_lsb val ct
      else if rw = 2 then set_msb now val ct
      else (let ct = (if first_write ct then set_lsb val ct else set_msb now val ct)
            in ct\<lparr>first_write := \<not> first_write ct\<rparr>))"

definition i8253_portio ::
    "u64 \<Rightarrow> word_t \<Rightarrow> u16 \<Rightarrow> u32 \<Rightarrow> bool \<Rightarrow> i8253_t \<Rightarrow> (u32 \<times> i8253_t) option" where
  "i8253_portio now cpu_hz port val read p =
     (if port = 0x43 then
        (if read then Some (val, p)
         else (let c = ucast val in
           Some (val, upd_counter (which_counter c) (\<lambda>ct. ct\<lparr>control := c, first_write := True\<rparr>) p)))
      else (let which = ucast port - 0x40 :: u32 in
        if which > 2 then Some (val, p)
        else if read then do {
          v \<leftarrow> get_remaining_count now cpu_hz (counters p (unat which));
          Some (v, p) }
        else Some (val, upd_counter (unat which) (counter_write now val) p)))"

definition legacy_0x61 ::
    "u64 \<Rightarrow> word_t \<Rightarrow> u32 \<Rightarrow> bool \<Rightarrow> i8253_t \<Rightarrow> (u32 \<times> i8253_t) option" where
  "legacy_0x61 now cpu_hz val read p =
     (if \<not> read then Some (val, p\<lparr>register_0x61 := ucast val\<rparr>)
      else do {
        let tmp = register_0x61 p;
        tmp \<leftarrow> (if getf 0 1 tmp \<noteq> 0 then do {
                  out \<leftarrow> get_out now cpu_hz (counters p 2);
                  Some (putf 5 1 (ucast out) tmp) }
                else Some tmp);
        Some (ucast tmp, p)
      })"

definition timer_remaining_usec :: "u64 \<Rightarrow> word_t \<Rightarrow> i8253_t \<Rightarrow> word_t option" where
  "timer_remaining_usec now cpu_hz p = get_remaining_usecs now cpu_hz (counters p 0)"

section \<open>Exactness of the arithmetic\<close>

lemma unat_ucast_up: "unat (ucast (v :: u32) :: u64) = unat v"
  using unsigned_less [of v, where 'a = nat] by (simp add: unsigned_ucast_eq take_bit_nat_eq_self)

lemma unat_ucast_down: "unat (ucast (v :: u64) :: u32) = unat v mod 4294967296"
  by (simp add: unsigned_ucast_eq take_bit_eq_mod)

lemma unat_u32_less: "unat (v :: u32) < 4294967296"
  using unsigned_less [of v, where 'a = nat] by simp

lemma mult_u32_less: "unat (a :: u32) * unat (b :: u32) \<le> 4294967295 * 4294967295"
  using unat_u32_less [of a] unat_u32_less [of b] by (intro mult_le_mono) simp_all

lemma unat_muldiv32:
  assumes "c \<noteq> 0"
  shows "unat (muldiv32 a b c) = unat a * unat b div unat c mod 4294967296"
proof -
  have "unat (ucast a * ucast b :: u64) = unat a * unat b"
    using mult_u32_less [of a b] by (simp add: unat_word_ariths unat_ucast_up)
  then show ?thesis using assms
    by (simp add: muldiv32_def Let_def unat_ucast_down unat_div unat_ucast_up)
qed

text \<open>Schoolbook division of a three-digit number to the base \<open>B\<close> by a one-digit number.\<close>

lemma long_division:
  fixes B :: nat
  assumes "0 < c" "lo < B"
  shows "(rh * B + lo) div c = rh div c * B + ((rh mod c) * B + lo) div c"
    and "c \<le> B \<Longrightarrow> ((rh mod c) * B + lo) div c < B"
proof -
  have "rh * B + lo = c * (rh div c * B) + ((rh mod c) * B + lo)"
    by (metis add.assoc add_mult_distrib mult.assoc mult_div_mod_eq)
  then have "(rh * B + lo) div c = (c * (rh div c * B) + ((rh mod c) * B + lo)) div c" by (rule arg_cong)
  then show "(rh * B + lo) div c = rh div c * B + ((rh mod c) * B + lo) div c"
    using div_mult_self2 [of c "(rh mod c) * B + lo" "rh div c * B"] assms(1) by (simp only: add.commute)
  have "rh mod c * B + lo < c * B"
  proof -
    have "Suc (rh mod c) * B \<le> c * B" using assms(1) by (intro mult_le_mono1) (simp add: Suc_leI)
    then show ?thesis using assms(2) by simp
  qed
  then show "((rh mod c) * B + lo) div c < B"
    using assms(1) by (simp add: div_less_iff_less_mult mult.commute)
qed

lemma mod_two_digits:
  fixes B :: nat
  assumes "l < B"
  shows "(q * B + l) mod (B * B) = q mod B * B + l"
  using assms by (simp add: mod_mult2_eq)

lemma muldiv64_low: "unat (take_bit 32 a * ucast b :: u64) = unat a mod 4294967296 * unat (b :: u32)"
proof -
  have "unat a mod 4294967296 * unat b \<le> 4294967295 * 4294967295"
    using unat_u32_less [of b] by (intro mult_le_mono) (simp_all add: less_Suc_eq_le [symmetric])
  then show ?thesis
    by (simp add: unat_word_ariths unat_ucast_up unsigned_take_bit_eq take_bit_eq_mod)
qed

lemma muldiv64_high:
  assumes "unat rl = n"
  shows "unat (drop_bit 32 a * ucast b + drop_bit 32 rl :: u64) =
    unat a div 4294967296 * unat (b :: u32) + n div 4294967296"
proof -
  have d: "unat (drop_bit 32 x) = unat x div 4294967296" for x :: u64
    by (simp add: drop_bit_eq_div unat_div)
  have q: "unat x div 4294967296 \<le> 4294967295" for x :: u64
    using unsigned_less [of x, where 'a = nat] by (simp add: less_Suc_eq_le [symmetric] div_less_iff_less_mult)
  have "unat a div 4294967296 * unat b \<le> 4294967295 * 4294967295"
    using unat_u32_less [of b] by (intro mult_le_mono q) simp
  moreover have "n div 4294967296 \<le> 4294967295" using q [of rl] assms by simp
  ultimately show ?thesis
    by (simp add: unat_word_ariths unat_ucast_up d assms)
qed

lemma muldiv64_rest:
  assumes "c \<noteq> 0" "unat rh = h" "unat rl = n"
  shows "unat ((push_bit 32 (rh mod ucast c) + (rl AND 0xffffffff)) div ucast (c :: u32) :: u64) =
    (h mod unat c * 4294967296 + n mod 4294967296) div unat c"
proof -
  have "rl AND 0xffffffff = take_bit 32 rl" by (simp add: take_bit_eq_mask mask_eq_exp_minus_1)
  then have lo: "unat (rl AND 0xffffffff) = n mod 4294967296"
    using assms(3) by (simp add: take_bit_eq_mod unat_mod)
  have "0 < unat c" using assms(1) by (simp add: unat_gt_0)
  then have m: "h mod unat c \<le> 4294967294"
    using unat_u32_less [of c] mod_less_divisor [of "unat c" h] by linarith
  have "unat (push_bit 32 (rh mod ucast c)) = h mod unat c * 4294967296"
    using m by (simp add: push_bit_eq_mult unat_word_ariths unat_mod unat_ucast_up assms(2))
  moreover have "n mod 4294967296 \<le> 4294967295" by (simp add: less_Suc_eq_le [symmetric])
  ultimately show ?thesis using m
    by (simp add: unat_div unat_word_ariths unat_ucast_up lo)
qed

lemma join_words:
  assumes "unat h = n" "unat l < 4294967296"
  shows "unat (push_bit 32 (ucast (ucast (h :: u64) :: u32)) OR ucast (ucast l :: u32) :: u64) =
    n mod 4294967296 * 4294967296 + unat (l :: u64)"
proof -
  have h: "unat (ucast h :: u32) = n mod 4294967296" and l: "unat (ucast l :: u32) = unat l"
    using assms by (simp_all add: unsigned_ucast_eq take_bit_eq_mod)
  have "push_bit 32 (ucast (ucast h :: u32)) OR ucast (ucast l :: u32) =
      push_bit 32 (ucast (ucast h :: u32)) + (ucast (ucast l :: u32) :: u64)"
    by (rule disjunctive_add [symmetric]) (auto simp: bit_simps dest: bit_imp_le_length)
  moreover have "n mod 4294967296 \<le> 4294967295" by (simp add: less_Suc_eq_le [symmetric])
  ultimately show ?thesis using assms(2)
    by (simp add: push_bit_eq_mult unat_word_ariths unat_ucast_up h l)
qed

lemma muldiv64_quotient:
  assumes "c \<noteq> 0"
  shows "\<exists>q. muldiv64 a b c = Some q \<and> unat q = unat a * unat b div unat c mod 2 ^ 64"
proof -
  define B :: nat where "B = 4294967296"
  define rl where "rl = unat a mod B * unat b"
  define rh where "rh = unat a div B * unat b + rl div B"
  have c: "0 < unat c" "unat c \<le> B" using assms unat_u32_less [of c] by (simp_all add: B_def unat_gt_0)
  have ab: "unat a * unat b = rh * B + rl mod B"
  proof -
    have "unat a * unat b = unat a div B * unat b * B + rl"
      using arg_cong [OF div_mult_mod_eq [of "unat a" B], where f = "\<lambda>x. x * unat b"]
      by (simp only: rl_def algebra_simps)
    also have "rl = rl div B * B + rl mod B" by simp
    finally show ?thesis by (simp add: rh_def add_mult_distrib)
  qed
  let ?rl = "take_bit 32 a * ucast b :: u64"
  let ?rh = "drop_bit 32 a * ucast b + drop_bit 32 ?rl :: u64"
  have rl: "unat ?rl = rl" by (simp add: muldiv64_low rl_def B_def)
  have rh: "unat ?rh = rh" by (simp only: muldiv64_high [OF rl] rh_def B_def)
  let ?lo = "(push_bit 32 (?rh mod ucast c) + (?rl AND 0xffffffff)) div ucast c :: u64"
  have lo: "unat ?lo = (rh mod unat c * B + rl mod B) div unat c"
    by (rule muldiv64_rest [OF assms rh rl, folded B_def])
  have m: "rl mod B < B" by (simp add: B_def)
  then have lt: "(rh mod unat c * B + rl mod B) div unat c < B"
    using long_division(2) [OF c(1) _ c(2)] by blast
  have "unat a * unat b div unat c = rh div unat c * B + unat ?lo"
    unfolding ab lo by (rule long_division(1) [OF c(1) m])
  moreover have "unat (push_bit 32 (ucast (ucast (?rh div ucast c) :: u32)) OR ucast (ucast ?lo :: u32) :: u64)
      = rh div unat c mod B * B + unat ?lo"
    by (rule join_words [OF _ lt [folded lo, unfolded B_def], folded B_def])
       (simp add: unat_div rh unat_ucast_up)
  moreover have "(rh div unat c * B + unat ?lo) mod 2 ^ 64 = rh div unat c mod B * B + unat ?lo"
    using mod_two_digits [OF lt [folded lo]] by (simp add: B_def)
  ultimately show ?thesis using assms
    by (simp add: muldiv64_def Let_def)
qed

text \<open>
  C36: The 96-bit multiplication and division. For a divisor other than zero \<^verbatim>\<open>muldiv64\<close> returns the exact
  quotient of the product, reduced to 64 bits: no intermediate result of the split computation overflows.
\<close>

theorem muldiv64_exact:
  assumes "c \<noteq> 0"
  shows "\<exists>q. muldiv64 a b c = Some q \<and> unat q = unat a * unat b div unat c mod 2 ^ 64"
  by (rule muldiv64_quotient [OF assms])

theorem muldiv64_exact_witness:
  "\<exists>q. muldiv64 0xffffffffffffffff 1000000 1193182 = Some q \<and>
     unat q = 18446744073709551615 * 1000000 div 1193182 mod 2 ^ 64"
  using muldiv64_exact [of 1193182 "0xffffffffffffffff" 1000000] by simp

section \<open>Programming and reading a counter\<close>

text \<open>
  A guest programs a counter with a control word and the two bytes of the count, at the given cycles.
  \<open>elapsed_count\<close> is the number of timer ticks that the wedge computes for a number of cycles.
\<close>

definition pit_program ::
    "word_t \<Rightarrow> u64 \<times> u64 \<times> u64 \<Rightarrow> u8 \<Rightarrow> u8 \<Rightarrow> u8 \<Rightarrow> i8253_t \<Rightarrow> i8253_t option" where
  "pit_program cpu_hz ts ctl lo hi p = (case ts of (t1, t2, t3) \<Rightarrow> do {
     let port = 0x40 + of_nat (which_counter ctl);
     (_, p) \<leftarrow> i8253_portio t1 cpu_hz 0x43 (ucast ctl) False p;
     (_, p) \<leftarrow> i8253_portio t2 cpu_hz port (ucast lo) False p;
     (_, p) \<leftarrow> i8253_portio t3 cpu_hz port (ucast hi) False p;
     Some p })"

definition elapsed_count :: "word_t \<Rightarrow> u64 \<Rightarrow> nat" where
  "elapsed_count cpu_hz cycles = unat (muldiv32 (muldiv32 (ucast cycles) 1000 cpu_hz) clock_rate 1000000)"

lemma counter_port:
  assumes "n < 3"
  shows "(0x40 + of_nat n :: u16) \<noteq> 0x43" "ucast (0x40 + of_nat n :: u16) - 0x40 = (of_nat n :: u32)"
    "unat (of_nat n :: u32) = n" "\<not> (2 < (of_nat n :: u32))"
proof -
  from assms have "n \<in> {0, 1, 2}" by auto
  then show "(0x40 + of_nat n :: u16) \<noteq> 0x43" "ucast (0x40 + of_nat n :: u16) - 0x40 = (of_nat n :: u32)"
    "unat (of_nat n :: u32) = n" "\<not> (2 < (of_nat n :: u32))"
    by (auto simp: unsigned_ucast_eq)
qed

lemma bit_low_byte: "bit (0xff :: 'a::len word) i \<longleftrightarrow> i < 8 \<and> i < LENGTH('a)"
proof -
  have ff: "(0xff :: 'a word) = mask 8" by (simp add: mask_eq_exp_minus_1)
  show ?thesis unfolding ff by (auto simp: bit_simps)
qed

lemma bit_high_byte: "bit (0xff00 :: 'a::len word) i \<longleftrightarrow> 8 \<le> i \<and> i < 16 \<and> i < LENGTH('a)"
proof -
  have ff: "(0xff00 :: 'a word) = push_bit 8 0xff" by simp
  show ?thesis unfolding ff bit_push_bit_iff bit_low_byte by auto
qed

lemma counter_bytes:
  "unat ((((c AND 0xff00) OR ucast (0xff AND ucast lo :: u32)) AND 0x00ff)
     OR ucast (push_bit 8 (0xff AND ucast hi :: u32)) :: u16) = unat (lo :: u8) + 256 * unat (hi :: u8)"
  (is "unat ?v = _")
proof -
  have "?v = ucast lo OR push_bit 8 (ucast hi)"
    by (rule bit_word_eqI)
       (auto simp: bit_simps bit_low_byte bit_high_byte simp del: bit_numeral_word_iff
             dest: bit_imp_le_length)
  also have "\<dots> = ucast lo + push_bit 8 (ucast hi)"
    by (rule disjunctive_add [symmetric]) (auto simp: bit_simps dest: bit_imp_le_length)
  finally show ?thesis
    using unsigned_less [of lo, where 'a = nat] unsigned_less [of hi, where 'a = nat]
    by (simp add: push_bit_eq_mult unat_word_ariths unsigned_ucast_eq take_bit_nat_eq_self)
qed

lemma pit_program_counter:
  assumes "n = which_counter ctl" "n < 3" "get_read_write_mode ctl = 3"
  shows "\<exists>p'. pit_program cpu_hz (t1, t2, t3) ctl lo hi p = Some p' \<and>
     control (counters p' n) = ctl \<and> start_cycle (counters p' n) = t3 \<and> first_write (counters p' n) \<and>
     unat (counter (counters p' n)) = unat lo + 256 * unat hi \<and>
     (\<forall>m. m \<noteq> n \<longrightarrow> counters p' m = counters p m) \<and> register_0x61 p' = register_0x61 p"
proof -
  have "ucast (ucast ctl :: u32) = ctl" by (rule bit_word_eqI) (auto simp: bit_simps)
  then show ?thesis using assms counter_bytes [of _ lo hi]
    by (simp add: pit_program_def i8253_portio_def counter_port upd_counter_def counter_write_def
        set_lsb_def set_msb_def Let_def)
qed

lemma pit_read_counter:
  assumes "n < 3"
  shows "i8253_portio now cpu_hz (0x40 + of_nat n) v True p =
     do { v \<leftarrow> get_remaining_count now cpu_hz (counters p n); Some (v, p) }"
  using assms by (simp add: i8253_portio_def counter_port)

text \<open>
  Counting down. A counter programmed in a mode other than the periodic one with a low and
  a high byte reads back, at any later cycle, as the programmed count minus the elapsed timer
  ticks, and as zero once the count has run out; the other counters keep their state.
\<close>

theorem pit_counts_down:
  assumes "which_counter ctl = n" "n < 3" "get_read_write_mode ctl = 3" "\<not> is_periodic ctl" "1000 \<le> cpu_hz"
  shows "\<exists>p'. pit_program cpu_hz (t1, t2, t3) ctl lo hi p = Some p' \<and>
     (\<forall>m. m \<noteq> n \<longrightarrow> counters p' m = counters p m) \<and>
     (\<forall>now v. \<exists>r. i8253_portio now cpu_hz (0x40 + of_nat n) v True p' = Some (r, p') \<and>
        unat r = (unat lo + 256 * unat hi) - elapsed_count cpu_hz (now - t3))"
proof -
  obtain p' where p': "pit_program cpu_hz (t1, t2, t3) ctl lo hi p = Some p'"
    "control (counters p' n) = ctl" "start_cycle (counters p' n) = t3"
    "unat (counter (counters p' n)) = unat lo + 256 * unat hi" "\<forall>m. m \<noteq> n \<longrightarrow> counters p' m = counters p m"
    using pit_program_counter [of n ctl cpu_hz t1 t2 t3 lo hi p] assms(1-3) by auto
  have c: "unat (ucast (counter (counters p' n)) :: u32) = unat lo + 256 * unat hi"
    using p'(4) unsigned_less [of "counter (counters p' n)", where 'a = nat]
    by (simp add: unsigned_ucast_eq take_bit_nat_eq_self)
  have "\<exists>r. i8253_portio now cpu_hz (0x40 + of_nat n) v True p' = Some (r, p') \<and>
      unat r = (unat lo + 256 * unat hi) - elapsed_count cpu_hz (now - t3)" for now v
    using assms(2,4,5) p'(2,3) c
    by (auto simp: pit_read_counter get_remaining_count_def cycles_to_usecs_def elapsed_count_def Let_def
        word_less_nat_alt not_less unat_minus_bound)
  with p'(1,5) show ?thesis by auto
qed

definition pit_example :: i8253_t where
  "pit_example =
     \<lparr>counters = (\<lambda>_. \<lparr>control = 0, first_write = False, start_cycle = 0, counter = 0\<rparr>), register_0x61 = 0\<rparr>"

theorem pit_counts_down_witness:
  "\<exists>p'. pit_program 2000000 (10, 20, 30) 0x30 0x9c 0x2e pit_example = Some p' \<and>
     (\<exists>r. i8253_portio 30 2000000 0x40 0 True p' = Some (r, p') \<and> unat r = 11932)"
proof -
  have "\<exists>p'. pit_program 2000000 (10, 20, 30) 0x30 0x9c 0x2e pit_example = Some p' \<and>
     (\<forall>m. m \<noteq> 0 \<longrightarrow> counters p' m = counters pit_example m) \<and>
     (\<forall>now v. \<exists>r. i8253_portio now 2000000 (0x40 + of_nat 0) v True p' = Some (r, p') \<and>
        unat r = (unat (0x9c :: u8) + 256 * unat (0x2e :: u8)) - elapsed_count 2000000 (now - 30))"
    by (rule pit_counts_down) (code_simp, simp, code_simp, code_simp, simp)
  then obtain p' where "pit_program 2000000 (10, 20, 30) 0x30 0x9c 0x2e pit_example = Some p'"
    "\<exists>r. i8253_portio 30 2000000 (0x40 + of_nat 0) 0 True p' = Some (r, p') \<and>
        unat r = (unat (0x9c :: u8) + 256 * unat (0x2e :: u8)) - elapsed_count 2000000 (30 - 30)"
    by blast
  then show ?thesis by (simp add: elapsed_count_def muldiv32_def Let_def)
qed

text \<open>
  The periodic mode counts the wrong way. In the periodic mode a counter reads as the elapsed ticks
  modulo the count, so that it starts at zero and grows, where the hardware starts at the count
  and falls; for the count 0, which stands for 65536 ticks, reading it divides by zero.
\<close>

theorem pit_periodic_counts_up:
  assumes "which_counter ctl = n" "n < 3" "get_read_write_mode ctl = 3" "is_periodic ctl" "1000 \<le> cpu_hz"
  shows "\<exists>p'. pit_program cpu_hz (t1, t2, t3) ctl lo hi p = Some p' \<and>
     (if lo = 0 \<and> hi = 0 then i8253_portio now cpu_hz (0x40 + of_nat n) v True p' = None
      else \<exists>r. i8253_portio now cpu_hz (0x40 + of_nat n) v True p' = Some (r, p') \<and>
        unat r = elapsed_count cpu_hz (now - t3) mod (unat lo + 256 * unat hi))"
proof -
  obtain p' where p': "pit_program cpu_hz (t1, t2, t3) ctl lo hi p = Some p'"
    "control (counters p' n) = ctl" "start_cycle (counters p' n) = t3"
    "unat (counter (counters p' n)) = unat lo + 256 * unat hi"
    using pit_program_counter [of n ctl cpu_hz t1 t2 t3 lo hi p] assms(1-3) by auto
  have c: "unat (ucast (counter (counters p' n)) :: u32) = unat lo + 256 * unat hi"
    using p'(4) unsigned_less [of "counter (counters p' n)", where 'a = nat]
    by (simp add: unsigned_ucast_eq take_bit_nat_eq_self)
  have z: "counter (counters p' n) = 0 \<longleftrightarrow> lo = 0 \<and> hi = 0"
    using p'(4) by (metis add_is_0 mult_is_0 unat_eq_0 zero_neq_numeral)
  show ?thesis using assms(2,4,5) p'(1-3) c z
    by (auto simp: pit_read_counter get_remaining_count_def cycles_to_usecs_def elapsed_count_def Let_def
        unat_mod)
qed

theorem pit_periodic_counts_up_witness:
  "\<exists>p'. pit_program 2000000 (10, 20, 30) 0x34 0x9c 0x2e pit_example = Some p' \<and>
     (\<exists>r. i8253_portio 30 2000000 0x40 0 True p' = Some (r, p') \<and> unat r = 0)"
proof -
  have "\<exists>p'. pit_program 2000000 (10, 20, 30) 0x34 0x9c 0x2e pit_example = Some p' \<and>
     (if (0x9c :: u8) = 0 \<and> (0x2e :: u8) = 0 then i8253_portio 30 2000000 (0x40 + of_nat 0) 0 True p' = None
      else \<exists>r. i8253_portio 30 2000000 (0x40 + of_nat 0) 0 True p' = Some (r, p') \<and>
        unat r = elapsed_count 2000000 (30 - 30) mod (unat (0x9c :: u8) + 256 * unat (0x2e :: u8)))"
    by (rule pit_periodic_counts_up) (code_simp, simp, code_simp, code_simp, simp)
  then show ?thesis by (simp add: elapsed_count_def muldiv32_def Let_def)
qed

text \<open>
  The remaining microseconds wrap around. \<^verbatim>\<open>get_remaining_usecs\<close> multiplies the remaining count in 32
  bits: its result never exceeds 3599, and it is the exact number of microseconds exactly
  when at most 4294 ticks remain, although a counter can hold 65535 ticks, which last 54924 microseconds.
\<close>

theorem remaining_usecs_wrap:
  assumes "get_remaining_count now cpu_hz ct = Some r"
  shows "\<exists>us. get_remaining_usecs now cpu_hz ct = Some us \<and> unat us \<le> 3599 \<and>
     (unat us = unat r * 1000000 div 1193182 \<longleftrightarrow> unat r \<le> 4294)"
proof -
  let ?us = "r * 1000000 div clock_rate"
  have u: "unat ?us = unat r * 1000000 mod 4294967296 div 1193182"
    by (simp add: clock_rate_def unat_div unat_word_ariths)
  have le: "unat ?us \<le> 3599"
    unfolding u by (simp add: less_Suc_eq_le [symmetric] div_less_iff_less_mult)
  have "unat ?us = unat r * 1000000 div 1193182 \<longleftrightarrow> unat r \<le> 4294"
  proof (cases "unat r \<le> 4294")
    case True
    then show ?thesis unfolding u by simp
  next
    case False
    then consider "unat r = 4295" | "4296 \<le> unat r" by linarith
    then show ?thesis
    proof cases
      case 1
      then show ?thesis unfolding u by simp
    next
      case 2
      then have "3600 \<le> unat r * 1000000 div 1193182" by (simp add: less_eq_div_iff_mult_less_eq)
      then show ?thesis using le False by simp
    qed
  qed
  with le assms show ?thesis by (simp add: get_remaining_usecs_def)
qed

theorem remaining_usecs_wrap_witness:
  "\<exists>us. get_remaining_usecs 0 2000000 \<lparr>control = 0x30, first_write = True, start_cycle = 0, counter = 0xffff\<rparr>
       = Some us \<and> unat us \<le> 3599 \<and> unat us \<noteq> 54924"
proof -
  have "get_remaining_count 0 2000000
      \<lparr>control = 0x30, first_write = True, start_cycle = 0, counter = 0xffff\<rparr> = Some 0xffff"
    by code_simp
  from remaining_usecs_wrap [OF this] show ?thesis by auto
qed

end
