(* ===== verification/Pit8254.thy ===== *)
theory Pit8254
  imports Pit Int_Routing Port_Device
begin

text \<open>
  The interval timer that guests use through the I/O ports 0x40 to 0x43 and 0x61:
  \<^verbatim>\<open>device/i8254.cc\<close>. The L4 system clock in microseconds is the argument \<open>now\<close>; \<open>None\<close> is the
  trap of a division by zero or a panic of the interrupt logic.
\<close>

section \<open>State\<close>

record PITChannel =
  pc_count :: u32
  latched_count :: u16
  count_latched :: u8
  status_latched :: u8
  pc_status :: u8
  read_state :: u8
  write_state :: u8
  write_latch :: u8
  rw_mode :: u8
  pc_mode :: u8
  pc_bcd :: u8
  pc_gate :: u8

record PITState =
  channels :: "nat \<Rightarrow> PITChannel"
  count_load_time :: "nat \<Rightarrow> u64"
  speaker_data_on :: u32
  ch0_period :: u32
  ch0_timer_mode :: u8

abbreviation (input) "RW_STATE_LSB \<equiv> 1 :: u8"
abbreviation (input) "RW_STATE_MSB \<equiv> 2 :: u8"
abbreviation (input) "RW_STATE_WORD0 \<equiv> 3 :: u8"
abbreviation (input) "RW_STATE_WORD1 \<equiv> 4 :: u8"
abbreviation (input) "TIMER_DISABLED \<equiv> 0 :: u8"
abbreviation (input) "TIMER_PERIODIC \<equiv> 1 :: u8"
abbreviation (input) "TIMER_ONESHOT \<equiv> 2 :: u8"

definition PIT_FREQ :: u32 where "PIT_FREQ = 1193181"

definition upd_channel :: "nat \<Rightarrow> (PITChannel \<Rightarrow> PITChannel) \<Rightarrow> PITState \<Rightarrow> PITState" where
  "upd_channel n f p = p\<lparr>channels := (channels p)(n := f (channels p n))\<rparr>"

section \<open>Counters\<close>

definition pit_ticks :: "u64 \<Rightarrow> nat \<Rightarrow> PITState \<Rightarrow> u64 option" where
  "pit_ticks now n p = muldiv64 (now - count_load_time p n) PIT_FREQ 1000000"

definition pit_get_count :: "u64 \<Rightarrow> nat \<Rightarrow> PITState \<Rightarrow> u32 option" where
  "pit_get_count now n p = do {
     let c = channels p n;
     d \<leftarrow> pit_ticks now n p;
     if pc_mode c = 0 \<or> pc_mode c = 1 \<or> pc_mode c = 4 \<or> pc_mode c = 5 then
       Some (ucast ((ucast (pc_count c) - d) AND 0xffff))
     else do {
       ASSERT (pc_count c \<noteq> 0);
       if pc_mode c = 3 then Some (ucast (ucast (pc_count c) - (2 * d) mod ucast (pc_count c)))
       else Some (ucast (ucast (pc_count c) - d mod ucast (pc_count c)))
     }
   }"

definition pit_get_out :: "u64 \<Rightarrow> nat \<Rightarrow> PITState \<Rightarrow> bool option" where
  "pit_get_out now n p = do {
     let s = channels p n;
     d \<leftarrow> pit_ticks now n p;
     if pc_mode s = 1 then Some (d < ucast (pc_count s))
     else if pc_mode s = 2 then do {
       ASSERT (pc_count s \<noteq> 0);
       Some (d mod ucast (pc_count s) = 0 \<and> d \<noteq> 0) }
     else if pc_mode s = 3 then do {
       ASSERT (pc_count s \<noteq> 0);
       Some (d mod ucast (pc_count s) < ucast (drop_bit 1 (pc_count s + 1))) }
     else if pc_mode s = 4 \<or> pc_mode s = 5 then Some (d = ucast (pc_count s))
     else Some (d \<ge> ucast (pc_count s))
   }"

definition pit_set_gate :: "u64 \<Rightarrow> nat \<Rightarrow> u8 \<Rightarrow> PITState \<Rightarrow> PITState" where
  "pit_set_gate now n val p =
     (let s = channels p n;
          p = (if (pc_mode s = 1 \<or> pc_mode s = 5 \<or> pc_mode s = 2 \<or> pc_mode s = 3) \<and> pc_gate s < val then
                 p\<lparr>count_load_time := (count_load_time p)(n := now)\<rparr>
               else p)
      in upd_channel n (\<lambda>s. s\<lparr>pc_gate := val\<rparr>) p)"

definition pit_get_gate :: "nat \<Rightarrow> PITState \<Rightarrow> u8" where
  "pit_get_gate n p = pc_gate (channels p n)"

definition DIV_ROUND :: "u64 \<Rightarrow> u64 \<Rightarrow> u64" where
  "DIV_ROUND x y = (x + y div 2) div y"

definition pit_load_count :: "u64 \<Rightarrow> nat \<Rightarrow> u32 \<Rightarrow> PITState \<Rightarrow> PITState" where
  "pit_load_count now n val p =
     (let val = (if val = 0 then 0x10000 else val);
          p = upd_channel n (\<lambda>s. s\<lparr>pc_count := val\<rparr>) (p\<lparr>count_load_time := (count_load_time p)(n := now)\<rparr>)
      in if n \<noteq> 0 then p
         else (let p = p\<lparr>ch0_period := ucast (DIV_ROUND (ucast val * 1000000) (ucast PIT_FREQ))\<rparr>;
                   mode = pc_mode (channels p n)
               in if mode = 2 then p\<lparr>ch0_timer_mode := TIMER_PERIODIC\<rparr>
                  else if mode = 1 then p\<lparr>ch0_timer_mode := TIMER_ONESHOT\<rparr>
                  else p\<lparr>ch0_timer_mode := TIMER_DISABLED\<rparr>))"

definition pit_latch_count :: "u64 \<Rightarrow> nat \<Rightarrow> PITState \<Rightarrow> PITState option" where
  "pit_latch_count now n p =
     (if count_latched (channels p n) = 0 then do {
        count \<leftarrow> pit_get_count now n p;
        Some (upd_channel n (\<lambda>c. c\<lparr>latched_count := ucast count, count_latched := rw_mode c\<rparr>) p) }
      else Some p)"

definition pit_latch_status :: "u64 \<Rightarrow> nat \<Rightarrow> PITState \<Rightarrow> PITState option" where
  "pit_latch_status now n p =
     (if status_latched (channels p n) = 0 then do {
        out \<leftarrow> pit_get_out now n p;
        Some (upd_channel n (\<lambda>c. c\<lparr>pc_status := push_bit 7 (of_bool out) OR push_bit 4 (rw_mode c)
                                       OR push_bit 1 (pc_mode c) OR pc_bcd c,
                                     status_latched := 1\<rparr>) p) }
      else Some p)"

section \<open>Port access\<close>

definition read_back :: "u64 \<Rightarrow> u32 \<Rightarrow> nat \<Rightarrow> PITState \<Rightarrow> PITState option" where
  "read_back now val n p =
     (if val AND push_bit n 2 \<noteq> 0 then do {
        p \<leftarrow> (if val AND 0x20 = 0 then pit_latch_count now n p else Some p);
        if val AND 0x10 = 0 then pit_latch_status now n p else Some p }
      else Some p)"

definition select_counter :: "u64 \<Rightarrow> u32 \<Rightarrow> nat \<Rightarrow> PITState \<Rightarrow> PITState option" where
  "select_counter now val n p =
     (let access = ucast (drop_bit 4 val AND 3) :: u8 in
      if access = 0 then pit_latch_count now n p
      else (let mode = ucast (drop_bit 1 val AND 7) :: u8 in
        Some (upd_channel n (\<lambda>s. s\<lparr>rw_mode := access, read_state := access, write_state := access,
                                   pc_mode := (if mode > 5 then mode - 4 else mode),
                                   pc_bcd := ucast (val AND 1)\<rparr>) p)))"

definition write_count :: "u64 \<Rightarrow> u32 \<Rightarrow> nat \<Rightarrow> PITState \<Rightarrow> PITState" where
  "write_count now val n p =
     (let ws = write_state (channels p n) in
      if ws = RW_STATE_MSB then pit_load_count now n (push_bit 8 val) p
      else if ws = RW_STATE_WORD0 then
        upd_channel n (\<lambda>s. s\<lparr>write_latch := ucast val, write_state := RW_STATE_WORD1\<rparr>) p
      else if ws = RW_STATE_WORD1 then
        upd_channel n (\<lambda>s. s\<lparr>write_state := RW_STATE_WORD0\<rparr>)
          (pit_load_count now n (ucast (write_latch (channels p n)) OR push_bit 8 val) p)
      else pit_load_count now n val p)"

definition pit_ioport_write :: "u64 \<Rightarrow> u32 \<Rightarrow> u32 \<Rightarrow> PITState \<Rightarrow> PITState option" where
  "pit_ioport_write now addr val p =
     (let val = val AND 0xff; addr = addr AND 3 in
      if addr = 3 then
        (let channel = unat (drop_bit 6 val) in
         if channel = 3 then do {
           p \<leftarrow> read_back now val 0 p;
           p \<leftarrow> read_back now val 1 p;
           read_back now val 2 p }
         else select_counter now val channel p)
      else Some (write_count now val (unat addr) p))"

definition read_latched :: "nat \<Rightarrow> PITState \<Rightarrow> u32 \<times> PITState" where
  "read_latched n p =
     (let s = channels p n in
      if count_latched s = RW_STATE_MSB then
        (ucast (drop_bit 8 (latched_count s)), upd_channel n (\<lambda>s. s\<lparr>count_latched := 0\<rparr>) p)
      else if count_latched s = RW_STATE_WORD0 then
        (ucast (latched_count s AND 0xff), upd_channel n (\<lambda>s. s\<lparr>count_latched := RW_STATE_MSB\<rparr>) p)
      else (ucast (latched_count s AND 0xff), upd_channel n (\<lambda>s. s\<lparr>count_latched := 0\<rparr>) p))"

definition read_running :: "u64 \<Rightarrow> nat \<Rightarrow> PITState \<Rightarrow> (u32 \<times> PITState) option" where
  "read_running now n p = do {
     count \<leftarrow> pit_get_count now n p;
     let rs = read_state (channels p n);
     Some (if rs = RW_STATE_MSB then (drop_bit 8 count AND 0xff, p)
           else if rs = RW_STATE_WORD0 then
             (count AND 0xff, upd_channel n (\<lambda>s. s\<lparr>read_state := RW_STATE_WORD1\<rparr>) p)
           else if rs = RW_STATE_WORD1 then
             (drop_bit 8 count AND 0xff, upd_channel n (\<lambda>s. s\<lparr>read_state := RW_STATE_WORD0\<rparr>) p)
           else (count AND 0xff, p))
   }"

definition pit_ioport_read :: "u64 \<Rightarrow> u32 \<Rightarrow> PITState \<Rightarrow> (u32 \<times> PITState) option" where
  "pit_ioport_read now addr p =
     (let n = unat (addr AND 3); s = channels p n in
      if status_latched s \<noteq> 0 then
        Some (ucast (pc_status s), upd_channel n (\<lambda>s. s\<lparr>status_latched := 0\<rparr>) p)
      else if count_latched s \<noteq> 0 then Some (read_latched n p)
      else read_running now n p)"

definition pit_init_channel :: "u64 \<Rightarrow> nat \<Rightarrow> PITState \<Rightarrow> PITState" where
  "pit_init_channel now n p =
     pit_load_count now n 0 (upd_channel n (\<lambda>s. s\<lparr>pc_mode := 0xff, pc_gate := of_bool (n \<noteq> 2)\<rparr>) p)"

definition pit_init :: "u64 \<Rightarrow> PITState \<Rightarrow> PITState" where
  "pit_init now p = pit_init_channel now 2 (pit_init_channel now 1 (pit_init_channel now 0 p))"

definition pit_get_remaining_usecs :: "u64 \<Rightarrow> PITState \<Rightarrow> u32" where
  "pit_get_remaining_usecs now p =
     (if ch0_timer_mode p = TIMER_DISABLED then 54925
      else (let d = ucast (now - count_load_time p 0) in
        if d \<ge> ch0_period p then 0 else ch0_period p - d))"

definition pit_handle_timer_interrupt ::
    "bool \<Rightarrow> u64 \<Rightarrow> PITState \<Rightarrow> 'w apic_wedge_scheme \<Rightarrow> (PITState \<times> 'w apic_wedge_scheme) option" where
  "pit_handle_timer_interrupt apic now p w =
     (if ch0_timer_mode p = TIMER_DISABLED then Some (p, w)
      else (let d = ucast (now - count_load_time p 0) in
        if d \<ge> ch0_period p then do {
          let p = p\<lparr>count_load_time := (count_load_time p)(0 := now)\<rparr>;
          let p = (if ch0_timer_mode p = TIMER_ONESHOT then p\<lparr>ch0_timer_mode := TIMER_DISABLED\<rparr> else p);
          w \<leftarrow> intlogic_raise_irq apic 0 w;
          Some (p, w) }
        else Some (p, w)))"

definition handle_pit_io ::
    "u64 \<Rightarrow> u32 \<Rightarrow> u32 \<Rightarrow> u32 \<Rightarrow> bool \<Rightarrow> PITState \<Rightarrow> (u32 \<times> PITState) option" where
  "handle_pit_io now port val bit_width read p =
     (if bit_width \<noteq> 8 then Some (val, p)
      else if \<not> read then do { p \<leftarrow> pit_ioport_write now port val p; Some (val, p) }
      else if port AND 3 \<noteq> 3 then pit_ioport_read now port p
      else Some (val, p))"

definition speaker_ioport_write :: "u64 \<Rightarrow> u32 \<Rightarrow> PITState \<Rightarrow> PITState" where
  "speaker_ioport_write now val p =
     pit_set_gate now 2 (ucast (val AND 1)) (p\<lparr>speaker_data_on := drop_bit 1 val AND 1\<rparr>)"

definition speaker_ioport_read :: "u64 \<Rightarrow> PITState \<Rightarrow> u32 option" where
  "speaker_ioport_read now p = do {
     let refresh_clock = drop_bit 4 (ucast now) AND 1;
     out \<leftarrow> pit_get_out now 2 p;
     Some (push_bit 1 (speaker_data_on p) OR ucast (pit_get_gate 2 p) OR push_bit 5 (of_bool out)
           OR push_bit 4 refresh_clock)
   }"

definition handle_speaker_io ::
    "u64 \<Rightarrow> u32 \<Rightarrow> u32 \<Rightarrow> bool \<Rightarrow> PITState \<Rightarrow> (u32 \<times> PITState) option" where
  "handle_speaker_io now val bit_width read p =
     (if bit_width \<noteq> 8 then Some (val, p)
      else if read then do { v \<leftarrow> speaker_ioport_read now p; Some (v, p) }
      else Some (val, speaker_ioport_write now val p))"

definition i8254_portio ::
    "u64 \<Rightarrow> u32 \<Rightarrow> u16 \<Rightarrow> u32 \<Rightarrow> bool \<Rightarrow> PITState \<Rightarrow> (u32 \<times> PITState) option" where
  "i8254_portio now bit_width port val read p =
     (if port = 0x61 then handle_speaker_io now val bit_width read p
      else handle_pit_io now (ucast port) val bit_width read p)"

section \<open>No port access traps\<close>

text \<open>The counts that the timer divides by are never zero.\<close>

definition pit_inv :: "PITState \<Rightarrow> bool" where
  "pit_inv p \<longleftrightarrow> (\<forall>n < 3. pc_count (channels p n) \<noteq> 0)"

lemma pit_ticks_total: "\<exists>d. pit_ticks now n p = Some d"
  using muldiv64_quotient [of 1000000 "now - count_load_time p n" PIT_FREQ] by (auto simp: pit_ticks_def)

lemma pit_get_count_ok: "pit_inv p \<Longrightarrow> n < 3 \<Longrightarrow> \<exists>c. pit_get_count now n p = Some c"
  using pit_ticks_total [of now n p] by (auto simp: pit_get_count_def pit_inv_def Let_def)

lemma pit_get_out_ok: "pit_inv p \<Longrightarrow> n < 3 \<Longrightarrow> \<exists>b. pit_get_out now n p = Some b"
  using pit_ticks_total [of now n p] by (auto simp: pit_get_out_def pit_inv_def Let_def)

lemma pit_inv_upd:
  "pit_inv p \<Longrightarrow> (\<And>c. pc_count (f c) = pc_count c) \<Longrightarrow> pit_inv (upd_channel n f p)"
  by (simp add: pit_inv_def upd_channel_def)

lemma pit_inv_frame [simp]:
  "pit_inv (p\<lparr>count_load_time := t\<rparr>) = pit_inv p" "pit_inv (p\<lparr>speaker_data_on := x\<rparr>) = pit_inv p"
  by (simp_all add: pit_inv_def)

lemma pit_inv_load: "pit_inv p \<Longrightarrow> pit_inv (pit_load_count now n val p)"
  by (auto simp: pit_inv_def pit_load_count_def upd_channel_def Let_def)

lemma pit_latch_ok:
  assumes "pit_inv p" "n < 3"
  shows "\<exists>p'. pit_latch_count now n p = Some p' \<and> pit_inv p'"
    and "\<exists>p'. pit_latch_status now n p = Some p' \<and> pit_inv p'"
  using pit_get_count_ok [OF assms, of now] pit_get_out_ok [OF assms, of now] assms(1)
  by (auto simp: pit_latch_count_def pit_latch_status_def intro!: pit_inv_upd)

lemma read_back_ok:
  assumes "pit_inv p" "n < 3"
  shows "\<exists>p'. read_back now val n p = Some p' \<and> pit_inv p'"
proof -
  obtain p1 where p1: "pit_latch_count now n p = Some p1" "pit_inv p1"
    using pit_latch_ok(1) [OF assms] by blast
  show ?thesis
    using p1 pit_latch_ok(2) [OF p1(2) assms(2), of now] pit_latch_ok(2) [OF assms, of now] assms(1)
    by (auto simp: read_back_def)
qed

lemma pit_ioport_write_ok:
  assumes "pit_inv p"
  shows "\<exists>p'. pit_ioport_write now addr val p = Some p' \<and> pit_inv p'"
proof -
  let ?v = "val AND 0xff" and ?a = "addr AND 3"
  have rb: "\<exists>p'. read_back now ?v 0 p = Some p' \<and> pit_inv p'"
    "\<And>p. pit_inv p \<Longrightarrow> \<exists>p'. read_back now ?v 1 p = Some p' \<and> pit_inv p'"
    "\<And>p. pit_inv p \<Longrightarrow> \<exists>p'. read_back now ?v 2 p = Some p' \<and> pit_inv p'"
    using assms by (simp_all add: read_back_ok)
  have sel: "\<exists>p'. select_counter now ?v n p = Some p' \<and> pit_inv p'" if "n < 3" for n
    using pit_latch_ok(1) [OF assms that] assms
    by (auto simp: select_counter_def Let_def intro: pit_inv_upd)
  have wr: "pit_inv (write_count now ?v n p)" for n
    using assms by (simp add: write_count_def Let_def pit_inv_upd pit_inv_load)
  have "unat (drop_bit 6 ?v) < 4"
  proof -
    have "?v = take_bit 8 val" by (simp add: take_bit_eq_mask mask_eq_exp_minus_1)
    then show ?thesis
      by (simp add: unat_drop_bit_eq unsigned_take_bit_eq drop_bit_eq_div take_bit_eq_mod div_less_iff_less_mult unat_div unat_mod)
  qed
  then have "unat (drop_bit 6 ?v) = 3 \<or> unat (drop_bit 6 ?v) < 3" by linarith
  with rb sel wr show ?thesis
    by (fastforce simp: pit_ioport_write_def Let_def)
qed

lemma pit_ioport_read_ok:
  assumes "pit_inv p" "addr AND 3 \<noteq> 3"
  shows "\<exists>v p'. pit_ioport_read now addr p = Some (v, p') \<and> pit_inv p'"
proof -
  have "addr AND 3 = take_bit 2 addr" by (simp add: take_bit_eq_mask mask_eq_exp_minus_1)
  then have "unat (addr AND 3) < 4" by (simp add: take_bit_eq_mod unat_mod)
  moreover have "unat (addr AND 3) \<noteq> 3" using assms(2) by (metis of_nat_numeral unat_eq_of_nat)
  ultimately have n: "unat (addr AND 3) < 3" by linarith
  obtain c where "pit_get_count now (unat (addr AND 3)) p = Some c"
    using pit_get_count_ok [OF assms(1) n] by blast
  then show ?thesis using assms(1)
    by (auto simp: pit_ioport_read_def read_latched_def read_running_def Let_def intro!: pit_inv_upd)
qed

lemma i8254_portio_ok:
  assumes "pit_inv p"
  shows "\<exists>v p'. i8254_portio now bit_width port val rd p = Some (v, p') \<and> pit_inv p'"
proof (cases "port = 0x61")
  case True
  obtain out where "pit_get_out now 2 p = Some out" using pit_get_out_ok [OF assms, of 2 now] by auto
  with True assms show ?thesis
    by (auto simp: i8254_portio_def handle_speaker_io_def speaker_ioport_read_def speaker_ioport_write_def
        pit_set_gate_def Let_def intro!: pit_inv_upd)
next
  case False
  then show ?thesis
    using pit_ioport_write_ok [OF assms, of now "ucast port" val] pit_ioport_read_ok [OF assms, of "ucast port" now] assms
    by (auto simp: i8254_portio_def handle_pit_io_def)
qed

interpretation pit: port_device "\<lambda>(now, bit_width). i8254_portio now bit_width" pit_inv
  by unfold_locales (use i8254_portio_ok in \<open>auto simp: case_prod_beta\<close>)

lemma pit_inv_init: "pit_inv (pit_init now p)"
  by (auto simp: pit_inv_def pit_init_def pit_init_channel_def pit_load_count_def upd_channel_def Let_def
      less_Suc_eq numeral_3_eq_3)

section \<open>Reading a latched count\<close>

lemma latch_command:
  assumes "n < 3"
  shows "(push_bit 6 (of_nat n) :: u32) AND 0xff = push_bit 6 (of_nat n)"
    "unat (drop_bit 6 (push_bit 6 (of_nat n) :: u32)) = n"
    "(drop_bit 4 (push_bit 6 (of_nat n) :: u32)) AND 3 = 0"
    "(0x40 + of_nat n :: u16) \<noteq> 0x61" "(ucast (0x40 + of_nat n :: u16) :: u32) AND 3 = of_nat n"
    "(of_nat n :: u32) \<noteq> 3" "unat (of_nat n :: u32) = n"
proof -
  from assms have "n = 0 \<or> n = 1 \<or> n = 2" by auto
  then show "(push_bit 6 (of_nat n) :: u32) AND 0xff = push_bit 6 (of_nat n)"
    "unat (drop_bit 6 (push_bit 6 (of_nat n) :: u32)) = n"
    "(drop_bit 4 (push_bit 6 (of_nat n) :: u32)) AND 3 = 0"
    "(0x40 + of_nat n :: u16) \<noteq> 0x61" "(ucast (0x40 + of_nat n :: u16) :: u32) AND 3 = of_nat n"
    "(of_nat n :: u32) \<noteq> 3" "unat (of_nat n :: u32) = n"
    by auto
qed

lemma split_latched: "unat (ucast (c AND 0xff) :: u32) + 256 * unat (ucast (drop_bit 8 c) :: u32) = unat (c :: u16)"
proof -
  have "c AND 0xff = take_bit 8 c" by (simp add: take_bit_eq_mask mask_eq_exp_minus_1)
  moreover have "unat (ucast x :: u32) = unat x" for x :: u16
    using unsigned_less [of x, where 'a = nat] by (simp add: unsigned_ucast_eq take_bit_nat_eq_self)
  ultimately show ?thesis
    by (simp add: take_bit_eq_mod drop_bit_eq_div unat_mod unat_div)
qed

text \<open>
  C34: A latched count is a snapshot. For a counter that is read in two bytes, the latch command at time
  \<open>t\<close> succeeds, and the next two reads of the counter's port, at whatever times, return the
  low and the high byte of the count at time \<open>t\<close>; after them nothing is latched.
\<close>

theorem pit_latched_read:
  assumes "pit_inv p" "n < 3" "rw_mode (channels p n) = RW_STATE_WORD0"
    "count_latched (channels p n) = 0" "status_latched (channels p n) = 0"
  shows "\<exists>c v p1 lo p2 hi p3. pit_get_count t n p = Some c \<and>
     i8254_portio t 8 0x43 (push_bit 6 (of_nat n)) False p = Some (v, p1) \<and>
     i8254_portio t1 8 (0x40 + of_nat n) x1 True p1 = Some (lo, p2) \<and>
     i8254_portio t2 8 (0x40 + of_nat n) x2 True p2 = Some (hi, p3) \<and>
     unat lo + 256 * unat hi = unat (ucast c :: u16) \<and> count_latched (channels p3 n) = 0"
proof -
  obtain c where c: "pit_get_count t n p = Some c" using pit_get_count_ok [OF assms(1,2)] by blast
  let ?p1 = "upd_channel n (\<lambda>s. s\<lparr>latched_count := ucast c, count_latched := rw_mode s\<rparr>) p"
  have 1: "i8254_portio t 8 0x43 (push_bit 6 (of_nat n)) False p = Some (push_bit 6 (of_nat n), ?p1)"
    using c assms(2,4) latch_command [OF assms(2)]
    by (simp add: i8254_portio_def handle_pit_io_def pit_ioport_write_def select_counter_def pit_latch_count_def
        Let_def)
  let ?p2 = "upd_channel n (\<lambda>s. s\<lparr>count_latched := RW_STATE_MSB\<rparr>) ?p1"
  have 2: "i8254_portio t1 8 (0x40 + of_nat n) x1 True ?p1 = Some (ucast ((ucast c :: u16) AND 0xff), ?p2)"
    using assms(3,5) latch_command [OF assms(2)]
    by (simp add: i8254_portio_def handle_pit_io_def pit_ioport_read_def read_latched_def upd_channel_def Let_def)
  let ?p3 = "upd_channel n (\<lambda>s. s\<lparr>count_latched := 0\<rparr>) ?p2"
  have 3: "i8254_portio t2 8 (0x40 + of_nat n) x2 True ?p2 = Some (ucast (drop_bit 8 (ucast c :: u16)), ?p3)"
    using assms(3,5) latch_command [OF assms(2)]
    by (simp add: i8254_portio_def handle_pit_io_def pit_ioport_read_def read_latched_def upd_channel_def Let_def)
  have "count_latched (channels ?p3 n) = 0" by (simp add: upd_channel_def)
  with c 1 2 3 split_latched [of "ucast c"] show ?thesis by blast
qed

definition pit8254_zero :: PITState where
  "pit8254_zero =
     \<lparr>channels = (\<lambda>_. \<lparr>pc_count = 0, latched_count = 0, count_latched = 0, status_latched = 0, pc_status = 0,
        read_state = 0, write_state = 0, write_latch = 0, rw_mode = 0, pc_mode = 0, pc_bcd = 0, pc_gate = 0\<rparr>),
      count_load_time = (\<lambda>_. 0), speaker_data_on = 0, ch0_period = 0, ch0_timer_mode = 0\<rparr>"

definition pit8254_example :: PITState where
  "pit8254_example = upd_channel 0 (\<lambda>s. s\<lparr>rw_mode := 3\<rparr>) (pit_init 0 pit8254_zero)"

theorem pit_latched_read_witness:
  "\<exists>c v p1 lo p2 hi p3. pit_get_count 1000 0 pit8254_example = Some c \<and>
     i8254_portio 1000 8 0x43 0 False pit8254_example = Some (v, p1) \<and>
     i8254_portio 2000 8 0x40 0 True p1 = Some (lo, p2) \<and>
     i8254_portio 3000 8 0x40 0 True p2 = Some (hi, p3) \<and>
     unat lo + 256 * unat hi = unat (ucast c :: u16)"
proof -
  have inv: "pit_inv pit8254_example"
    unfolding pit8254_example_def by (rule pit_inv_upd [OF pit_inv_init]) simp
  have s: "rw_mode (channels pit8254_example 0) = RW_STATE_WORD0"
    "count_latched (channels pit8254_example 0) = 0" "status_latched (channels pit8254_example 0) = 0"
    by (simp_all add: pit8254_example_def upd_channel_def pit_init_def pit_init_channel_def
        pit_load_count_def pit8254_zero_def Let_def)
  from pit_latched_read [OF inv _ s, of 1000 2000 0 3000 0] show ?thesis by simp blast
qed

section \<open>The timer interrupt\<close>

text \<open>
  C35: The timer interrupt is due when the wedge says so. While channel 0 is programmed as a periodic or
  one-shot timer, a wedge that sleeps for the remaining time it computed and then runs the timer handler
  raises interrupt 0; a handler that runs before the period is over raises nothing and changes nothing.
\<close>

theorem pit_timer_due:
  assumes "ch0_timer_mode p \<noteq> TIMER_DISABLED" "pic_pair_inv w"
    and "unat (now - count_load_time p 0) + unat (ch0_period p) < 2 ^ 32"
  shows "(\<exists>p' w'. pit_handle_timer_interrupt False (now + ucast (pit_get_remaining_usecs now p)) p w = Some (p', w') \<and>
       intlogic_raise_irq False 0 w = Some w') \<and>
     (unat (now - count_load_time p 0) < unat (ch0_period p) \<longrightarrow>
       pit_handle_timer_interrupt False now p w = Some (p, w))"
proof -
  let ?e = "now - count_load_time p 0" and ?r = "pit_get_remaining_usecs now p"
  have e: "unat (ucast ?e :: u32) = unat ?e" using assms(3) by (simp add: unat_ucast_down)
  have r: "unat ?r = unat (ch0_period p) - unat ?e"
    using assms(1) e by (auto simp: pit_get_remaining_usecs_def Let_def word_le_nat_alt unat_minus_bound)
  have eq: "now + ucast ?r - count_load_time p 0 = ?e + ucast ?r" by simp
  have "unat (?e + ucast ?r) = unat ?e + unat ?r"
    using assms(3) r by (simp add: unat_word_ariths unat_ucast_up)
  then have "unat (ucast (now + ucast ?r - count_load_time p 0) :: u32) \<ge> unat (ch0_period p)"
    unfolding eq unat_ucast_down using assms(3) r by simp
  moreover obtain w' where "intlogic_raise_irq False 0 w = Some w'" using pic_pair_raise [OF assms(2), of 0] by auto
  ultimately have "\<exists>p' w'. pit_handle_timer_interrupt False (now + ucast ?r) p w = Some (p', w') \<and>
      intlogic_raise_irq False 0 w = Some w'"
    using assms(1) by (simp add: pit_handle_timer_interrupt_def Let_def word_le_nat_alt)
  moreover have "pit_handle_timer_interrupt False now p w = Some (p, w)" if "unat ?e < unat (ch0_period p)"
    using that assms(1) e by (simp add: pit_handle_timer_interrupt_def Let_def word_le_nat_alt)
  ultimately show ?thesis by blast
qed

theorem pit_timer_due_witness:
  "(\<exists>p' w'. pit_handle_timer_interrupt False (500 + ucast (pit_get_remaining_usecs 500
        (pit8254_zero\<lparr>ch0_timer_mode := 1, ch0_period := 1000\<rparr>)))
      (pit8254_zero\<lparr>ch0_timer_mode := 1, ch0_period := 1000\<rparr>) (boot_apic 1) = Some (p', w') \<and>
      intlogic_raise_irq False 0 (boot_apic 1) = Some w') \<and>
   pit_handle_timer_interrupt False 500 (pit8254_zero\<lparr>ch0_timer_mode := 1, ch0_period := 1000\<rparr>) (boot_apic 1) =
     Some (pit8254_zero\<lparr>ch0_timer_mode := 1, ch0_period := 1000\<rparr>, boot_apic 1)"
proof -
  define p where "p = pit8254_zero\<lparr>ch0_timer_mode := 1, ch0_period := 1000\<rparr>"
  have "ch0_timer_mode p \<noteq> TIMER_DISABLED" "unat (500 - count_load_time p 0) + unat (ch0_period p) < 2 ^ 32"
    "unat (500 - count_load_time p 0) < unat (ch0_period p)"
    by (simp_all add: p_def pit8254_zero_def)
  with pit_timer_due [of p "boot_apic 1" 500] boot_pic_pair(1) show ?thesis
    unfolding p_def [symmetric] by blast
qed

end
