(* ===== verification/Calendar.thy ===== *)
theory Calendar
  imports Prelude
begin

text \<open>
  Calendar arithmetic: \<^verbatim>\<open>common/aftertime.cc\<close>. The functions compute with 32-bit unsigned words.
  They are related to a Gregorian calendar that is defined by its successor function on dates,
  without any arithmetic on day numbers.
\<close>

section \<open>The functions of the source\<close>

definition gregorian_to_julian_day :: "word_t \<Rightarrow> word_t \<Rightarrow> word_t \<Rightarrow> word_t" where
  "gregorian_to_julian_day year month day =
     (1461 * (year + 4800 + (month - 14) div 12)) div 4 +
     (367 * (month - 2 - 12 * ((month - 14) div 12))) div 12 -
     (3 * ((year + 4900 + (month - 14) div 12) div 100)) div 4 +
     day - 32075"

text \<open>The three reference arguments are the components of the result: year, month, day.\<close>

definition julian_day_to_gregorian :: "word_t \<Rightarrow> word_t \<times> word_t \<times> word_t" where
  "julian_day_to_gregorian jd =
     (let l = jd + 68569;
          n = (4 * l) div 146097;
          l = l - (146097 * n + 3) div 4;
          i = (4000 * (l + 1)) div 1461001;
          l = l - (1461 * i) div 4 + 31;
          j = (80 * l) div 2447;
          day = l - (2447 * j) div 80;
          l = j div 11;
          month = j + 2 - (12 * l);
          year = 100 * (n - 49) + i + l
      in (year, month, day))"

text \<open>The results are the date and the time of day: hours, minutes, seconds.\<close>

definition unix_to_gregorian ::
    "word_t \<Rightarrow> (word_t \<times> word_t \<times> word_t) \<times> (word_t \<times> word_t \<times> word_t)" where
  "unix_to_gregorian unix_seconds =
     (let jd = (unix_seconds + 12 * 3600) div (24 * 3600) + 2440587;
          date = julian_day_to_gregorian jd;
          seconds = unix_seconds mod 60;
          unix_seconds = unix_seconds div 60;
          minutes = unix_seconds mod 60;
          unix_seconds = unix_seconds div 60;
          hours = unix_seconds mod 24
      in (date, (hours, minutes, seconds)))"

definition day_of_week :: "word_t \<Rightarrow> word_t \<Rightarrow> word_t \<Rightarrow> word_t" where
  "day_of_week year month day =
     (let a = (14 - month) div 12;
          y = year - a;
          m = month + 12 * a - 2
      in (day + y + y div 4 - y div 100 + y div 400 + 31 * m div 12) mod 7)"

section \<open>The Gregorian calendar\<close>

definition is_leap :: "nat \<Rightarrow> bool" where
  "is_leap y \<longleftrightarrow> y mod 4 = 0 \<and> (y mod 100 \<noteq> 0 \<or> y mod 400 = 0)"

definition days_in_month :: "nat \<Rightarrow> nat \<Rightarrow> nat" where
  "days_in_month y m =
     (if m = 2 then (if is_leap y then 29 else 28) else if m \<in> {4, 6, 9, 11} then 30 else 31)"

fun next_date :: "nat \<times> nat \<times> nat \<Rightarrow> nat \<times> nat \<times> nat" where
  "next_date (y, m, d) =
     (if d < days_in_month y m then (y, m, d + 1)
      else if m < 12 then (y, m + 1, 1) else (y + 1, 1, 1))"

definition valid_date :: "nat \<times> nat \<times> nat \<Rightarrow> bool" where
  "valid_date = (\<lambda>(y, m, d). 1 \<le> m \<and> m \<le> 12 \<and> 1 \<le> d \<and> d \<le> days_in_month y m)"

section \<open>The algorithm on unbounded numbers\<close>

text \<open>
  The day count is cut into centuries, the centuries into years that begin in March, and the years
  into months. \<open>century_start n\<close>, \<open>year_start i\<close> and \<open>month_start j\<close> are the days before the
  respective unit; each index that the source computes by a division is the unit that contains
  the day.
\<close>

definition century_start :: "nat \<Rightarrow> nat" where "century_start n = (146097 * n + 3) div 4"
definition year_start :: "nat \<Rightarrow> nat" where "year_start i = (1461 * i) div 4"
definition month_start :: "nat \<Rightarrow> nat" where "month_start j = (2447 * j) div 80"

definition civil :: "nat \<Rightarrow> nat \<times> nat \<times> nat" where
  "civil l =
     (let n = (4 * l) div 146097;
          l = l - century_start n;
          i = (4000 * (l + 1)) div 1461001;
          l = l - year_start i + 31;
          j = (80 * l) div 2447;
          day = l - month_start j;
          l = j div 11
      in (100 * (n - 49) + i + l, j + 2 - 12 * l, day))"

definition civil_date :: "nat \<Rightarrow> nat \<Rightarrow> nat \<Rightarrow> nat \<Rightarrow> nat \<times> nat \<times> nat" where
  "civil_date n i j day = (100 * (n - 49) + i + j div 11, j + 2 - 12 * (j div 11), day)"

lemma div_index: "0 < k \<Longrightarrow> x div k = n \<longleftrightarrow> k * n \<le> x \<and> x < k * (n + 1)" for k n x :: nat
  by (metis Suc_eq_plus1 div_nat_eqI dividend_less_times_div times_div_less_eq_dividend mult.commute
      mult_Suc_right add.commute)

lemma century_index: "(4 * l) div 146097 = n \<longleftrightarrow> century_start n \<le> l \<and> l < century_start (n + 1)"
proof -
  have "(a + 3) div 4 \<le> l \<longleftrightarrow> a \<le> 4 * l" for a :: nat
    using div_less_iff_less_mult [of 4 "a + 3" "Suc l"] by (auto simp: less_Suc_eq_le)
  then have "century_start k \<le> l \<longleftrightarrow> 146097 * k \<le> 4 * l" for k
    unfolding century_start_def by blast
  from this [of n] this [of "n + 1"] div_index [of 146097 "4 * l" n] show ?thesis
    by (simp only: not_le [symmetric] zero_less_numeral)
qed

lemma century_length: "century_start (n + 1) = century_start n + (if n mod 4 = 0 then 36525 else 36524)"
proof -
  define q r where "q = n div 4" and "r = n mod 4"
  have split: "century_start (4 * q + k) = 146097 * q + (146097 * k + 3) div 4" for k
    using div_mult_self2 [of 4 "146097 * k + 3" "146097 * q"]
    by (simp add: century_start_def algebra_simps)
  have n: "n = 4 * q + r" "n + 1 = 4 * q + (r + 1)" by (simp_all add: q_def r_def)
  have "r < 4" by (simp add: r_def)
  then have "r \<in> {0, 1, 2, 3}" by auto
  then have "(146097 * (r + 1) + 3) div 4 = (146097 * r + 3) div 4 + (if r = 0 then 36525 else 36524)"
    by auto
  then show ?thesis
    unfolding n(2) split unfolding r_def [symmetric] by (simp add: n(1) split)
qed

lemma year_index:
  assumes "c < 36525"
  shows "(4000 * (c + 1)) div 1461001 = i \<longleftrightarrow> year_start i \<le> c \<and> c < year_start (i + 1)"
proof -
  define k where "k = (4 * c + 3) div 1461"
  have k: "1461 * k \<le> 4 * c + 3" "4 * c + 3 < 1461 * (k + 1)"
    using div_index [of 1461 "4 * c + 3" k] by (simp_all add: k_def)
  then have "(4000 * (c + 1)) div 1461001 = k" using assms by (subst div_index) auto
  moreover have "a div 4 \<le> c \<longleftrightarrow> a \<le> 4 * c + 3" for a :: nat
    using div_less_iff_less_mult [of 4 a "Suc c"] by (auto simp: less_Suc_eq_le)
  then have "year_start m \<le> c \<longleftrightarrow> 1461 * m \<le> 4 * c + 3" for m
    unfolding year_start_def by blast
  from this [of i] this [of "i + 1"] div_index [of 1461 "4 * c + 3" i]
  have "year_start i \<le> c \<and> c < year_start (i + 1) \<longleftrightarrow> (4 * c + 3) div 1461 = i"
    by (simp only: not_le [symmetric] zero_less_numeral)
  ultimately show ?thesis by (simp add: k_def)
qed

lemma month_index:
  assumes "31 \<le> d" "d \<le> 396"
  shows "(80 * d) div 2447 = j \<longleftrightarrow> month_start j < d \<and> d \<le> month_start (j + 1)"
proof -
  have lt: "a div 80 < d \<longleftrightarrow> a < 80 * d" for a :: nat
    by (simp add: div_less_iff_less_mult mult.commute)
  have ne: "2447 * k \<noteq> 80 * d" for k
  proof
    assume *: "2447 * k = 80 * d"
    have "coprime (80 :: nat) 2447" by code_simp
    moreover have "80 dvd 2447 * k" unfolding * by simp
    ultimately have "80 dvd k" by (simp only: coprime_dvd_mult_right_iff)
    then show False using * assms by (cases "k = 0") (auto dest: dvd_imp_le)
  qed
  have "month_start m < d \<longleftrightarrow> 2447 * m < 80 * d" for m
    unfolding month_start_def by (rule lt)
  then have "month_start j < d \<longleftrightarrow> 2447 * j \<le> 80 * d"
      "d \<le> month_start (j + 1) \<longleftrightarrow> 80 * d < 2447 * (j + 1)"
    using ne [of j] ne [of "j + 1"] by (metis le_less, metis not_less le_less)
  then show ?thesis using div_index [of 2447 "80 * d" j] by (simp only: zero_less_numeral)
qed

section \<open>Consecutive days\<close>

definition year_length :: "nat \<Rightarrow> nat \<Rightarrow> nat" where
  "year_length n i =
     (if (if i = 99 then n mod 4 = 0 else (i + 1) mod 4 = 0) then 366 else 365)"

text \<open>Day \<open>d\<close> of the year \<open>i\<close> of the century \<open>n\<close>, counted from the first of March.\<close>

definition at_day :: "nat \<Rightarrow> nat \<Rightarrow> nat \<Rightarrow> nat \<Rightarrow> bool" where
  "at_day n i d l \<longleftrightarrow> l = century_start n + year_start i + d \<and> i < 100 \<and> d < year_length n i"

lemma year_start_suc: "year_start (i + 1) = year_start i + (if (i + 1) mod 4 = 0 then 366 else 365)"
proof -
  define q r where "q = i div 4" and "r = i mod 4"
  have split: "year_start (4 * q + k) = 1461 * q + (1461 * k) div 4" for k
    using div_mult_self2 [of 4 "1461 * k" "1461 * q"] by (simp add: year_start_def algebra_simps)
  have n: "i = 4 * q + r" "i + 1 = 4 * q + (r + 1)" by (simp_all add: q_def r_def)
  have "r < 4" by (simp add: r_def)
  then have r: "r \<in> {0, 1, 2, 3}" by auto
  then have "(1461 * (r + 1)) div 4 = (1461 * r) div 4 + (if r = 3 then 366 else 365)" by auto
  moreover have "(i + 1) mod 4 = 0 \<longleftrightarrow> r = 3" unfolding r_def by presburger
  ultimately show ?thesis unfolding n(2) split by (simp add: n(1) split)
qed

lemma year_start_100: "year_start 99 = 36159" "year_start 100 = 36525" "year_start 0 = 0"
  by (simp_all add: year_start_def)

lemma year_start_mono: "i \<le> k \<Longrightarrow> year_start i \<le> year_start k"
  by (simp add: year_start_def div_le_mono)

lemma at_day_exists: "\<exists>n i d. at_day n i d l"
proof -
  define n where "n = (4 * l) div 146097"
  define c where "c = l - century_start n"
  have l: "l = century_start n + c" "c < (if n mod 4 = 0 then 36525 else 36524)"
    using century_index [of l n] century_length [of n] by (auto simp: c_def n_def)
  then have c: "c < 36525" by (auto split: if_splits)
  define i where "i = (4000 * (c + 1)) div 1461001"
  have i: "year_start i \<le> c" "c < year_start (i + 1)" using year_index [OF c, of i] by (simp_all add: i_def)
  have "i < 100" using i(1) c year_start_mono [of 100 i] year_start_100 by (cases "i < 100") auto
  moreover have "c - year_start i < year_length n i"
    using i l(2) year_start_suc [of i] year_start_100
    by (cases "i = 99") (auto simp: year_length_def split: if_splits)
  ultimately show ?thesis using l(1) i(1) by (intro exI [of _ n] exI [of _ i] exI [of _ "c - year_start i"])
      (simp add: at_day_def)
qed

lemma at_day_bounds:
  assumes "at_day n i d l"
  shows "year_start i + d < year_start (i + 1)"
    and "year_start i + d < (if n mod 4 = 0 then 36525 else 36524)"
    and "(4 * l) div 146097 = n"
proof -
  show y: "year_start i + d < year_start (i + 1)"
    using assms year_start_suc [of i] by (auto simp: at_day_def year_length_def split: if_splits)
  show c: "year_start i + d < (if n mod 4 = 0 then 36525 else 36524)"
  proof (cases "i = 99")
    case True
    then show ?thesis using assms year_start_100 by (auto simp: at_day_def year_length_def split: if_splits)
  next
    case False
    then have "year_start (i + 1) \<le> 36159"
      using assms year_start_mono [of "i + 1" 99] year_start_100 by (simp add: at_day_def)
    with y show ?thesis by simp
  qed
  show "(4 * l) div 146097 = n"
    using assms c century_length [of n] by (subst century_index) (simp add: at_day_def)
qed

lemma at_day_civil:
  assumes "at_day n i d l" "month_start j < d + 31" "d + 31 \<le> month_start (j + 1)"
  shows "civil l = civil_date n i j (d + 31 - month_start j)"
proof -
  note y = at_day_bounds [OF assms(1)]
  have yl: "year_length n i \<le> 366" by (simp add: year_length_def)
  have i: "(4000 * (year_start i + d + 1)) div 1461001 = i"
    using y by (subst year_index) (auto split: if_splits)
  have j: "(80 * (d + 31)) div 2447 = j"
    using assms yl by (subst month_index) (auto simp: at_day_def)
  have c: "l - century_start n = year_start i + d" using assms(1) by (simp add: at_day_def)
  show ?thesis
    unfolding civil_def Let_def y(3) c i add_diff_cancel_left' j civil_date_def by (rule refl)
qed

lemma at_day_suc:
  assumes "at_day n i d l"
  shows "d + 1 < year_length n i \<Longrightarrow> at_day n i (d + 1) (l + 1)"
    and "d + 1 = year_length n i \<Longrightarrow> i < 99 \<Longrightarrow> at_day n (i + 1) 0 (l + 1)"
    and "d + 1 = year_length n i \<Longrightarrow> i = 99 \<Longrightarrow> at_day (n + 1) 0 0 (l + 1)"
  using assms year_start_suc [of i] century_length [of n] year_start_100
  by (auto simp: at_day_def year_length_def split: if_splits)

lemma leap_year_length:
  assumes "49 \<le> n" "i < 100"
  shows "is_leap (100 * (n - 49) + i + 1) \<longleftrightarrow> year_length n i = 366"
proof -
  define k where "k = n - 49"
  have n: "n = k + 49" using assms(1) by (simp add: k_def)
  show ?thesis
  proof (cases "i = 99")
    case True
    have e: "100 * k + 99 + 1 = 100 * (k + 1)" by simp
    have "100 * (k + 1) mod 400 = 100 * ((k + 1) mod 4)" using mult_mod_right [of 100 "k + 1" 4] by simp
    then have "is_leap (100 * (k + 1)) \<longleftrightarrow> (k + 1) mod 4 = 0"
      unfolding is_leap_def by (auto simp: mod_eq_0_iff_dvd)
    moreover have "(k + 49) mod 4 = (k + 1) mod 4" by presburger
    ultimately show ?thesis unfolding True n k_def [symmetric] by (simp add: year_length_def e)
  next
    case False
    have "(100 * k + (i + 1)) mod 100 = i + 1" "(100 * k + (i + 1)) mod 4 = (i + 1) mod 4"
      using assms(2) False mod_mult_self3 [of "25 * k" 4 "i + 1"] by (simp_all add: mult.commute)
    then show ?thesis using False unfolding n by (simp add: is_leap_def year_length_def)
  qed
qed

lemma month_numbers: "{1..12 :: nat} = {1, 2, 3, 4, 5, 6, 7, 8, 9, 10, 11, 12}"
proof -
  have "{1..12 :: nat} = set [1..<13]" by auto
  also have "[1..<13] = [1, 2, 3, 4, 5, 6, 7, 8, 9, 10, 11, 12 :: nat]" by code_simp
  finally show ?thesis by simp
qed

lemma month_exists:
  assumes "d < 366"
  shows "\<exists>j. j \<in> {1, 2, 3, 4, 5, 6, 7, 8, 9, 10, 11, 12} \<and> month_start j < d + 31 \<and> d + 31 \<le> month_start (j + 1)"
proof -
  define j where "j = (80 * (d + 31)) div 2447"
  have "j \<in> {1..12}"
    using assms div_le_mono [of "80 * (d + 31)" "80 * 396" 2447] div_le_mono [of "80 * 31" "80 * (d + 31)" 2447]
    by (simp add: j_def)
  moreover have "month_start j < d + 31 \<and> d + 31 \<le> month_start (j + 1)"
    using month_index [of "d + 31" j] assms by (simp add: j_def)
  ultimately show ?thesis unfolding month_numbers by (rule_tac exI [of _ j]) (rule conjI)
qed

lemma civil_first_of_march: "at_day n i 0 l \<Longrightarrow> civil l = (100 * (n - 49) + i, 3, 1)"
  using at_day_civil [of n i 0 l 1] by (simp add: civil_date_def month_start_def)

lemma next_date_new_month:
  assumes "j \<in> {1, 2, 3, 4, 5, 6, 7, 8, 9, 10, 11}"
  shows "next_date (civil_date n i j (month_start (j + 1) - month_start j)) = civil_date n i (j + 1) 1"
  using assms by (elim insertE) (simp_all add: civil_date_def days_in_month_def month_start_def)

lemma next_date_same_month:
  assumes "j \<in> {1, 2, 3, 4, 5, 6, 7, 8, 9, 10, 11, 12}"
    and "day < (if j = 12 then if is_leap (100 * (n - 49) + i + 1) then 29 else 28
                else month_start (j + 1) - month_start j)"
  shows "next_date (civil_date n i j day) = civil_date n i j (day + 1)"
  using assms by (elim insertE) (simp_all add: civil_date_def days_in_month_def month_start_def)

text \<open>Inside a year the date advances by the calendar of that year.\<close>

lemma civil_within_year:
  assumes "at_day n i d l" "at_day n i (d + 1) (l + 1)" "49 \<le> n"
  shows "civil (l + 1) = next_date (civil l)"
proof -
  have yl: "year_length n i \<le> 366" by (simp add: year_length_def)
  have d: "d + 1 < year_length n i" and i: "i < 100" using assms(2) by (simp_all add: at_day_def)
  then obtain j where j: "j \<in> {1, 2, 3, 4, 5, 6, 7, 8, 9, 10, 11, 12}"
      "month_start j < d + 31" "d + 31 \<le> month_start (j + 1)"
    using month_exists [of d] yl by auto
  have c: "civil l = civil_date n i j (d + 31 - month_start j)"
    by (rule at_day_civil [OF assms(1) j(2,3)])
  show ?thesis
  proof (cases "d + 31 = month_start (j + 1)")
    case True
    then have "j \<noteq> 12" using d yl by (auto simp: month_start_def)
    then have j': "j \<in> {1, 2, 3, 4, 5, 6, 7, 8, 9, 10, 11}" using j(1) by auto
    have "month_start (j + 1) < d + 1 + 31" "d + 1 + 31 \<le> month_start (j + 2)"
      using True j' by (auto simp: month_start_def)
    then have "civil (l + 1) = civil_date n i (j + 1) (d + 1 + 31 - month_start (j + 1))"
      using at_day_civil [OF assms(2), of "j + 1"] by simp
    then show ?thesis using c next_date_new_month [OF j'] True by simp
  next
    case False
    then have "civil (l + 1) = civil_date n i j (d + 1 + 31 - month_start j)"
      using at_day_civil [OF assms(2), of j] j by simp
    moreover have "month_start 12 = 367" by (simp add: month_start_def)
    then have "d + 31 - month_start j < (if j = 12 then if is_leap (100 * (n - 49) + i + 1) then 29 else 28
                else month_start (j + 1) - month_start j)"
      using False j(2,3) d leap_year_length [OF assms(3) i] by (auto simp: year_length_def split: if_splits)
    moreover have "d + 1 + 31 - month_start j = d + 31 - month_start j + 1" using j(2) by simp
    ultimately show ?thesis using c next_date_same_month [OF j(1)] by metis
  qed
qed

lemma civil_end_of_year:
  assumes "at_day n i d l" "d + 1 = year_length n i" "49 \<le> n"
  shows "civil (l + 1) = next_date (civil l)"
proof -
  have d: "d = 364 \<or> d = 365" "i < 100" "d = 365 \<longleftrightarrow> year_length n i = 366"
    using assms by (auto simp: year_length_def at_day_def split: if_splits)
  then have j: "month_start 12 < d + 31" "d + 31 \<le> month_start (12 + 1)"
    by (auto simp: month_start_def)
  have c: "civil l = (100 * (n - 49) + i + 1, 2, d - 336)"
    using at_day_civil [OF assms(1) j] d by (auto simp: civil_date_def month_start_def)
  have m: "civil (l + 1) = (100 * (n - 49) + i + 1, 3, 1)"
  proof (cases "i = 99")
    case True
    then show ?thesis
      using civil_first_of_march [OF at_day_suc(3) [OF assms(1,2)]] assms(3) by simp
  next
    case False
    then show ?thesis
      using civil_first_of_march [OF at_day_suc(2) [OF assms(1,2)]] d(2) by simp
  qed
  have "days_in_month (100 * (n - 49) + i + 1) 2 = d - 336"
    using leap_year_length [OF assms(3) d(2)] d by (auto simp: days_in_month_def)
  then show ?thesis unfolding c m by simp
qed

lemma civil_suc:
  assumes "century_start 49 \<le> l"
  shows "civil (l + 1) = next_date (civil l)"
proof -
  obtain n i d where a: "at_day n i d l" using at_day_exists by blast
  have "(4 * century_start 49) div 146097 \<le> (4 * l) div 146097"
    using assms by (intro div_le_mono) simp
  then have "49 \<le> n" using at_day_bounds(3) [OF a] by (simp add: century_start_def)
  then show ?thesis
    using civil_within_year [OF a at_day_suc(1) [OF a]] civil_end_of_year [OF a] a
    by (cases "d + 1 = year_length n i") (auto simp: at_day_def)
qed

section \<open>From words to numbers\<close>

definition date_nat :: "word_t \<times> word_t \<times> word_t \<Rightarrow> nat \<times> nat \<times> nat" where
  "date_nat = (\<lambda>(y, m, d). (unat y, unat m, unat d))"

lemma julian_day_civil:
  assumes "1721120 \<le> unat jd" "unat jd < 10 ^ 9"
  shows "date_nat (julian_day_to_gregorian jd) = civil (unat jd + 68569)"
proof -
  define L where "L = unat jd + 68569"
  obtain n i d where a: "at_day n i d L" using at_day_exists by blast
  note b = at_day_bounds [OF a]
  have yl: "d < 366" using a by (auto simp: at_day_def year_length_def split: if_splits)
  then obtain j where j: "j \<in> {1, 2, 3, 4, 5, 6, 7, 8, 9, 10, 11, 12}"
      "month_start j < d + 31" "d + 31 \<le> month_start (j + 1)"
    using month_exists by blast
  have L: "L < 1000068569" "1789689 \<le> L" using assms by (simp_all add: L_def)
  have n: "49 \<le> n" "n < 28000"
    using b(3) div_le_mono [of "4 * 1789689" "4 * L" 146097] div_le_mono [of "4 * L" "4 * 1000068569" 146097] L
    by simp_all
  have c: "L - century_start n = year_start i + d" using a by (simp add: at_day_def)
  have c36: "year_start i + d < 36525" using b(2) by (auto split: if_splits)
  have i100: "i < 100" using a by (simp add: at_day_def)
  have yi: "(4000 * (year_start i + d + 1)) div 1461001 = i"
    using b c36 by (subst year_index) auto
  have mj: "(80 * (d + 31)) div 2447 = j" using j yl by (subst month_index) auto
  define l1 where "l1 = jd + 68569"
  define n1 where "n1 = (4 * l1) div 146097"
  define l2 where "l2 = l1 - (146097 * n1 + 3) div 4"
  define i1 where "i1 = (4000 * (l2 + 1)) div 1461001"
  define l3 where "l3 = l2 - (1461 * i1) div 4 + 31"
  define j1 where "j1 = (80 * l3) div 2447"
  have l1: "unat l1 = L" using assms by (simp add: l1_def L_def unat_plus_bound)
  have n1: "unat n1 = n"
    using L b(3) l1 by (simp add: n1_def unat_div unat_times_const)
  have "unat ((146097 * n1 + 3) div 4) = century_start n"
    using n1 n by (simp add: unat_div unat_times_const unat_plus_bound century_start_def)
  then have l2: "unat l2 = year_start i + d"
    using l1 c a by (simp add: l2_def unat_minus_bound at_day_def)
  have "unat (l2 + 1) = year_start i + d + 1"
    using l2 c36 by (simp add: unat_plus_bound)
  moreover have "4000 * (year_start i + d + 1) < 2 ^ 32" using c36 by simp
  ultimately have "unat (4000 * (l2 + 1)) = 4000 * (year_start i + d + 1)"
    using unat_times_const [of 4000 "l2 + 1"] by (simp del: distrib_left_numeral)
  then have i1: "unat i1 = i" using yi by (simp add: i1_def unat_div del: distrib_left_numeral)
  have "unat ((1461 * i1) div 4) = year_start i"
    using i1 i100 by (simp add: unat_div unat_times_const year_start_def)
  then have l3: "unat l3 = d + 31"
    using l2 yl by (simp add: l3_def unat_minus_bound unat_plus_bound)
  have "80 * (d + 31) < 2 ^ 32" using yl by simp
  then have "unat (80 * l3) = 80 * (d + 31)"
    using unat_times_const [of 80 l3] l3 by (simp del: distrib_left_numeral)
  then have j1: "unat j1 = j" using mj by (simp add: j1_def unat_div del: distrib_left_numeral)
  have j13: "j < 13" using j(1) by auto
  have day: "unat (l3 - (2447 * j1) div 80) = d + 31 - month_start j"
    using j1 l3 j(2) j13 by (simp add: unat_minus_bound unat_div unat_times_const month_start_def)
  have j11: "unat (j1 div 11) = j div 11" using j1 by (simp add: unat_div)
  have month: "unat (j1 + 2 - 12 * (j1 div 11)) = j + 2 - 12 * (j div 11)"
    using j1 j11 j(1) by (auto simp: unat_minus_bound unat_plus_bound unat_times_const)
  have year: "unat (100 * (n1 - 49) + i1 + j1 div 11) = 100 * (n - 49) + i + j div 11"
    using n1 i1 j11 n i100 j13 by (simp add: unat_minus_bound unat_plus_bound unat_times_const)
  have "julian_day_to_gregorian jd =
      (100 * (n1 - 49) + i1 + j1 div 11, j1 + 2 - 12 * (j1 div 11), l3 - (2447 * j1) div 80)"
    by (simp only: julian_day_to_gregorian_def Let_def j1_def l3_def i1_def l2_def n1_def l1_def)
  then show ?thesis
    using day month year at_day_civil [OF a j(2,3)] by (simp add: date_nat_def civil_date_def L_def)
qed

section \<open>Days of the week\<close>

definition leap_days :: "nat \<Rightarrow> nat" where
  "leap_days y = y + y div 4 - y div 100 + y div 400"

definition weekday :: "nat \<times> nat \<times> nat \<Rightarrow> nat" where
  "weekday = (\<lambda>(y, m, d).
     (let a = (14 - m) div 12 in d + leap_days (y - a) + 31 * (m + 12 * a - 2) div 12) mod 7)"

lemma leap_days_suc: "leap_days (y + 1) = leap_days y + 1 + (if is_leap (y + 1) then 1 else 0)"
proof -
  have a: "Suc y mod 100 = 0 \<Longrightarrow> Suc y mod 4 = 0" "Suc y mod 400 = 0 \<Longrightarrow> Suc y mod 100 = 0"
    using dvd_trans [of 4 100 "Suc y"] dvd_trans [of 100 400 "Suc y"] by (simp_all add: mod_eq_0_iff_dvd)
  have "y div 100 \<le> y" by simp
  then show ?thesis using a by (auto simp: leap_days_def is_leap_def div_Suc Suc_diff_le trans_le_add1)
qed

lemma next_date_valid: "valid_date t \<Longrightarrow> valid_date (next_date t)"
  by (cases t) (auto simp: valid_date_def days_in_month_def)

lemma mod_7_cong: "a \<le> b \<Longrightarrow> 7 dvd b - a \<Longrightarrow> a mod 7 = b mod 7" for a b :: nat
  using mod_eq_dvd_iff_nat [of a b 7] by simp

lemma weekday_next:
  assumes "valid_date (y, m, d)" "1 \<le> y"
  shows "weekday (next_date (y, m, d)) = (weekday (y, m, d) + 1) mod 7"
proof (cases "d < days_in_month y m")
  case True
  then show ?thesis by (simp add: weekday_def Let_def mod_Suc_eq)
next
  case False
  then have d: "d = days_in_month y m" and m: "m \<in> {1..12}" using assms(1) by (simp_all add: valid_date_def)
  define P where "P = leap_days (y - 1)"
  have p: "leap_days (y - Suc 0) = P" "leap_days y = P + 1 + (if is_leap y then 1 else 0)"
    using leap_days_suc [of "y - 1"] assms(2) by (simp_all add: P_def)
  from m show ?thesis
    unfolding month_numbers d
    by (elim insertE; cases "is_leap y")
      (simp_all add: weekday_def Let_def days_in_month_def mod_Suc_eq p, (rule mod_7_cong; simp)+)
qed

lemma year_of_next: "valid_date t \<Longrightarrow> fst t \<le> fst (next_date t)"
  by (cases t) auto

text \<open>Day 1789995 of the algorithm is the first day of the year 1, a Monday.\<close>

lemma civil_base: "civil 1789995 = (1, 1, 1)"
proof -
  have "at_day 49 0 306 1789995"
    by (simp add: at_day_def century_start_def year_start_def year_length_def)
  from at_day_civil [OF this, of 11] show ?thesis by (simp add: civil_date_def month_start_def)
qed

lemma civil_weekday:
  "valid_date (civil (1789995 + k)) \<and> 1 \<le> fst (civil (1789995 + k)) \<and>
   weekday (civil (1789995 + k)) = (k + 1) mod 7"
proof (induction k)
  case 0
  have "weekday (1, 1, 1) = 1" by (simp add: weekday_def leap_days_def Let_def)
  moreover have "valid_date (1, 1, 1)" by (simp add: valid_date_def days_in_month_def)
  ultimately show ?case by (simp add: civil_base)
next
  case (Suc k)
  obtain y m d where t: "civil (1789995 + k) = (y, m, d)" by (cases "civil (1789995 + k)")
  have "civil (1789995 + Suc k) = next_date (y, m, d)"
    using civil_suc [of "1789995 + k"] t by (simp add: century_start_def)
  then show ?case
    using Suc t weekday_next [of y m d] next_date_valid [of "(y, m, d)"] year_of_next [of "(y, m, d)"]
    by (simp add: mod_Suc_eq)
qed

lemma civil_year_less:
  assumes "l < 1000068569"
  shows "fst (civil l) < 10 ^ 8"
proof -
  obtain n i d where a: "at_day n i d l" using at_day_exists by blast
  have "d < 366" using a by (auto simp: at_day_def year_length_def split: if_splits)
  then obtain j where j: "j \<in> {1, 2, 3, 4, 5, 6, 7, 8, 9, 10, 11, 12}"
      "month_start j < d + 31" "d + 31 \<le> month_start (j + 1)"
    using month_exists by blast
  then have "j div 11 \<le> 1" by auto
  moreover have "n < 28000"
    using at_day_bounds(3) [OF a] div_le_mono [of "4 * l" "4 * 1000068569" 146097] assms by simp
  moreover have "i < 100" using a by (simp add: at_day_def)
  ultimately show ?thesis using at_day_civil [OF a j(2,3)] by (simp add: civil_date_def)
qed

lemma day_of_week_unat:
  assumes "valid_date (unat y, unat m, unat d)" "1 \<le> unat y" "unat y < 10 ^ 8"
  shows "unat (day_of_week y m d) = weekday (unat y, unat m, unat d)"
proof -
  have m: "1 \<le> unat m" "unat m \<le> 12" and d: "unat d \<le> 31"
    using assms(1) by (auto simp: valid_date_def days_in_month_def split: if_splits)
  define a y' m' where "a = (14 - m) div 12" and "y' = y - a" and "m' = m + 12 * a - 2"
  have a: "unat a = (14 - unat m) div 12" using m by (simp add: a_def unat_div unat_minus_bound)
  then have a1: "unat a \<le> 1" using m by auto
  have y': "unat y' = unat y - unat a" using a1 assms(2) by (simp add: y'_def unat_minus_bound)
  have m2: "2 \<le> unat m + 12 * unat a" using m a by (cases "unat m = 1") auto
  have "unat (m + 12 * a) = unat m + 12 * unat a"
    using m a1 by (simp add: unat_plus_bound unat_times_const)
  then have m': "unat m' = unat m + 12 * unat a - 2" using m2 by (simp add: m'_def unat_minus_bound)
  have b: "unat y' < 10 ^ 8" "unat m' < 23" using assms(3) y' m' m a1 by simp_all
  have "unat y' div 100 \<le> unat y'" by simp
  then have "unat (d + y' + y' div 4 - y' div 100 + y' div 400 + 31 * m' div 12) =
      unat d + leap_days (unat y') + 31 * unat m' div 12"
    using b d by (simp add: unat_plus_bound unat_minus_bound unat_div unat_times_const leap_days_def)
      (simp add: add.assoc)
  then have "unat (day_of_week y m d) = (unat d + leap_days (unat y') + 31 * unat m' div 12) mod 7"
    unfolding day_of_week_def Let_def a_def [symmetric] y'_def [symmetric] m'_def [symmetric]
    by (simp only: unat_mod unat_numeral) simp
  then show ?thesis
    unfolding y' m' a by (simp add: weekday_def Let_def)
qed

section \<open>Properties\<close>

lemma epoch_day: "date_nat (julian_day_to_gregorian 2440588) = (1970, 1, 1)"
proof -
  have "at_day 68 69 306 2509157"
    by (simp add: at_day_def century_start_def year_start_def year_length_def)
  from at_day_civil [OF this, of 11] show ?thesis
    by (simp add: julian_day_civil civil_date_def month_start_def)
qed

text \<open>
  C25: Julian days run through the Gregorian calendar. Day 2440588 is the first of January 1970, and
  for every day number from the year 1 up to the number 10 ^ 9 the computation, with all its
  divisions by magic constants on 32-bit words, yields a valid date, and the next day number
  yields the next date of the calendar, leap years included.
\<close>

theorem julian_day_consecutive:
  assumes "1721426 \<le> unat jd" "unat jd + 1 < 10 ^ 9"
  shows "date_nat (julian_day_to_gregorian 2440588) = (1970, 1, 1) \<and>
         valid_date (date_nat (julian_day_to_gregorian jd)) \<and>
         date_nat (julian_day_to_gregorian (jd + 1)) = next_date (date_nat (julian_day_to_gregorian jd))"
proof -
  have "unat (jd + 1) = unat jd + 1" using assms(2) by (simp add: unat_plus_bound)
  then have "date_nat (julian_day_to_gregorian (jd + 1)) = civil (unat jd + 68569 + 1)"
    using julian_day_civil [of "jd + 1"] assms by simp
  moreover have "date_nat (julian_day_to_gregorian jd) = civil (unat jd + 68569)"
    using julian_day_civil [of jd] assms by simp
  moreover have "civil (unat jd + 68569 + 1) = next_date (civil (unat jd + 68569))"
    using assms(1) by (intro civil_suc) (simp add: century_start_def)
  moreover have "valid_date (civil (unat jd + 68569))"
    using civil_weekday [of "unat jd - 1721426"] assms(1) by (simp add: add.commute)
  ultimately show ?thesis using epoch_day by simp
qed

theorem julian_day_consecutive_witness:
  "date_nat (julian_day_to_gregorian 2440589) = (1970, 1, 2)"
proof -
  have "days_in_month 1970 1 = 31" by (simp add: days_in_month_def)
  then show ?thesis using julian_day_consecutive [of 2440588] epoch_day by simp
qed

text \<open>
  C27: The day of the week. For every day from the year 1 on, the weekday that \<^verbatim>\<open>day_of_week\<close>
  computes from the date of a Julian day is that day number plus one modulo seven (0 is Sunday): the
  weekdays follow each other without a break across months, years and leap days.
\<close>

theorem day_of_week_continuous:
  assumes "1721426 \<le> unat jd" "unat jd < 10 ^ 9"
  shows "case julian_day_to_gregorian jd of (y, m, d) \<Rightarrow> unat (day_of_week y m d) = (unat jd + 1) mod 7"
proof -
  obtain y m d where g: "julian_day_to_gregorian jd = (y, m, d)" by (cases "julian_day_to_gregorian jd")
  define k where "k = unat jd - 1721426"
  have k: "unat jd + 68569 = 1789995 + k" using assms(1) by (simp add: k_def)
  have c: "(unat y, unat m, unat d) = civil (1789995 + k)"
    using julian_day_civil [of jd] assms g k by (simp add: date_nat_def)
  have w: "valid_date (unat y, unat m, unat d)" "1 \<le> unat y"
    "weekday (unat y, unat m, unat d) = (k + 1) mod 7"
    using civil_weekday [of k] by (simp_all add: c [symmetric])
  have "unat y < 10 ^ 8"
    using civil_year_less [of "1789995 + k"] assms(2) k by (simp add: c [symmetric])
  then have "unat (day_of_week y m d) = (k + 1) mod 7" using day_of_week_unat [OF w(1,2)] w(3) by simp
  moreover have "(unat jd + 1) mod 7 = (k + 1) mod 7"
    using assms(1) mod_7_cong [of "k + 1" "unat jd + 1"] by (simp add: k_def)
  ultimately show ?thesis by (simp add: g)
qed

theorem day_of_week_continuous_witness:
  "case julian_day_to_gregorian 2440588 of (y, m, d) \<Rightarrow> unat (day_of_week y m d) = 4"
  using day_of_week_continuous [of 2440588] by simp

lemma unix_to_gregorian_time:
  "case unix_to_gregorian t of (date, (h, mi, s)) \<Rightarrow>
     unat h < 24 \<and> unat mi < 60 \<and> unat s < 60 \<and>
     3600 * unat h + 60 * unat mi + unat s = unat t mod 86400"
proof -
  have "unat t mod 86400 = 60 * (unat t div 60 mod 1440) + unat t mod 60"
    using mod_mult2_eq [of "unat t" 60 1440] by simp
  moreover have "unat t div 60 mod 1440 = 60 * (unat t div 60 div 60 mod 24) + unat t div 60 mod 60"
    using mod_mult2_eq [of "unat t div 60" 60 24] by simp
  ultimately show ?thesis
    by (simp add: unix_to_gregorian_def Let_def unat_mod unat_div)
qed

text \<open>
  C26: Unix time. The time of day is exact: hours, minutes and seconds are in range and recompose to
  the seconds since midnight. The date is the calendar date of the Unix day only in the second half
  of the day; before noon it is the date of the day before, because twelve hours are added to a
  day count that is already rounded down to midnight.
\<close>

theorem unix_to_gregorian_time_and_date:
  assumes "unat t + 43200 < 2 ^ 32"
  shows "case unix_to_gregorian t of (date, (h, mi, s)) \<Rightarrow>
     unat h < 24 \<and> unat mi < 60 \<and> unat s < 60 \<and>
     3600 * unat h + 60 * unat mi + unat s = unat t mod 86400 \<and>
     date = julian_day_to_gregorian
       (if unat t mod 86400 < 43200 then t div 86400 + 2440587 else t div 86400 + 2440588)"
proof -
  have hm: "unat t = 86400 * (unat t div 86400) + unat t mod 86400" by simp
  have "unat t div 86400 + 1 < 2 ^ 32"
    using div_le_mono [of "unat t" "2 ^ 32" 86400] assms by simp
  then have d1: "unat (t div 86400 + 1) = unat t div 86400 + 1" by (simp add: unat_plus_bound unat_div)
  have "unat (t + 43200) = unat t + 43200" using assms by (simp add: unat_plus_bound)
  then have "unat ((t + 43200) div 86400) = (unat t + 43200) div 86400" by (simp add: unat_div)
  also have "\<dots> = unat t div 86400 + (if unat t mod 86400 < 43200 then 0 else 1)"
  proof (cases "unat t mod 86400 < 43200")
    case True
    then show ?thesis
      by (simp add: div_index) (use hm True in linarith)
  next
    case False
    have "unat t mod 86400 < 86400" by simp
    with False show ?thesis by (simp add: div_index) (use hm in linarith)
  qed
  finally have e: "(t + 43200) div 86400 = t div 86400 + (if unat t mod 86400 < 43200 then 0 else 1)"
    by (auto simp: word_unat_eq_iff unat_div d1 split: if_splits)
  show ?thesis
    using unix_to_gregorian_time [of t] e by (simp add: unix_to_gregorian_def Let_def add.commute)
qed

theorem unix_to_gregorian_time_and_date_witness:
  "case unix_to_gregorian 90061 of (date, (h, mi, s)) \<Rightarrow>
     date = julian_day_to_gregorian 2440588 \<and> 3600 * unat h + 60 * unat mi + unat s = 3661"
proof -
  have "(90061 :: word_t) div 86400 = 1" by simp
  then show ?thesis using unix_to_gregorian_time_and_date [of 90061]
    by (simp add: case_prod_beta)
qed

end
