(* ===== verification/Rtc.thy ===== *)
theory Rtc
  imports Intlogic Calendar
begin

text \<open>
  The real-time clock and CMOS memory: \<^verbatim>\<open>device/rtc.h\<close> and \<^verbatim>\<open>device/mc146818rtc.cc\<close>. The clock
  \<^verbatim>\<open>rtc\<close> and the state of the CMOS byte objects are records; every register class of the source
  has a read and a write operation, and \<open>mc146818rtc_portio\<close> dispatches an access to port 0x70 or
  0x71 to them. What the handlers take from outside is the record \<open>cmos_env\<close>: the
  back-end's clock, the size of the guest's memory and the place of the wedge in it as the resource
  monitor reports them, the geometry of the IDE disks (\<open>None\<close> in a build without
  \<^verbatim>\<open>CONFIG_DEVICE_IDE\<close>), and the host's CMOS memory. The QEMU variant of the registers 0x10 to 0x3f is off.
\<close>

section \<open>The clock\<close>

record rtc_t =
  last_update :: word_t
  rtc_seconds :: u8
  rtc_minutes :: u8
  rtc_hours :: u8
  rtc_week_day :: u8
  rtc_day :: u8
  rtc_month :: u8
  rtc_year :: u8
  periodic_freq :: u32
  periodic_enabled :: bool
  last_tick_us :: u64
  system_flags :: u8

record ide_geometry =
  ide_present :: bool
  chs_head :: u32
  chs_cylinder :: u32
  chs_sector :: u32

record cmos_env =
  unix_seconds :: word_t
  phys_size :: word_t
  wedge_paddr :: word_t
  wedge_end_paddr :: word_t
  ide_device :: "(nat \<Rightarrow> ide_geometry) option"
  hw_cmos :: "word_t \<Rightarrow> u8"

definition mc146818_irq :: u32 where "mc146818_irq = 8"

definition enable_periodic :: "rtc_t \<Rightarrow> rtc_t" where
  "enable_periodic r = r\<lparr>periodic_enabled := True\<rparr>"

definition disable_periodic :: "rtc_t \<Rightarrow> rtc_t" where
  "disable_periodic r = r\<lparr>periodic_enabled := False\<rparr>"

definition set_periodic_frequency :: "u32 \<Rightarrow> rtc_t \<Rightarrow> rtc_t" where
  "set_periodic_frequency freq r = r\<lparr>periodic_freq := freq\<rparr>"

text \<open>A frequency of zero makes the division trap.\<close>

definition periodic_tick ::
    "bool \<Rightarrow> u64 \<Rightarrow> rtc_t \<Rightarrow> 'w apic_wedge_scheme \<Rightarrow> (rtc_t \<times> 'w apic_wedge_scheme) option" where
  "periodic_tick apic now_us r w =
     (if \<not> periodic_enabled r then Some (r, w)
      else (let delta = now_us - last_tick_us r; r = r\<lparr>last_tick_us := now_us\<rparr> in do {
        ASSERT (periodic_freq r \<noteq> 0);
        if delta > ucast (1000 * 1000 div periodic_freq r) then do {
          w \<leftarrow> intlogic_raise_irq apic mc146818_irq w;
          Some (r, w) }
        else Some (r, w)
      }))"

definition set_system_flags :: "word_t \<Rightarrow> rtc_t \<Rightarrow> rtc_t" where
  "set_system_flags flags r = r\<lparr>system_flags := ucast flags\<rparr>"

definition rtc_init :: rtc_t where
  "rtc_init =
     \<lparr>last_update = 0, rtc_seconds = 0, rtc_minutes = 0, rtc_hours = 0, rtc_week_day = 0, rtc_day = 0,
      rtc_month = 0, rtc_year = 0, periodic_freq = 0, periodic_enabled = False, last_tick_us = 0,
      system_flags = 0x20\<rparr>"

definition legacy_0x92 :: "u32 \<Rightarrow> bool \<Rightarrow> rtc_t \<Rightarrow> u32 \<times> rtc_t" where
  "legacy_0x92 val read r =
     (if read then (ucast (system_flags r), r) else (val, set_system_flags val r))"

definition bin_to_bcd :: "u8 \<Rightarrow> u8" where
  "bin_to_bcd bin = push_bit 4 (bin div 10) OR (bin mod 10)"

definition do_update :: "cmos_env \<Rightarrow> rtc_t \<Rightarrow> rtc_t" where
  "do_update env r =
     (let r = r\<lparr>last_update := unix_seconds env\<rparr>;
          ((y, m, d), (h, mins, s)) = unix_to_gregorian (last_update r);
          r = r\<lparr>rtc_year := ucast y, rtc_month := ucast m, rtc_day := ucast d, rtc_hours := ucast h,
                rtc_minutes := ucast mins, rtc_seconds := ucast s\<rparr>
      in r\<lparr>rtc_week_day :=
             ucast (day_of_week (ucast (rtc_year r)) (ucast (rtc_month r)) (ucast (rtc_day r)))\<rparr>)"

section \<open>The CMOS bytes\<close>

record cmos_t =
  rtc :: rtc_t
  cmos_01 :: u8
  cmos_03 :: u8
  cmos_05 :: u8
  cmos_0a :: u8
  cmos_0b :: u8
  cmos_0c :: u8
  cmos_0d :: u8
  cmos_0f :: u8
  addr_port :: word_t

definition upd_rtc :: "(rtc_t \<Rightarrow> rtc_t) \<Rightarrow> cmos_t \<Rightarrow> cmos_t" where
  "upd_rtc f c = c\<lparr>rtc := f (rtc c)\<rparr>"

definition CMOS_00_read :: "cmos_env \<Rightarrow> cmos_t \<Rightarrow> u8 \<times> cmos_t" where
  "CMOS_00_read env c = (let c = upd_rtc (do_update env) c in (bin_to_bcd (rtc_seconds (rtc c)), c))"

definition CMOS_01_write :: "u8 \<Rightarrow> cmos_t \<Rightarrow> cmos_t" where
  "CMOS_01_write v c = c\<lparr>cmos_01 := v\<rparr>"

definition CMOS_02_read :: "cmos_t \<Rightarrow> u8" where
  "CMOS_02_read c = bin_to_bcd (rtc_minutes (rtc c))"

definition CMOS_03_write :: "u8 \<Rightarrow> cmos_t \<Rightarrow> cmos_t" where
  "CMOS_03_write v c = c\<lparr>cmos_03 := v\<rparr>"

definition CMOS_04_read :: "cmos_t \<Rightarrow> u8" where
  "CMOS_04_read c = bin_to_bcd (rtc_hours (rtc c))"

definition CMOS_05_write :: "u8 \<Rightarrow> cmos_t \<Rightarrow> cmos_t" where
  "CMOS_05_write v c = c\<lparr>cmos_05 := v\<rparr>"

definition CMOS_06_read :: "cmos_t \<Rightarrow> u8" where
  "CMOS_06_read c = bin_to_bcd (rtc_week_day (rtc c))"

definition CMOS_07_read :: "cmos_t \<Rightarrow> u8" where
  "CMOS_07_read c = bin_to_bcd (rtc_day (rtc c))"

definition CMOS_08_read :: "cmos_t \<Rightarrow> u8" where
  "CMOS_08_read c = bin_to_bcd (rtc_month (rtc c))"

definition CMOS_09_read :: "cmos_t \<Rightarrow> u8" where
  "CMOS_09_read c = bin_to_bcd (rtc_year (rtc c))"

text \<open>
  For the rate 0 the source shifts by -1, for which the IA32 shift instruction uses the count 31.
\<close>

definition rate_frequency :: "u8 \<Rightarrow> u32" where
  "rate_frequency raw =
     (let rate = unat (getf 0 4 raw) in drop_bit (if rate = 0 then 31 else rate - 1) 32768)"

definition CMOS_0a_write :: "u8 \<Rightarrow> cmos_t \<Rightarrow> cmos_t" where
  "CMOS_0a_write v c =
     (let c = c\<lparr>cmos_0a := v\<rparr> in upd_rtc (set_periodic_frequency (rate_frequency (cmos_0a c))) c)"

definition CMOS_0a_read :: "cmos_env \<Rightarrow> cmos_t \<Rightarrow> u8 \<times> cmos_t" where
  "CMOS_0a_read env c =
     (let c = c\<lparr>cmos_0a := putf 7 1 (if getf 7 1 (cmos_0a c) = 0 then 1 else 0) (cmos_0a c)\<rparr>;
          c = (if getf 7 1 (cmos_0a c) = 0 then upd_rtc (do_update env) c else c)
      in (cmos_0a c, c))"

definition CMOS_0b_write ::
    "bool \<Rightarrow> u8 \<Rightarrow> cmos_t \<Rightarrow> 'w apic_wedge_scheme \<Rightarrow> (cmos_t \<times> 'w apic_wedge_scheme) option" where
  "CMOS_0b_write apic v c w =
     (let c = c\<lparr>cmos_0b := v\<rparr> in
      if getf 6 1 (cmos_0b c) \<noteq> 0 then do {
        let c = upd_rtc enable_periodic c;
        w \<leftarrow> intlogic_raise_irq apic mc146818_irq w;
        Some (c, w) }
      else Some (upd_rtc disable_periodic c, w))"

definition CMOS_0f_write :: "u8 \<Rightarrow> cmos_t \<Rightarrow> cmos_t" where
  "CMOS_0f_write v c = c\<lparr>cmos_0f := v\<rparr>"

text \<open>The registers 0x10 to 0x3f: the equipment, the memory size and the disks.\<close>

definition ext_mem_kb :: "cmos_env \<Rightarrow> word_t" where
  "ext_mem_kb env = min (drop_bit 10 (phys_size env) - 0x400) 0xffff"

definition ext_mem_64kb :: "cmos_env \<Rightarrow> word_t" where
  "ext_mem_64kb env =
     min (if phys_size env > 0x01000000 then drop_bit 16 (phys_size env) - 0x100 else 0) 0xffff"

definition ide_param :: "ide_geometry \<Rightarrow> word_t \<Rightarrow> word_t" where
  "ide_param dev val = (if ide_present dev then val else 0)"

definition ide_control :: "ide_geometry \<Rightarrow> word_t" where
  "ide_control dev = ide_param dev (0xc0 OR push_bit 3 (if chs_head dev > 8 then 1 else 0))"

definition CMOS_ide_read :: "(nat \<Rightarrow> ide_geometry) \<Rightarrow> word_t \<Rightarrow> word_t option" where
  "CMOS_ide_read ide port =
     (let c = ide 0; d = ide 1; lo = (\<lambda>x. x AND 0xff); hi = (\<lambda>x. drop_bit 8 x AND 0xff) in
      if port = 0x19 \<or> port = 0x1a then Some 0x2f
      else if port = 0x1b then Some (ide_param c (lo (chs_cylinder c)))
      else if port = 0x1c then Some (ide_param c (hi (chs_cylinder c)))
      else if port = 0x1d then Some (ide_param c (chs_head c))
      else if port = 0x1e \<or> port = 0x1f then Some 0xff
      else if port = 0x20 then Some (ide_control c)
      else if port = 0x21 then Some (ide_param c (lo (chs_cylinder c)))
      else if port = 0x22 then Some (ide_param c (hi (chs_cylinder c)))
      else if port = 0x23 then Some (ide_param c (chs_sector c))
      else if port = 0x24 then Some (ide_param d (lo (chs_cylinder d)))
      else if port = 0x25 then Some (ide_param d (hi (chs_cylinder d)))
      else if port = 0x26 then Some (ide_param d (chs_head d))
      else if port = 0x27 \<or> port = 0x28 then Some 0xff
      else if port = 0x29 then Some (ide_control d)
      else if port = 0x2a then Some (ide_param d (lo (chs_cylinder d)))
      else if port = 0x2b then Some (ide_param d (hi (chs_cylinder d)))
      else if port = 0x2c then Some (ide_param d (chs_sector d))
      else None)"

definition CMOS_10_3f_read :: "cmos_env \<Rightarrow> word_t \<Rightarrow> cmos_t \<Rightarrow> u8" where
  "CMOS_10_3f_read env port c =
     ucast (
      if port = 0x10 then 0
      else if port = 0x11 then 0xc4
      else if port = 0x12 then
        (case ide_device env of
           Some ide \<Rightarrow> (if ide_present (ide 0) then 0xf0 else 0) OR (if ide_present (ide 1) then 0x0f else 0)
         | None \<Rightarrow> 0)
      else if port = 0x13 then 0
      else if port = 0x14 then 0x0f
      else if port = 0x15 then 640 AND 0xff
      else if port = 0x16 then drop_bit 8 640 AND 0xff
      else if port = 0x17 then ext_mem_kb env AND 0xff
      else if port = 0x18 then drop_bit 8 (ext_mem_kb env) AND 0xff
      else (case Option.bind (ide_device env) (\<lambda>ide. CMOS_ide_read ide port) of
        Some val \<Rightarrow> val
      | None \<Rightarrow>
        if port = 0x2d then ucast (system_flags (rtc c))
        else if port = 0x2e \<or> port = 0x2f then 0
        else if port = 0x30 then ext_mem_kb env AND 0xff
        else if port = 0x31 then drop_bit 8 (ext_mem_kb env) AND 0xff
        else if port = 0x34 then ext_mem_64kb env AND 0xff
        else if port = 0x35 then drop_bit 8 (ext_mem_64kb env) AND 0xff
        else if port = 0x37 then 0
        else if port = 0x38 then 0
        else if port = 0x39 then 0x1111
        else if port = 0x3a then 0
        else if port = 0x3d then 0x32
        else ucast (hw_cmos env port)))"

definition CMOS_10_3f_write :: "word_t \<Rightarrow> u8 \<Rightarrow> cmos_t \<Rightarrow> cmos_t" where
  "CMOS_10_3f_write port v c =
     (if port = 0x2d then upd_rtc (set_system_flags (ucast v)) c else c)"

definition ROUND_UP :: "word_t \<Rightarrow> word_t \<Rightarrow> word_t" where
  "ROUND_UP x y = (x + y - 1) AND NOT (y - 1)"

definition CMOS_80_read :: "cmos_env \<Rightarrow> u8" where
  "CMOS_80_read env = ucast (drop_bit 20 (wedge_paddr env))"

definition CMOS_81_read :: "cmos_env \<Rightarrow> u8" where
  "CMOS_81_read env =
     ucast (drop_bit 20 (ROUND_UP (wedge_end_paddr env - wedge_paddr env) (4 * 1024 * 1024)))"

section \<open>Port access\<close>

definition CMOS_registers_read :: "cmos_env \<Rightarrow> word_t \<Rightarrow> cmos_t \<Rightarrow> u8 \<times> cmos_t" where
  "CMOS_registers_read env port c =
     (if port = 0x00 then CMOS_00_read env c
      else if port = 0x01 then (cmos_01 c, c)
      else if port = 0x02 then (CMOS_02_read c, c)
      else if port = 0x03 then (cmos_03 c, c)
      else if port = 0x04 then (CMOS_04_read c, c)
      else if port = 0x05 then (cmos_05 c, c)
      else if port = 0x06 then (CMOS_06_read c, c)
      else if port = 0x07 then (CMOS_07_read c, c)
      else if port = 0x08 then (CMOS_08_read c, c)
      else if port = 0x09 then (CMOS_09_read c, c)
      else if port = 0x0a then CMOS_0a_read env c
      else if port = 0x0b then (cmos_0b c, c)
      else if port = 0x0c then (cmos_0c c, c)
      else if port = 0x0d then (cmos_0d c, c)
      else if port = 0x0e then (0, c)
      else if port = 0x0f then (cmos_0f c, c)
      else (CMOS_10_3f_read env port c, c))"

definition CMOS_registers_write ::
    "bool \<Rightarrow> word_t \<Rightarrow> u8 \<Rightarrow> cmos_t \<Rightarrow> 'w apic_wedge_scheme \<Rightarrow> (cmos_t \<times> 'w apic_wedge_scheme) option" where
  "CMOS_registers_write apic port v c w =
     (if port = 0x01 then Some (CMOS_01_write v c, w)
      else if port = 0x03 then Some (CMOS_03_write v c, w)
      else if port = 0x05 then Some (CMOS_05_write v c, w)
      else if port = 0x0a then Some (CMOS_0a_write v c, w)
      else if port = 0x0b then CMOS_0b_write apic v c w
      else if port = 0x0f then Some (CMOS_0f_write v c, w)
      else if 0x10 \<le> port then Some (CMOS_10_3f_write port v c, w)
      else Some (c, w))"

definition mc146818rtc_portio ::
    "bool \<Rightarrow> cmos_env \<Rightarrow> u16 \<Rightarrow> u32 \<Rightarrow> bool \<Rightarrow> cmos_t \<Rightarrow> 'w apic_wedge_scheme \<Rightarrow>
     (u32 \<times> cmos_t \<times> 'w apic_wedge_scheme) option" where
  "mc146818rtc_portio apic env port val read c w =
     (if port = 0x70 then
        Some (if read then (addr_port c, c, w) else (val, c\<lparr>addr_port := val\<rparr>, w))
      else if port = 0x71 then
        (if addr_port c \<le> 0x3f then
           (if read then
              (let (v, c) = CMOS_registers_read env (addr_port c) c in Some (ucast v, c, w))
            else do {
              (c, w) \<leftarrow> CMOS_registers_write apic (addr_port c) (ucast val) c w;
              Some (val, c, w) })
         else if 0x80 \<le> addr_port c \<and> addr_port c \<le> 0x81 then
           Some (if read then
                   (ucast (if addr_port c = 0x80 then CMOS_80_read env else CMOS_81_read env), c, w)
                 else (val, c, w))
         else Some (val, c, w))
      else Some (val, c, w))"

definition rtc_set_cmos_data ::
    "bool \<Rightarrow> u16 \<Rightarrow> u8 \<Rightarrow> cmos_t \<Rightarrow> 'w apic_wedge_scheme \<Rightarrow> (cmos_t \<times> 'w apic_wedge_scheme) option" where
  "rtc_set_cmos_data apic addr v c w =
     (if addr \<le> 0x3f then CMOS_registers_write apic (ucast addr) v c w else Some (c, w))"

text \<open>The static objects after their constructors.\<close>

definition CMOS_init :: cmos_t where
  "CMOS_init =
     \<lparr>rtc = set_periodic_frequency (rate_frequency 0x26) rtc_init, cmos_01 = 0, cmos_03 = 0, cmos_05 = 0,
      cmos_0a = 0x26, cmos_0b = putf 1 1 1 0, cmos_0c = 0, cmos_0d = 0, cmos_0f = 0, addr_port = 0\<rparr>"

section \<open>Reading the clock\<close>

text \<open>What a guest does to read a CMOS byte, and the number that a BCD byte stands for.\<close>

definition cmos_in ::
    "bool \<Rightarrow> cmos_env \<Rightarrow> u32 \<Rightarrow> cmos_t \<times> 'w apic_wedge_scheme \<Rightarrow>
     (u32 \<times> cmos_t \<times> 'w apic_wedge_scheme) option" where
  "cmos_in apic env reg cw = do {
     (_, c, w) \<leftarrow> mc146818rtc_portio apic env 0x70 reg False (fst cw) (snd cw);
     mc146818rtc_portio apic env 0x71 0 True c w }"

definition bcd_value :: "u32 \<Rightarrow> nat" where
  "bcd_value v = 10 * unat (drop_bit 4 v) + unat (v AND 0xf)"

lemma cmos_in_register:
  "reg \<le> 0x3f \<Longrightarrow> cmos_in apic env reg (c, w) =
     (let (v, c) = CMOS_registers_read env reg (c\<lparr>addr_port := reg\<rparr>) in Some (ucast v, c, w))"
  by (simp add: cmos_in_def mc146818rtc_portio_def case_prod_beta)

lemma unat_bin_to_bcd: "unat (bin_to_bcd b) = 16 * (unat b div 10 mod 16) + unat b mod 10"
proof -
  have lt: "unat (b mod 10) < 16" by (simp add: unat_mod)
  then have "b mod 10 = take_bit 4 (b mod 10)"
    by (simp add: word_unat_eq_iff unsigned_take_bit_eq take_bit_nat_eq_self)
  then have "\<not> bit (push_bit 4 (b div 10)) n \<or> \<not> bit (b mod 10) n" for n
    by (metis bit_push_bit_iff bit_take_bit_iff linorder_not_le)
  then have "bin_to_bcd b = push_bit 4 (b div 10) + b mod 10"
    unfolding bin_to_bcd_def by (subst disjunctive_add) auto
  moreover have p: "unat (push_bit 4 (b div 10)) = 16 * (unat b div 10) mod 256"
    by (simp add: push_bit_eq_mult unat_word_ariths unat_div mult.commute) (metis mod_mult_right_eq)
  moreover have "16 * (unat b div 10) mod 256 = 16 * (unat b div 10 mod 16)"
    using mult_mod_right [of 16 "unat b div 10" 16] by simp
  moreover have "unat b div 10 mod 16 \<le> 15" "unat b mod 10 \<le> 9"
    using pos_mod_bound [of 16 "int (unat b div 10)"] by (simp_all add: less_Suc_eq_le [symmetric])
  ultimately show ?thesis
    by (simp add: unat_word_ariths unat_mod)
qed

lemma bcd_value_byte: "bcd_value (ucast (v :: u8)) = 10 * (unat v div 16) + unat v mod 16"
proof -
  have "ucast v AND 0xf = (take_bit 4 (ucast v) :: u32)" by (simp add: take_bit_eq_mask mask_eq_exp_minus_1)
  moreover have "unat (ucast v :: u32) = unat v"
    using unsigned_less [of v, where 'a = nat] by (simp add: unsigned_ucast_eq take_bit_nat_eq_self)
  ultimately show ?thesis
    by (simp add: bcd_value_def take_bit_eq_mod drop_bit_eq_div unat_div unat_mod)
qed

lemma bcd_value_bcd: "bcd_value (ucast (bin_to_bcd b)) = 10 * (unat b div 10 mod 16) + unat b mod 10"
  by (simp add: bcd_value_byte unat_bin_to_bcd)

lemma bcd_value_bin_to_bcd:
  assumes "unat x < 100"
  shows "bcd_value (ucast (bin_to_bcd (ucast (x :: word_t)))) = unat x"
proof -
  have "unat (ucast x :: u8) = unat x" using assms by (simp add: unsigned_ucast_eq take_bit_nat_eq_self)
  moreover have "unat x div 10 < 16" using assms by (simp add: div_less_iff_less_mult)
  ultimately show ?thesis by (simp add: bcd_value_bcd)
qed

lemma bcd_value_high:
  assumes "160 \<le> unat b"
  shows "bcd_value (ucast (bin_to_bcd b)) = unat b - 160"
proof -
  obtain k where k: "unat b = k + 16 * 10" using that [of "unat b - 160"] assms by simp
  then have "k div 10 < 16" using unsigned_less [of b, where 'a = nat] by (simp add: div_less_iff_less_mult)
  moreover have "unat b div 10 = k div 10 + 16" "unat b mod 10 = k mod 10"
    using mod_mult_self1 [of k 16 10] by (simp_all add: k)
  ultimately show ?thesis by (simp add: bcd_value_bcd k)
qed

lemma do_update_fields:
  assumes "unix_to_gregorian (unix_seconds env) = ((y, m, d), (h, mi, s))"
  shows "rtc_seconds (do_update env r) = ucast s" "rtc_minutes (do_update env r) = ucast mi"
    "rtc_hours (do_update env r) = ucast h" "rtc_year (do_update env r) = ucast y"
    "rtc_week_day (do_update env r) = ucast (day_of_week (ucast (ucast y :: u8)) (ucast (ucast m :: u8)) (ucast (ucast d :: u8)))"
  using assms by (simp_all add: do_update_def Let_def)


definition clock_example :: "word_t \<Rightarrow> cmos_env" where
  "clock_example t =
     \<lparr>unix_seconds = t, phys_size = 0x8000000, wedge_paddr = 0, wedge_end_paddr = 0, ide_device = None,
      hw_cmos = (\<lambda>_. 0)\<rparr>"

text \<open>
  The year register. Register 9 is documented as the BCD year 00 to 99. \<^verbatim>\<open>do_update\<close> stores the
  low byte of the full year, and \<^verbatim>\<open>bin_to_bcd\<close> shifts its tens out of the byte: for the years 1952 to
  2047 the guest reads the year minus 1952, which is never the year of the century.
\<close>

theorem rtc_year_wrong:
  assumes "fst (fst (unix_to_gregorian (unix_seconds env))) = y" and "1952 \<le> unat y" and "unat y < 2048"
  shows "\<exists>s v c1 c2.
     cmos_in apic env 0 (c, w) = Some (s, c1, w) \<and> cmos_in apic env' 9 (c1, w) = Some (v, c2, w) \<and>
     bcd_value v = unat y - 1952 \<and> bcd_value v \<noteq> unat y mod 100"
proof -
  obtain m d h mi s where g: "unix_to_gregorian (unix_seconds env) = ((y, m, d), (h, mi, s))"
    using assms(1) by (metis prod.exhaust_sel)
  have "unat (ucast y :: u8) = unat y mod 256" by (simp add: unsigned_ucast_eq take_bit_eq_mod)
  also have "\<dots> = unat y - 1792" 
  proof -
    have "unat y = (unat y - 1792) + 7 * 256" using assms(2) by simp
    then have "unat y mod 256 = (unat y - 1792) mod 256" by (metis mod_mult_self1)
    then show ?thesis using assms(3) by simp
  qed
  finally have u: "unat (ucast y :: u8) = unat y - 1792" .
  have v: "bcd_value (ucast (bin_to_bcd (ucast y))) = unat y - 1952"
    using bcd_value_high [of "ucast y"] u assms(2) by simp
  have "unat y mod 100 = (if unat y < 2000 then unat y - 1900 else unat y - 2000)"
    using assms(2,3) mod_mult_self1 [of "unat y - 1900" 19 100] mod_mult_self1 [of "unat y - 2000" 20 100]
    by (cases "unat y < 2000") simp_all
  then have "unat y - 1952 \<noteq> unat y mod 100" using assms(2,3) by (simp split: if_splits)
  with v show ?thesis
    by (simp add: cmos_in_register CMOS_registers_read_def CMOS_00_read_def CMOS_09_read_def
        upd_rtc_def do_update_fields [OF g] Let_def)
qed

theorem rtc_year_wrong_witness:
  "\<exists>s v c1 c2.
     cmos_in False (clock_example 1000000000) 0 (CMOS_init, boot_apic 1) = Some (s, c1, boot_apic 1) \<and>
     cmos_in False (clock_example 1000000000) 9 (c1, boot_apic 1) = Some (v, c2, boot_apic 1) \<and>
     bcd_value v = 49 \<and> bcd_value v \<noteq> 1"
proof -
  have "fst (fst (unix_to_gregorian 1000000000)) = 2001" by code_simp
  then show ?thesis
    using rtc_year_wrong [of "clock_example 1000000000" 2001 False CMOS_init "boot_apic 1"
        "clock_example 1000000000"]
    by (simp add: clock_example_def)
qed

section \<open>The periodic interrupt\<close>

definition periodic_ticks ::
    "bool \<Rightarrow> u64 list \<Rightarrow> rtc_t \<Rightarrow> 'w apic_wedge_scheme \<Rightarrow> (rtc_t \<times> 'w apic_wedge_scheme) option" where
  "periodic_ticks apic ts r w =
     fold (\<lambda>t so. so \<bind> (\<lambda>(r, w). periodic_tick apic t r w)) ts (Some (r, w))"

lemma periodic_ticks_Cons:
  "periodic_ticks apic (t # ts) r w =
     periodic_tick apic t r w \<bind> (\<lambda>(r, w). periodic_ticks apic ts r w)"
  by (cases "periodic_tick apic t r w") (auto simp: periodic_ticks_def)

text \<open>
  A periodic interrupt can starve. \<^verbatim>\<open>periodic_tick\<close> measures the time since its last call and not
  since the last interrupt. As long as it is called at least once in every period, no number of calls
  raises an interrupt, whatever time has passed altogether.
\<close>

theorem periodic_tick_starves:
  assumes "periodic_enabled r" and "periodic_freq r \<noteq> 0"
    and "\<forall>i < length ts. ts ! i - (last_tick_us r # ts) ! i \<le> ucast (1000000 div periodic_freq r)"
  shows "periodic_ticks apic ts r w = Some (r\<lparr>last_tick_us := last (last_tick_us r # ts)\<rparr>, w)"
  using assms
proof (induction ts arbitrary: r)
  case Nil
  then show ?case by (simp add: periodic_ticks_def)
next
  case (Cons t ts)
  let ?r = "r\<lparr>last_tick_us := t\<rparr>"
  have step: "(t # ts) ! Suc i - (last_tick_us r # t # ts) ! Suc i \<le> ucast (1000000 div periodic_freq r)"
    if "i < length ts" for i
    using Cons.prems(3) that by (metis Suc_less_eq length_Cons)
  have "\<forall>i < length ts. ts ! i - (last_tick_us ?r # ts) ! i \<le> ucast (1000000 div periodic_freq ?r)"
    using step by simp
  from Cons.IH [OF _ _ this]
  have IH: "periodic_ticks apic ts ?r w = Some (?r\<lparr>last_tick_us := last (t # ts)\<rparr>, w)"
    using Cons.prems(1,2) by simp
  have "periodic_tick apic t r w = Some (?r, w)"
    using Cons.prems by (auto simp: periodic_tick_def Let_def not_less dest: spec [where x = 0])
  with IH show ?case by (simp add: periodic_ticks_Cons)
qed

theorem periodic_tick_starves_witness:
  "\<exists>r. periodic_ticks False [500000, 1000000, 1500000]
        (set_periodic_frequency 2 (enable_periodic rtc_init)) (boot_apic 1) = Some (r, boot_apic 1)"
  using periodic_tick_starves [of "set_periodic_frequency 2 (enable_periodic rtc_init)"
      "[500000, 1000000, 1500000]" False "boot_apic 1"]
  by (auto simp: set_periodic_frequency_def enable_periodic_def rtc_init_def less_Suc_eq numeral_3_eq_3)

section \<open>The memory size\<close>

lemma unat_ext_mem_kb:
  "unat (ext_mem_kb env) =
     (if unat (phys_size env) < 1048576 then 65535 else min (unat (phys_size env) div 1024 - 1024) 65535)"
proof -
  let ?kb = "drop_bit 10 (phys_size env)"
  have kb: "unat ?kb = unat (phys_size env) div 1024" by (simp add: drop_bit_eq_div unat_div)
  have lt: "unat (phys_size env) div 1024 < 4194304"
    using unsigned_less [of "phys_size env", where 'a = nat] by (simp add: div_less_iff_less_mult)
  have m: "unat (min a b) = min (unat a) (unat b)" for a b :: word_t
    by (simp add: min_def word_le_nat_alt)
  show ?thesis
  proof (cases "unat (phys_size env) < 1048576")
    case True
    then have "unat ?kb < 1024" by (simp add: kb div_less_iff_less_mult)
    then have "unat (?kb - 0x400) = 2 ^ 32 + unat ?kb - 1024"
      by (simp add: unat_sub_if')
    then show ?thesis using True by (simp add: ext_mem_kb_def m)
  next
    case False
    then have "1024 \<le> unat ?kb" by (simp add: kb less_eq_div_iff_mult_less_eq)
    then show ?thesis using False by (simp add: ext_mem_kb_def m unat_minus_bound kb)
  qed
qed

lemma split_u16:
  assumes "unat (x :: word_t) < 65536"
  shows "unat (ucast (ucast (x AND 0xff) :: u8) :: u32) + 256 * unat (ucast (ucast (drop_bit 8 x AND 0xff) :: u8) :: u32) = unat x"
proof -
  have "x AND 0xff = take_bit 8 x" "drop_bit 8 x AND 0xff = take_bit 8 (drop_bit 8 x)"
    by (simp_all add: take_bit_eq_mask mask_eq_exp_minus_1)
  then show ?thesis using assms
    by (simp add: unsigned_ucast_eq take_bit_eq_mod drop_bit_eq_div unat_mod unat_div div_less_iff_less_mult)
qed

text \<open>
  C39: The extended memory size. The bytes 0x17 and 0x18 hold the kilobytes above the first
  megabyte, low byte first and saturated at 0xffff, for a guest with at least one megabyte; for a smaller guest the
  subtraction wraps around and the registers report 64 MB.
\<close>

theorem cmos_extended_memory:
  "\<exists>lo hi c1 c2.
     cmos_in apic env 0x17 (c, w) = Some (lo, c1, w) \<and> cmos_in apic env 0x18 (c1, w) = Some (hi, c2, w) \<and>
     unat lo + 256 * unat hi =
       (if unat (phys_size env) < 1048576 then 65535
        else min (unat (phys_size env) div 1024 - 1024) 65535)"
proof -
  have kb: "unat (ext_mem_kb env) =
      (if unat (phys_size env) < 1048576 then 65535 else min (unat (phys_size env) div 1024 - 1024) 65535)"
    by (rule unat_ext_mem_kb)
  then have "unat (ext_mem_kb env) < 65536" by (simp add: min_less_iff_disj)
  from split_u16 [OF this] show ?thesis
    by (simp add: cmos_in_register CMOS_registers_read_def CMOS_10_3f_read_def kb [symmetric])
qed

end
