(* ===== verification/Kbc.thy ===== *)
theory Kbc
  imports Rtc Int_Routing Port_Device
begin

text \<open>
  The keyboard controller \<^verbatim>\<open>device/i8042.cc\<close> with the PS/2 keyboard and mouse behind it,
  \<^verbatim>\<open>device/ps2.cc\<close>. The static objects \<^verbatim>\<open>i8042\<close>, \<^verbatim>\<open>ps2kbd\<close> and \<^verbatim>\<open>ps2mouse\<close> are one record. A
  device queue calls the controller back through \<^verbatim>\<open>update_irq\<close> whenever it gains or loses a
  byte; the callbacks are the two functions \<open>update_i8042_irq\<close> and \<open>update_i8042_aux_irq\<close>. The system
  flags (gate A20) are those of the real-time clock. \<^verbatim>\<open>backend_reboot\<close> only enters the debugger and returns.
\<close>

section \<open>Queues\<close>

record PS2Queue =
  q_data :: "nat \<Rightarrow> u8"
  q_rptr :: nat
  q_wptr :: nat
  q_count :: nat

definition PS2_QUEUE_SIZE :: nat where "PS2_QUEUE_SIZE = 256"

definition ps2_bump :: "nat \<Rightarrow> nat" where
  "ps2_bump i = (if i + 1 = PS2_QUEUE_SIZE then 0 else i + 1)"

text \<open>Whether a byte was stored decides whether the controller is called back.\<close>

definition ps2_enqueue :: "u8 \<Rightarrow> PS2Queue \<Rightarrow> bool \<times> PS2Queue" where
  "ps2_enqueue b q =
     (if q_count q \<ge> PS2_QUEUE_SIZE then (False, q)
      else (True, q\<lparr>q_data := (q_data q)(q_wptr q := b), q_wptr := ps2_bump (q_wptr q),
                    q_count := q_count q + 1\<rparr>))"

definition ps2_dequeue :: "PS2Queue \<Rightarrow> u8 \<times> bool \<times> PS2Queue" where
  "ps2_dequeue q =
     (if q_count q = 0 then
        (q_data q (if q_rptr q = 0 then PS2_QUEUE_SIZE - 1 else q_rptr q - 1), False, q)
      else
        (q_data q (q_rptr q), True, q\<lparr>q_rptr := ps2_bump (q_rptr q), q_count := q_count q - 1\<rparr>))"

definition ps2_reset_queue :: "PS2Queue \<Rightarrow> PS2Queue" where
  "ps2_reset_queue q = q\<lparr>q_rptr := 0, q_wptr := 0, q_count := 0\<rparr>"

section \<open>The controller\<close>

record kbc =
  kbd_queue :: PS2Queue
  kbd_write_cmd :: word_t
  scan_enabled :: bool
  kbd_translate :: bool
  mouse_queue :: PS2Queue
  mouse_write_cmd :: word_t
  mouse_status :: u8
  mouse_resolution :: u8
  mouse_sample_rate :: u8
  mouse_wrap :: u8
  mouse_type :: u8
  mouse_detect_state :: u8
  mouse_dx :: int
  mouse_dy :: int
  mouse_dz :: int
  mouse_buttons :: u8
  kb_write_cmd :: u8
  kb_status :: u8
  kb_mode :: u8
  kb_pending :: u8

type_synonym 'w kbw = "kbc \<times> 'w apic_wedge_scheme"

definition i8042_update_irq :: "'w kbw \<Rightarrow> 'w kbw option" where
  "i8042_update_irq kw =
     (let (k, w) = kw;
          st = kb_status k AND NOT 0x21;
          st = (if kb_pending k = 0 then st else if kb_pending k = 2 then st OR 0x21 else st OR 0x01);
          irq12_level = (kb_pending k = 2 \<and> kb_mode k AND 0x02 \<noteq> 0);
          irq1_level = (kb_pending k \<noteq> 0 \<and> kb_pending k \<noteq> 2 \<and> kb_mode k AND 0x01 \<noteq> 0 \<and> kb_mode k AND 0x10 = 0);
          k = k\<lparr>kb_status := st\<rparr> in do {
        w \<leftarrow> (if irq1_level then intlogic_raise_irq False 1 w else Some w);
        w \<leftarrow> (if irq12_level then intlogic_raise_irq False 12 w else Some w);
        Some (k, w)
      })"

definition update_i8042_irq :: "bool \<Rightarrow> 'w kbw \<Rightarrow> 'w kbw option" where
  "update_i8042_irq level kw =
     (let (k, w) = kw in
      i8042_update_irq (k\<lparr>kb_pending := (if level then kb_pending k OR 1 else kb_pending k AND NOT 1)\<rparr>, w))"

definition update_i8042_aux_irq :: "bool \<Rightarrow> 'w kbw \<Rightarrow> 'w kbw option" where
  "update_i8042_aux_irq level kw =
     (let (k, w) = kw in
      i8042_update_irq (k\<lparr>kb_pending := (if level then kb_pending k OR 2 else kb_pending k AND NOT 2)\<rparr>, w))"

definition ps2_queue_kbd :: "u32 \<Rightarrow> 'w kbw \<Rightarrow> 'w kbw option" where
  "ps2_queue_kbd b kw =
     (let (k, w) = kw; (stored, q) = ps2_enqueue (ucast b) (kbd_queue k) in
      if stored then update_i8042_irq True (k\<lparr>kbd_queue := q\<rparr>, w) else Some (k, w))"

definition ps2_queue_mouse :: "u32 \<Rightarrow> 'w kbw \<Rightarrow> 'w kbw option" where
  "ps2_queue_mouse b kw =
     (let (k, w) = kw; (stored, q) = ps2_enqueue (ucast b) (mouse_queue k) in
      if stored then update_i8042_aux_irq True (k\<lparr>mouse_queue := q\<rparr>, w) else Some (k, w))"

definition ps2_read_kbd_data :: "'w kbw \<Rightarrow> (u32 \<times> 'w kbw) option" where
  "ps2_read_kbd_data kw =
     (let (k, w) = kw; (val, some, q) = ps2_dequeue (kbd_queue k) in
      if some then do {
        kw \<leftarrow> update_i8042_irq False (k\<lparr>kbd_queue := q\<rparr>, w);
        kw \<leftarrow> update_i8042_irq (q_count q \<noteq> 0) kw;
        Some (ucast val, kw) }
      else Some (ucast val, k, w))"

definition ps2_read_mouse_data :: "'w kbw \<Rightarrow> (u32 \<times> 'w kbw) option" where
  "ps2_read_mouse_data kw =
     (let (k, w) = kw; (val, some, q) = ps2_dequeue (mouse_queue k) in
      if some then do {
        kw \<leftarrow> update_i8042_aux_irq False (k\<lparr>mouse_queue := q\<rparr>, w);
        kw \<leftarrow> update_i8042_aux_irq (q_count q \<noteq> 0) kw;
        Some (ucast val, kw) }
      else Some (ucast val, k, w))"

section \<open>The keyboard\<close>

definition kbc_upd :: "(kbc \<Rightarrow> kbc) \<Rightarrow> 'w kbw \<Rightarrow> 'w kbw" where
  "kbc_upd f kw = (f (fst kw), snd kw)"

primrec queue_all :: "(u32 \<Rightarrow> 'w kbw \<Rightarrow> 'w kbw option) \<Rightarrow> u32 list \<Rightarrow> 'w kbw \<Rightarrow> 'w kbw option" where
  "queue_all q [] kw = Some kw"
| "queue_all q (b # bs) kw = q b kw \<bind> queue_all q bs"

definition ps2_raw_keycode :: "u32 list" where
  "ps2_raw_keycode =
    [ 0,118, 22, 30, 38, 37, 46, 54, 61, 62, 70, 69, 78, 85,102, 13,
     21, 29, 36, 45, 44, 53, 60, 67, 68, 77, 84, 91, 90, 20, 28, 27,
     35, 43, 52, 51, 59, 66, 75, 76, 82, 14, 18, 93, 26, 34, 33, 42,
     50, 49, 58, 65, 73, 74, 89,124, 17, 41, 88,  5,  6,  4, 12,  3,
     11,  2, 10,  1,  9,119,126,108,117,125,123,107,115,116,121,105,
    114,122,112,113,127, 96, 97,120,  7, 15, 23, 31, 39, 47, 55, 63,
     71, 79, 86, 94,  8, 16, 24, 32, 40, 48, 56, 64, 72, 80, 87,111,
     19, 25, 57, 81, 83, 92, 95, 98, 99,100,101,103,104,106,109,110]"

definition ps2_put_keycode :: "u32 \<Rightarrow> 'w kbw \<Rightarrow> 'w kbw option" where
  "ps2_put_keycode keycode kw =
     (if \<not> kbd_translate (fst kw) \<and> keycode <s 0xe0 then do {
        kw \<leftarrow> (if keycode AND 0x80 \<noteq> 0 then ps2_queue_kbd 0xf0 kw else Some kw);
        ps2_queue_kbd (ps2_raw_keycode ! unat (keycode AND 0x7f)) kw }
      else ps2_queue_kbd keycode kw)"

definition ps2_reset_keyboard :: "kbc \<Rightarrow> kbc" where
  "ps2_reset_keyboard k = k\<lparr>scan_enabled := True\<rparr>"

definition ps2_write_keyboard :: "u32 \<Rightarrow> 'w kbw \<Rightarrow> 'w kbw option" where
  "ps2_write_keyboard val kw =
     (let cmd = kbd_write_cmd (fst kw) in
      if cmd = 0xed \<or> cmd = 0xf3 then do {
        kw \<leftarrow> ps2_queue_kbd 0xfa kw;
        Some (kbc_upd (\<lambda>k. k\<lparr>kbd_write_cmd := -1\<rparr>) kw) }
      else if val = 0x00 then ps2_queue_kbd 0xfa kw
      else if val = 0x05 then ps2_queue_kbd 0xfe kw
      else if val = 0xf2 then queue_all ps2_queue_kbd [0xfa, 0xab, 0x83] kw
      else if val = 0xee then ps2_queue_kbd 0xee kw
      else if val = 0xf4 then ps2_queue_kbd 0xfa (kbc_upd (\<lambda>k. k\<lparr>scan_enabled := True\<rparr>) kw)
      else if val = 0xed \<or> val = 0xf3 then ps2_queue_kbd 0xfa (kbc_upd (\<lambda>k. k\<lparr>kbd_write_cmd := val\<rparr>) kw)
      else if val = 0xf5 then
        ps2_queue_kbd 0xfa (kbc_upd (\<lambda>k. (ps2_reset_keyboard k)\<lparr>scan_enabled := False\<rparr>) kw)
      else if val = 0xf6 then
        ps2_queue_kbd 0xfa (kbc_upd (\<lambda>k. (ps2_reset_keyboard k)\<lparr>scan_enabled := True\<rparr>) kw)
      else if val = 0xff then queue_all ps2_queue_kbd [0xfa, 0xaa] (kbc_upd ps2_reset_keyboard kw)
      else ps2_queue_kbd 0xfa kw)"

definition ps2_keyboard_set_translation :: "bool \<Rightarrow> kbc \<Rightarrow> kbc" where
  "ps2_keyboard_set_translation m k = k\<lparr>kbd_translate := m\<rparr>"

section \<open>The mouse\<close>

definition clamp :: "int \<Rightarrow> int \<Rightarrow> int" where
  "clamp m d = (if d > m then m else if d < - m then - m else d)"

definition mouse_packet :: "kbc \<Rightarrow> u32 list" where
  "mouse_packet k =
     (let dx1 = clamp 127 (mouse_dx k); dy1 = clamp 127 (mouse_dy k); dz1 = mouse_dz k;
          b = 0x08 OR push_bit 4 (of_bool (dx1 < 0)) OR push_bit 5 (of_bool (dy1 < 0))
              OR (ucast (mouse_buttons k) AND 0x07)
      in [b, of_int dx1 AND 0xff, of_int dy1 AND 0xff]
         @ (if mouse_type k = 3 then [of_int (clamp 127 dz1) AND 0xff]
            else if mouse_type k = 4 then
              [(of_int (clamp 7 dz1) AND 0x0f) OR push_bit 1 (ucast (mouse_buttons k) AND 0x18)]
            else []))"

definition ps2_mouse_send_packet :: "'w kbw \<Rightarrow> 'w kbw option" where
  "ps2_mouse_send_packet kw =
     (let k0 = fst kw;
          dz1 = (if mouse_type k0 = 3 then clamp 127 (mouse_dz k0)
                 else if mouse_type k0 = 4 then clamp 7 (mouse_dz k0) else mouse_dz k0) in do {
        kw \<leftarrow> queue_all ps2_queue_mouse (mouse_packet k0) kw;
        Some (kbc_upd (\<lambda>k. k\<lparr>mouse_dx := mouse_dx k - clamp 127 (mouse_dx k0),
                              mouse_dy := mouse_dy k - clamp 127 (mouse_dy k0),
                              mouse_dz := mouse_dz k - dz1\<rparr>) kw)
      })"

definition mouse_simple_reply :: "u32 \<Rightarrow> kbc \<Rightarrow> (kbc \<times> u32 list) option" where
  "mouse_simple_reply val k =
     (if val = 0xe6 then Some (k\<lparr>mouse_status := mouse_status k AND NOT 0x10\<rparr>, [0xfa])
      else if val = 0xe7 then Some (k\<lparr>mouse_status := mouse_status k OR 0x10\<rparr>, [0xfa])
      else if val = 0xea then Some (k\<lparr>mouse_status := mouse_status k AND NOT 0x40\<rparr>, [0xfa])
      else if val = 0xee then Some (k\<lparr>mouse_wrap := 1\<rparr>, [0xfa])
      else if val = 0xf0 then Some (k\<lparr>mouse_status := mouse_status k OR 0x40\<rparr>, [0xfa])
      else if val = 0xf2 then Some (k, [0xfa, ucast (mouse_type k)])
      else if val = 0xe8 \<or> val = 0xf3 then Some (k\<lparr>mouse_write_cmd := val\<rparr>, [0xfa])
      else if val = 0xe9 then
        Some (k, [0xfa, ucast (mouse_status k), ucast (mouse_resolution k), ucast (mouse_sample_rate k)])
      else if val = 0xf4 then Some (k\<lparr>mouse_status := mouse_status k OR 0x20\<rparr>, [0xfa])
      else if val = 0xf5 then Some (k\<lparr>mouse_status := mouse_status k AND NOT 0x20\<rparr>, [0xfa])
      else if val = 0xf6 then
        Some (k\<lparr>mouse_sample_rate := 100, mouse_resolution := 2, mouse_status := 0\<rparr>, [0xfa])
      else if val = 0xff then
        Some (k\<lparr>mouse_sample_rate := 100, mouse_resolution := 2, mouse_status := 0, mouse_type := 0\<rparr>,
              [0xfa, 0xaa, 0])
      else None)"

definition mouse_detect :: "u32 \<Rightarrow> kbc \<Rightarrow> kbc" where
  "mouse_detect val k =
     (if mouse_detect_state k = 1 then
        k\<lparr>mouse_detect_state := (if val = 100 then 2 else if val = 200 then 3 else 0)\<rparr>
      else if mouse_detect_state k = 2 then
        (if val = 80 then k\<lparr>mouse_type := 3\<rparr> else k)\<lparr>mouse_detect_state := 0\<rparr>
      else if mouse_detect_state k = 3 then
        (if val = 80 then k\<lparr>mouse_type := 4\<rparr> else k)\<lparr>mouse_detect_state := 0\<rparr>
      else if val = 200 then k\<lparr>mouse_detect_state := 1\<rparr> else k)"

definition ps2_write_mouse :: "u32 \<Rightarrow> 'w kbw \<Rightarrow> 'w kbw option" where
  "ps2_write_mouse val kw =
     (let k = fst kw; cmd = mouse_write_cmd k in
      if cmd = 0xf3 then do {
        kw \<leftarrow> ps2_queue_mouse 0xfa (kbc_upd (\<lambda>k. mouse_detect val (k\<lparr>mouse_sample_rate := ucast val\<rparr>)) kw);
        Some (kbc_upd (\<lambda>k. k\<lparr>mouse_write_cmd := -1\<rparr>) kw) }
      else if cmd = 0xe8 then do {
        kw \<leftarrow> ps2_queue_mouse 0xfa (kbc_upd (\<lambda>k. k\<lparr>mouse_resolution := ucast val\<rparr>) kw);
        Some (kbc_upd (\<lambda>k. k\<lparr>mouse_write_cmd := -1\<rparr>) kw) }
      else if mouse_wrap k \<noteq> 0 \<and> val = 0xec then
        ps2_queue_mouse 0xfa (kbc_upd (\<lambda>k. k\<lparr>mouse_wrap := 0\<rparr>) kw)
      else if mouse_wrap k \<noteq> 0 \<and> val \<noteq> 0xff then ps2_queue_mouse val kw
      else if val = 0xeb then do { kw \<leftarrow> ps2_queue_mouse 0xfa kw; ps2_mouse_send_packet kw }
      else (case mouse_simple_reply val k of
              Some (k', reply) \<Rightarrow> queue_all ps2_queue_mouse reply (k', snd kw)
            | None \<Rightarrow> Some kw))"

section \<open>Port access\<close>

definition i8042_reset :: "kbc \<Rightarrow> kbc" where
  "i8042_reset k = k\<lparr>kb_mode := 0x01 OR 0x02, kb_status := 0x08 OR 0x10\<rparr>"

definition kbc_init :: kbc where
  "kbc_init =
     (let q = \<lparr>q_data = (\<lambda>_. 0), q_rptr = 0, q_wptr = 0, q_count = 0\<rparr> in
      i8042_reset
       \<lparr>kbd_queue = ps2_reset_queue q, kbd_write_cmd = -1, scan_enabled = False, kbd_translate = False,
        mouse_queue = ps2_reset_queue q, mouse_write_cmd = -1, mouse_status = 0, mouse_resolution = 0,
        mouse_sample_rate = 0, mouse_wrap = 0, mouse_type = 0, mouse_detect_state = 0, mouse_dx = 0,
        mouse_dy = 0, mouse_dz = 0, mouse_buttons = 0, kb_write_cmd = 0, kb_status = 0, kb_mode = 0,
        kb_pending = 0\<rparr>)"

definition i8042_write_command ::
    "u32 \<Rightarrow> rtc_t \<times> 'w kbw \<Rightarrow> (rtc_t \<times> 'w kbw) option" where
  "i8042_write_command val rkw =
     (let (r, kw) = rkw; k = fst kw; q = (\<lambda>b kw. do { kw \<leftarrow> ps2_queue_kbd b kw; Some (r, kw) }) in
      if val = 0x20 then q (ucast (kb_mode k)) kw
      else if val = 0x60 \<or> val = 0xd2 \<or> val = 0xd3 \<or> val = 0xd4 \<or> val = 0xd1 then
        Some (r, kbc_upd (\<lambda>k. k\<lparr>kb_write_cmd := ucast val\<rparr>) kw)
      else if val = 0xa7 then Some (r, kbc_upd (\<lambda>k. k\<lparr>kb_mode := kb_mode k OR 0x20\<rparr>) kw)
      else if val = 0xa8 then Some (r, kbc_upd (\<lambda>k. k\<lparr>kb_mode := kb_mode k AND NOT 0x20\<rparr>) kw)
      else if val = 0xa9 then q 0x00 kw
      else if val = 0xaa then q 0x55 (kbc_upd (\<lambda>k. k\<lparr>kb_status := kb_status k OR 0x04\<rparr>) kw)
      else if val = 0xab then q 0x00 kw
      else if val = 0xad then do {
        kw \<leftarrow> i8042_update_irq (kbc_upd (\<lambda>k. k\<lparr>kb_mode := kb_mode k OR 0x10\<rparr>) kw); Some (r, kw) }
      else if val = 0xae then do {
        kw \<leftarrow> i8042_update_irq (kbc_upd (\<lambda>k. k\<lparr>kb_mode := kb_mode k AND NOT 0x10\<rparr>) kw); Some (r, kw) }
      else if val = 0xc0 then q 0x00 kw
      else if val = 0xd0 then
        q (0x01 OR (ucast (system_flags r) AND 0x2) OR (if kb_status k AND 0x01 \<noteq> 0 then 0x10 else 0)
           OR (if kb_status k AND 0x20 \<noteq> 0 then 0x20 else 0)) kw
      else if val = 0xdf then Some (set_system_flags (ucast (system_flags r) OR 0x2) r, kw)
      else if val = 0xdd then Some (set_system_flags (ucast (system_flags r) AND NOT 0x2) r, kw)
      else Some (r, kw))"

definition i8042_read :: "'w kbw \<Rightarrow> (u32 \<times> 'w kbw) option" where
  "i8042_read kw = (if kb_pending (fst kw) = 2 then ps2_read_mouse_data kw else ps2_read_kbd_data kw)"

definition i8042_write :: "u32 \<Rightarrow> rtc_t \<times> 'w kbw \<Rightarrow> (rtc_t \<times> 'w kbw) option" where
  "i8042_write val rkw =
     (let (r, kw) = rkw; cmd = kb_write_cmd (fst kw) in do {
        (r, kw) \<leftarrow>
          (if cmd = 0 then do { kw \<leftarrow> ps2_write_keyboard val kw; Some (r, kw) }
           else if cmd = 0x60 then do {
             kw \<leftarrow> i8042_update_irq (kbc_upd (\<lambda>k. ps2_keyboard_set_translation
                      (ucast val AND (0x40 :: u8) \<noteq> 0) (k\<lparr>kb_mode := ucast val\<rparr>)) kw);
             Some (r, kw) }
           else if cmd = 0xd2 then do { kw \<leftarrow> ps2_queue_kbd val kw; Some (r, kw) }
           else if cmd = 0xd3 then do { kw \<leftarrow> ps2_queue_mouse val kw; Some (r, kw) }
           else if cmd = 0xd1 then
             Some (set_system_flags ((ucast (system_flags r) AND NOT 0x2) OR (val AND 0x2)) r, kw)
           else if cmd = 0xd4 then do { kw \<leftarrow> ps2_write_mouse val kw; Some (r, kw) }
           else Some (r, kw));
        Some (r, kbc_upd (\<lambda>k. k\<lparr>kb_write_cmd := 0\<rparr>) kw)
      })"

definition i8042_portio ::
    "u16 \<Rightarrow> u32 \<Rightarrow> bool \<Rightarrow> rtc_t \<times> 'w kbw \<Rightarrow> (u32 \<times> rtc_t \<times> 'w kbw) option" where
  "i8042_portio port val read rkw =
     (if port = 0x60 then
        (if read then do { (v, kw) \<leftarrow> i8042_read (snd rkw); Some (v, fst rkw, kw) }
         else do { rkw \<leftarrow> i8042_write val rkw; Some (val, rkw) })
      else if port = 0x64 then
        (if read then Some (ucast (kb_status (fst (snd rkw))), rkw)
         else do { rkw \<leftarrow> i8042_write_command val rkw; Some (val, rkw) })
      else Some (val, rkw))"

section \<open>The queues are bounded FIFOs\<close>

text \<open>
  The contract of a byte queue of bounded capacity: \<open>items\<close> is its contents, oldest first. A full queue
  refuses a byte, an empty one has nothing to give.
\<close>

locale byte_fifo =
  fixes enq :: "u8 \<Rightarrow> 'q \<Rightarrow> bool \<times> 'q"
    and deq :: "'q \<Rightarrow> u8 \<times> bool \<times> 'q"
    and items :: "'q \<Rightarrow> u8 list"
    and ok :: "'q \<Rightarrow> bool"
    and capacity :: nat
  assumes enq_room: "ok q \<Longrightarrow> length (items q) < capacity \<Longrightarrow>
      \<exists>q'. enq b q = (True, q') \<and> ok q' \<and> items q' = items q @ [b]"
    and enq_full: "ok q \<Longrightarrow> capacity \<le> length (items q) \<Longrightarrow> enq b q = (False, q)"
    and deq_some: "ok q \<Longrightarrow> items q \<noteq> [] \<Longrightarrow>
      \<exists>q'. deq q = (hd (items q), True, q') \<and> ok q' \<and> items q' = tl (items q)"
    and deq_none: "ok q \<Longrightarrow> items q = [] \<Longrightarrow> \<exists>v. deq q = (v, False, q)"
begin

lemma enq_cases:
  assumes "ok q"
  obtains (room) q' where "enq b q = (True, q')" "ok q'" "items q' = items q @ [b]"
  | (full) "enq b q = (False, q)"
  using enq_room [OF assms, of b] enq_full [OF assms, of b] by (cases "length (items q) < capacity") auto

lemma deq_cases:
  assumes "ok q"
  obtains (some) q' where "deq q = (hd (items q), True, q')" "items q \<noteq> []" "ok q'" "items q' = tl (items q)"
  | (none) v where "deq q = (v, False, q)" "items q = []"
  using deq_some [OF assms] deq_none [OF assms] by (cases "items q = []") auto

end

definition ps2_items :: "PS2Queue \<Rightarrow> u8 list" where
  "ps2_items q = map (\<lambda>i. q_data q ((q_rptr q + i) mod 256)) [0..<q_count q]"

definition ps2_ok :: "PS2Queue \<Rightarrow> bool" where
  "ps2_ok q \<longleftrightarrow> q_rptr q < 256 \<and> q_count q \<le> 256 \<and> q_wptr q = (q_rptr q + q_count q) mod 256"

lemma ps2_bump_mod: "i < 256 \<Longrightarrow> ps2_bump i = (i + 1) mod 256"
  by (simp add: ps2_bump_def PS2_QUEUE_SIZE_def mod_Suc)

lemma ps2_items_Nil: "ps2_items q = [] \<longleftrightarrow> q_count q = 0"
  by (simp add: ps2_items_def)

lemma ps2_slot_distinct: "i < n \<Longrightarrow> n < 256 \<Longrightarrow> (r + i) mod 256 \<noteq> (r + n) mod (256 :: nat)"
proof
  assume *: "i < n" "n < 256" "(r + i) mod 256 = (r + n) mod (256 :: nat)"
  then have "(256 :: nat) dvd n - i" by (metis add_diff_cancel_left le_add1 less_imp_le mod_eq_dvd_iff_nat nat_add_left_cancel_le)
  then show False using * by (auto dest: dvd_imp_le)
qed

interpretation ps2q: byte_fifo ps2_enqueue ps2_dequeue ps2_items ps2_ok 256
proof
  fix q b
  assume ok: "ps2_ok q" and len: "length (ps2_items q) < 256"
  let ?q = "q\<lparr>q_data := (q_data q)(q_wptr q := b), q_wptr := ps2_bump (q_wptr q), q_count := q_count q + 1\<rparr>"
  have c: "q_count q < 256" using len by (simp add: ps2_items_def)
  have "ps2_bump (q_wptr q) = (q_rptr q + (q_count q + 1)) mod 256"
    using ok by (simp add: ps2_ok_def ps2_bump_mod mod_Suc_eq)
  moreover have "ps2_items ?q = ps2_items q @ [b]"
    using ok c ps2_slot_distinct [of _ "q_count q" "q_rptr q"] by (auto simp: ps2_items_def ps2_ok_def)
  ultimately show "\<exists>q'. ps2_enqueue b q = (True, q') \<and> ps2_ok q' \<and> ps2_items q' = ps2_items q @ [b]"
    using ok c by (auto simp: ps2_enqueue_def ps2_ok_def PS2_QUEUE_SIZE_def)
next
  fix q b
  assume "ps2_ok q" "256 \<le> length (ps2_items q)"
  then show "ps2_enqueue b q = (False, q)" by (simp add: ps2_enqueue_def ps2_items_def PS2_QUEUE_SIZE_def)
next
  fix q
  assume ok: "ps2_ok q" and ne: "ps2_items q \<noteq> []"
  let ?q = "q\<lparr>q_rptr := ps2_bump (q_rptr q), q_count := q_count q - 1\<rparr>"
  have c: "0 < q_count q" using ne by (simp add: ps2_items_Nil)
  have u: "[0..<q_count q] = 0 # map Suc [0..<q_count q - 1]"
    using c by (metis Suc_diff_1 map_Suc_upt upt_conv_Cons)
  have "ps2_items ?q = tl (ps2_items q)" "hd (ps2_items q) = q_data q (q_rptr q)"
    using ok by (simp_all add: ps2_items_def u ps2_ok_def ps2_bump_mod mod_add_left_eq comp_def)
  moreover have "ps2_ok ?q"
  proof -
    obtain n where n: "q_count q = Suc n" using c by (cases "q_count q") auto
    have "(Suc (q_rptr q) mod 256 + n) mod 256 = (Suc (q_rptr q) + n) mod 256" by (rule mod_add_left_eq)
    then show ?thesis using ok by (simp add: ps2_ok_def ps2_bump_mod n)
  qed
  ultimately show "\<exists>q'. ps2_dequeue q = (hd (ps2_items q), True, q') \<and> ps2_ok q' \<and> ps2_items q' = tl (ps2_items q)"
    using c by (auto simp: ps2_dequeue_def)
next
  fix q
  assume "ps2_ok q" "ps2_items q = []"
  then show "\<exists>v. ps2_dequeue q = (v, False, q)" by (simp add: ps2_dequeue_def ps2_items_Nil)
qed

section \<open>The controller's flags agree with the queues\<close>

text \<open>
  The output-buffer flags of the status register that belong to a pair of pending devices; the
  keyboard has priority.
\<close>

definition obf_flags :: "bool \<Rightarrow> bool \<Rightarrow> u8" where
  "obf_flags kbd mouse = (if kbd then 0x01 else if mouse then 0x21 else 0)"

abbreviation kbd_bytes :: "kbc \<Rightarrow> u8 list" where "kbd_bytes k \<equiv> ps2_items (kbd_queue k)"
abbreviation mouse_bytes :: "kbc \<Rightarrow> u8 list" where "mouse_bytes k \<equiv> ps2_items (mouse_queue k)"

definition kbc_pend :: "bool \<Rightarrow> bool \<Rightarrow> kbc \<Rightarrow> bool" where
  "kbc_pend b m k \<longleftrightarrow> kb_pending k = of_bool b + 2 * of_bool m \<and> kb_status k AND 0x21 = obf_flags b m"

definition kbc_inv :: "'w kbw \<Rightarrow> bool" where
  "kbc_inv kw \<longleftrightarrow>
     ps2_ok (kbd_queue (fst kw)) \<and> ps2_ok (mouse_queue (fst kw)) \<and>
     kbc_pend (kbd_bytes (fst kw) \<noteq> []) (mouse_bytes (fst kw) \<noteq> []) (fst kw) \<and> pic_pair_inv (snd kw)"

lemma obf_bits:
  fixes s :: u8
  shows "(s AND - 34) AND 0x21 = 0" "(s AND - 34 OR 0x21) AND 0x21 = 0x21" "(s AND - 34 OR 1) AND 0x21 = 1"
    "(s OR 4) AND 0x21 = s AND 0x21"
proof -
  have z: "(s AND - 34) AND 0x21 = 0" by (simp add: and.assoc)
  then show "(s AND - 34) AND 0x21 = 0" .
  show "(s AND - 34 OR 0x21) AND 0x21 = 0x21" "(s AND - 34 OR 1) AND 0x21 = 1"
    using z by (simp_all add: bit.conj_disj_distrib2)
  show "(s OR 4) AND 0x21 = s AND 0x21" by (simp add: bit.conj_disj_distrib2)
qed

lemma maybe_raise_ok:
  assumes "pic_pair_inv w" "irq < 16"
  obtains w' where "(if b then intlogic_raise_irq False irq w else Some w) = Some w'" "pic_pair_inv w'"
proof (cases b)
  case True
  obtain w' where "intlogic_raise_irq False irq w = Some w'" "pic_pair_inv w'" by (rule raise_irq_ok [OF assms])
  with that True show thesis by simp
next
  case False
  with that assms(1) show thesis by simp
qed

lemma i8042_update_irq_ok:
  assumes "pic_pair_inv w" "kb_pending k = of_bool b + 2 * of_bool m"
  shows "\<exists>st w'. i8042_update_irq (k, w) = Some (k\<lparr>kb_status := st\<rparr>, w') \<and> pic_pair_inv w' \<and>
     st AND 0x21 = obf_flags b m"
proof -
  define i1 i12 where "i1 = (kb_pending k \<noteq> 0 \<and> kb_pending k \<noteq> 2 \<and> kb_mode k AND 0x01 \<noteq> 0 \<and> kb_mode k AND 0x10 = 0)"
    and "i12 = (kb_pending k = 2 \<and> kb_mode k AND 0x02 \<noteq> 0)"
  define st where "st = (let st = kb_status k AND NOT 0x21 in
    if kb_pending k = 0 then st else if kb_pending k = 2 then st OR 0x21 else st OR 0x01)"
  obtain w1 where w1: "(if i1 then intlogic_raise_irq False 1 w else Some w) = Some w1" "pic_pair_inv w1"
    by (rule maybe_raise_ok [OF assms(1), of 1]) simp_all
  obtain w2 where w2: "(if i12 then intlogic_raise_irq False 12 w1 else Some w1) = Some w2" "pic_pair_inv w2"
    by (rule maybe_raise_ok [OF w1(2), of 12]) simp_all
  have "i8042_update_irq (k, w) = Some (k\<lparr>kb_status := st\<rparr>, w2)"
    unfolding i8042_update_irq_def Let_def prod.case i1_def [symmetric] i12_def [symmetric] w1(1)
    by (simp add: w2(1) st_def Let_def)
  moreover have "st AND 0x21 = obf_flags b m"
    using assms(2) by (cases b; cases m) (simp_all add: st_def Let_def obf_flags_def obf_bits)
  ultimately show ?thesis using w2(2) by blast
qed

lemma update_i8042_irq_ok:
  assumes "pic_pair_inv w" "kb_pending k = of_bool b + 2 * of_bool m"
  shows "\<exists>st w'. update_i8042_irq level (k, w) =
       Some (k\<lparr>kb_pending := of_bool level + 2 * of_bool m, kb_status := st\<rparr>, w') \<and> pic_pair_inv w' \<and>
     st AND 0x21 = obf_flags level m"
    and "\<exists>st w'. update_i8042_aux_irq level (k, w) =
       Some (k\<lparr>kb_pending := of_bool b + 2 * of_bool level, kb_status := st\<rparr>, w') \<and> pic_pair_inv w' \<and>
     st AND 0x21 = obf_flags b level"
proof -
  have 1: "(if level then kb_pending k OR 1 else kb_pending k AND NOT 1) = of_bool level + 2 * of_bool m"
    using assms(2) by (cases b; cases m; cases level) simp_all
  have 2: "(if level then kb_pending k OR 2 else kb_pending k AND NOT 2) = of_bool b + 2 * of_bool level"
    using assms(2) by (cases b; cases m; cases level) simp_all
  show "\<exists>st w'. update_i8042_irq level (k, w) =
       Some (k\<lparr>kb_pending := of_bool level + 2 * of_bool m, kb_status := st\<rparr>, w') \<and> pic_pair_inv w' \<and>
     st AND 0x21 = obf_flags level m"
    using i8042_update_irq_ok [OF assms(1), of "k\<lparr>kb_pending := of_bool level + 2 * of_bool m\<rparr>" level m]
    unfolding update_i8042_irq_def Let_def prod.case 1 by simp
  show "\<exists>st w'. update_i8042_aux_irq level (k, w) =
       Some (k\<lparr>kb_pending := of_bool b + 2 * of_bool level, kb_status := st\<rparr>, w') \<and> pic_pair_inv w' \<and>
     st AND 0x21 = obf_flags b level"
    using i8042_update_irq_ok [OF assms(1), of "k\<lparr>kb_pending := of_bool b + 2 * of_bool level\<rparr>" b level]
    unfolding update_i8042_aux_irq_def Let_def prod.case 2 by simp
qed

text \<open>What queueing and reading do, in terms of the queues' contents.\<close>

lemma queue_kbd_ok:
  assumes "kbc_inv (k, w)"
  shows "\<exists>k' w'. ps2_queue_kbd b (k, w) = Some (k', w') \<and> kbc_inv (k', w') \<and>
     (kbd_bytes k' = kbd_bytes k @ [ucast b] \<or> kbd_bytes k' = kbd_bytes k \<and> length (kbd_bytes k) = 256) \<and>
     mouse_bytes k' = mouse_bytes k"
proof -
  have inv: "ps2_ok (kbd_queue k)" "ps2_ok (mouse_queue k)" "pic_pair_inv w"
    "kbc_pend (kbd_bytes k \<noteq> []) (mouse_bytes k \<noteq> []) k"
    using assms by (simp_all add: kbc_inv_def)
  show ?thesis
  proof (rule ps2q.enq_cases [OF inv(1), of "ucast b"])
    fix q assume q: "ps2_enqueue (ucast b) (kbd_queue k) = (True, q)" "ps2_ok q"
      "ps2_items q = kbd_bytes k @ [ucast b]"
    have "kb_pending (k\<lparr>kbd_queue := q\<rparr>) = of_bool (kbd_bytes k \<noteq> []) + 2 * of_bool (mouse_bytes k \<noteq> [])"
      using inv(4) by (simp add: kbc_pend_def)
    from update_i8042_irq_ok(1) [OF inv(3) this, of True] obtain st w' where
      u: "update_i8042_irq True (k\<lparr>kbd_queue := q\<rparr>, w) =
        Some (k\<lparr>kbd_queue := q, kb_pending := of_bool True + 2 * of_bool (mouse_bytes k \<noteq> []), kb_status := st\<rparr>, w')"
      "pic_pair_inv w'" "st AND 0x21 = obf_flags True (mouse_bytes k \<noteq> [])" by auto
    let ?k' = "k\<lparr>kbd_queue := q, kb_pending := of_bool True + 2 * of_bool (mouse_bytes k \<noteq> []), kb_status := st\<rparr>"
    have "ps2_queue_kbd b (k, w) = Some (?k', w')" using u(1) q(1) by (simp add: ps2_queue_kbd_def)
    moreover have "kbc_inv (?k', w')" using u(2,3) q(2,3) inv by (simp add: kbc_inv_def kbc_pend_def)
    moreover have "kbd_bytes ?k' = kbd_bytes k @ [ucast b]" "mouse_bytes ?k' = mouse_bytes k" using q(3) by simp_all
    ultimately show ?thesis by blast
  next
    assume "ps2_enqueue (ucast b) (kbd_queue k) = (False, kbd_queue k)"
    moreover from this have "length (kbd_bytes k) = 256"
      using inv(1) by (auto simp: ps2_enqueue_def PS2_QUEUE_SIZE_def ps2_ok_def ps2_items_def split: if_splits)
    ultimately show ?thesis using assms by (simp add: ps2_queue_kbd_def)
  qed
qed

lemma queue_mouse_ok:
  assumes "kbc_inv (k, w)"
  shows "\<exists>k' w'. ps2_queue_mouse b (k, w) = Some (k', w') \<and> kbc_inv (k', w') \<and>
     (mouse_bytes k' = mouse_bytes k @ [ucast b] \<or> mouse_bytes k' = mouse_bytes k \<and> length (mouse_bytes k) = 256) \<and>
     kbd_bytes k' = kbd_bytes k"
proof -
  have inv: "ps2_ok (kbd_queue k)" "ps2_ok (mouse_queue k)" "pic_pair_inv w"
    "kbc_pend (kbd_bytes k \<noteq> []) (mouse_bytes k \<noteq> []) k"
    using assms by (simp_all add: kbc_inv_def)
  show ?thesis
  proof (rule ps2q.enq_cases [OF inv(2), of "ucast b"])
    fix q assume q: "ps2_enqueue (ucast b) (mouse_queue k) = (True, q)" "ps2_ok q"
      "ps2_items q = mouse_bytes k @ [ucast b]"
    have "kb_pending (k\<lparr>mouse_queue := q\<rparr>) = of_bool (kbd_bytes k \<noteq> []) + 2 * of_bool (mouse_bytes k \<noteq> [])"
      using inv(4) by (simp add: kbc_pend_def)
    from update_i8042_irq_ok(2) [OF inv(3) this, of True] obtain st w' where
      u: "update_i8042_aux_irq True (k\<lparr>mouse_queue := q\<rparr>, w) =
        Some (k\<lparr>mouse_queue := q, kb_pending := of_bool (kbd_bytes k \<noteq> []) + 2 * of_bool True, kb_status := st\<rparr>, w')"
      "pic_pair_inv w'" "st AND 0x21 = obf_flags (kbd_bytes k \<noteq> []) True" by auto
    let ?k' = "k\<lparr>mouse_queue := q, kb_pending := of_bool (kbd_bytes k \<noteq> []) + 2 * of_bool True, kb_status := st\<rparr>"
    have "ps2_queue_mouse b (k, w) = Some (?k', w')" using u(1) q(1) by (simp add: ps2_queue_mouse_def)
    moreover have "kbc_inv (?k', w')" using u(2,3) q(2,3) inv by (simp add: kbc_inv_def kbc_pend_def)
    moreover have "mouse_bytes ?k' = mouse_bytes k @ [ucast b]" "kbd_bytes ?k' = kbd_bytes k" using q(3) by simp_all
    ultimately show ?thesis by blast
  next
    assume "ps2_enqueue (ucast b) (mouse_queue k) = (False, mouse_queue k)"
    moreover from this have "length (mouse_bytes k) = 256"
      using inv(2) by (auto simp: ps2_enqueue_def PS2_QUEUE_SIZE_def ps2_ok_def ps2_items_def split: if_splits)
    ultimately show ?thesis using assms by (simp add: ps2_queue_mouse_def)
  qed
qed

lemma read_kbd_ok:
  assumes "kbc_inv (k, w)"
  shows "\<exists>v k' w'. ps2_read_kbd_data (k, w) = Some (v, k', w') \<and> kbc_inv (k', w') \<and>
     (kbd_bytes k \<noteq> [] \<longrightarrow> v = ucast (hd (kbd_bytes k))) \<and>
     kbd_bytes k' = tl (kbd_bytes k) \<and> mouse_bytes k' = mouse_bytes k"
proof -
  have inv: "ps2_ok (kbd_queue k)" "ps2_ok (mouse_queue k)" "pic_pair_inv w"
    "kbc_pend (kbd_bytes k \<noteq> []) (mouse_bytes k \<noteq> []) k"
    using assms by (simp_all add: kbc_inv_def)
  show ?thesis
  proof (rule ps2q.deq_cases [OF inv(1)])
    fix q assume q: "ps2_dequeue (kbd_queue k) = (hd (kbd_bytes k), True, q)" "kbd_bytes k \<noteq> []" "ps2_ok q"
      "ps2_items q = tl (kbd_bytes k)"
    have c: "q_count q \<noteq> 0 \<longleftrightarrow> ps2_items q \<noteq> []" by (simp add: ps2_items_Nil)
    have "kb_pending (k\<lparr>kbd_queue := q\<rparr>) = of_bool (kbd_bytes k \<noteq> []) + 2 * of_bool (mouse_bytes k \<noteq> [])"
      using inv(4) by (simp add: kbc_pend_def)
    from update_i8042_irq_ok(1) [OF inv(3) this, of False] obtain st w1 where
      1: "update_i8042_irq False (k\<lparr>kbd_queue := q\<rparr>, w) =
        Some (k\<lparr>kbd_queue := q, kb_pending := of_bool False + 2 * of_bool (mouse_bytes k \<noteq> []), kb_status := st\<rparr>, w1)"
        "pic_pair_inv w1"
      by auto
    let ?k1 = "k\<lparr>kbd_queue := q, kb_pending := of_bool False + 2 * of_bool (mouse_bytes k \<noteq> []), kb_status := st\<rparr>"
    have "kb_pending ?k1 = of_bool False + 2 * of_bool (mouse_bytes k \<noteq> [])" by simp
    from update_i8042_irq_ok(1) [OF 1(2) this, of "q_count q \<noteq> 0"] obtain st' w' where
      2: "update_i8042_irq (q_count q \<noteq> 0) (?k1, w1) =
        Some (?k1\<lparr>kb_pending := of_bool (q_count q \<noteq> 0) + 2 * of_bool (mouse_bytes k \<noteq> []), kb_status := st'\<rparr>, w')"
        "pic_pair_inv w'" "st' AND 0x21 = obf_flags (q_count q \<noteq> 0) (mouse_bytes k \<noteq> [])" by auto
    let ?k' = "?k1\<lparr>kb_pending := of_bool (q_count q \<noteq> 0) + 2 * of_bool (mouse_bytes k \<noteq> []), kb_status := st'\<rparr>"
    have "ps2_read_kbd_data (k, w) = Some (ucast (hd (kbd_bytes k)), ?k', w')"
      using 1(1) 2(1) q(1) by (simp add: ps2_read_kbd_data_def)
    moreover have "kbc_inv (?k', w')" using 2(2,3) q(3) inv c by (simp add: kbc_inv_def kbc_pend_def)
    moreover have "kbd_bytes ?k' = tl (kbd_bytes k)" "mouse_bytes ?k' = mouse_bytes k" using q(4) by simp_all
    ultimately show ?thesis by blast
  next
    fix v assume "ps2_dequeue (kbd_queue k) = (v, False, kbd_queue k)" "kbd_bytes k = []"
    then show ?thesis using assms by (simp add: ps2_read_kbd_data_def)
  qed
qed

lemma read_mouse_ok:
  assumes "kbc_inv (k, w)"
  shows "\<exists>v k' w'. ps2_read_mouse_data (k, w) = Some (v, k', w') \<and> kbc_inv (k', w') \<and>
     (mouse_bytes k \<noteq> [] \<longrightarrow> v = ucast (hd (mouse_bytes k))) \<and>
     mouse_bytes k' = tl (mouse_bytes k) \<and> kbd_bytes k' = kbd_bytes k"
proof -
  have inv: "ps2_ok (kbd_queue k)" "ps2_ok (mouse_queue k)" "pic_pair_inv w"
    "kbc_pend (kbd_bytes k \<noteq> []) (mouse_bytes k \<noteq> []) k"
    using assms by (simp_all add: kbc_inv_def)
  show ?thesis
  proof (rule ps2q.deq_cases [OF inv(2)])
    fix q assume q: "ps2_dequeue (mouse_queue k) = (hd (mouse_bytes k), True, q)" "mouse_bytes k \<noteq> []" "ps2_ok q"
      "ps2_items q = tl (mouse_bytes k)"
    have c: "q_count q \<noteq> 0 \<longleftrightarrow> ps2_items q \<noteq> []" by (simp add: ps2_items_Nil)
    have "kb_pending (k\<lparr>mouse_queue := q\<rparr>) = of_bool (kbd_bytes k \<noteq> []) + 2 * of_bool (mouse_bytes k \<noteq> [])"
      using inv(4) by (simp add: kbc_pend_def)
    from update_i8042_irq_ok(2) [OF inv(3) this, of False] obtain st w1 where
      1: "update_i8042_aux_irq False (k\<lparr>mouse_queue := q\<rparr>, w) =
        Some (k\<lparr>mouse_queue := q, kb_pending := of_bool (kbd_bytes k \<noteq> []) + 2 * of_bool False, kb_status := st\<rparr>, w1)"
        "pic_pair_inv w1"
      by auto
    let ?k1 = "k\<lparr>mouse_queue := q, kb_pending := of_bool (kbd_bytes k \<noteq> []) + 2 * of_bool False, kb_status := st\<rparr>"
    have "kb_pending ?k1 = of_bool (kbd_bytes k \<noteq> []) + 2 * of_bool False" by simp
    from update_i8042_irq_ok(2) [OF 1(2) this, of "q_count q \<noteq> 0"] obtain st' w' where
      2: "update_i8042_aux_irq (q_count q \<noteq> 0) (?k1, w1) =
        Some (?k1\<lparr>kb_pending := of_bool (kbd_bytes k \<noteq> []) + 2 * of_bool (q_count q \<noteq> 0), kb_status := st'\<rparr>, w')"
        "pic_pair_inv w'" "st' AND 0x21 = obf_flags (kbd_bytes k \<noteq> []) (q_count q \<noteq> 0)" by auto
    let ?k' = "?k1\<lparr>kb_pending := of_bool (kbd_bytes k \<noteq> []) + 2 * of_bool (q_count q \<noteq> 0), kb_status := st'\<rparr>"
    have "ps2_read_mouse_data (k, w) = Some (ucast (hd (mouse_bytes k)), ?k', w')"
      using 1(1) 2(1) q(1) by (simp add: ps2_read_mouse_data_def)
    moreover have "kbc_inv (?k', w')" using 2(2,3) q(3) inv c by (simp add: kbc_inv_def kbc_pend_def)
    moreover have "mouse_bytes ?k' = tl (mouse_bytes k)" "kbd_bytes ?k' = kbd_bytes k" using q(4) by simp_all
    ultimately show ?thesis by blast
  next
    fix v assume "ps2_dequeue (mouse_queue k) = (v, False, mouse_queue k)" "mouse_bytes k = []"
    then show ?thesis using assms by (simp add: ps2_read_mouse_data_def)
  qed
qed

lemma kbc_inv_frame [simp]:
  "kbc_inv (k\<lparr>kbd_write_cmd := x1\<rparr>, w) = kbc_inv (k, w)" "kbc_inv (k\<lparr>scan_enabled := x2\<rparr>, w) = kbc_inv (k, w)"
  "kbc_inv (k\<lparr>kbd_translate := x3\<rparr>, w) = kbc_inv (k, w)" "kbc_inv (k\<lparr>mouse_write_cmd := x4\<rparr>, w) = kbc_inv (k, w)"
  "kbc_inv (k\<lparr>mouse_status := x5\<rparr>, w) = kbc_inv (k, w)" "kbc_inv (k\<lparr>mouse_resolution := x6\<rparr>, w) = kbc_inv (k, w)"
  "kbc_inv (k\<lparr>mouse_sample_rate := x7\<rparr>, w) = kbc_inv (k, w)" "kbc_inv (k\<lparr>mouse_wrap := x8\<rparr>, w) = kbc_inv (k, w)"
  "kbc_inv (k\<lparr>mouse_type := x9\<rparr>, w) = kbc_inv (k, w)" "kbc_inv (k\<lparr>mouse_detect_state := x10\<rparr>, w) = kbc_inv (k, w)"
  "kbc_inv (k\<lparr>mouse_dx := y1\<rparr>, w) = kbc_inv (k, w)" "kbc_inv (k\<lparr>mouse_dy := y2\<rparr>, w) = kbc_inv (k, w)"
  "kbc_inv (k\<lparr>mouse_dz := y3\<rparr>, w) = kbc_inv (k, w)" "kbc_inv (k\<lparr>kb_write_cmd := y4\<rparr>, w) = kbc_inv (k, w)"
  "kbc_inv (k\<lparr>kb_mode := y5\<rparr>, w) = kbc_inv (k, w)"
  "kbc_inv (k\<lparr>kb_status := kb_status k OR 4\<rparr>, w) = kbc_inv (k, w)"
  by (simp_all add: kbc_inv_def kbc_pend_def obf_bits)

definition kbc_total :: "('w kbw \<Rightarrow> 'w kbw option) \<Rightarrow> bool" where
  "kbc_total f \<longleftrightarrow> (\<forall>k w. kbc_inv (k, w) \<longrightarrow> (\<exists>k' w'. f (k, w) = Some (k', w') \<and> kbc_inv (k', w')))"

lemma kbc_totalD: "kbc_total f \<Longrightarrow> kbc_inv (k, w) \<Longrightarrow> \<exists>k' w'. f (k, w) = Some (k', w') \<and> kbc_inv (k', w')"
  by (simp add: kbc_total_def)

lemma queue_total: "kbc_total (ps2_queue_kbd b)" "kbc_total (ps2_queue_mouse b)"
  using queue_kbd_ok queue_mouse_ok unfolding kbc_total_def by meson+

lemma queue_all_total: "(\<And>b. kbc_total (q b)) \<Longrightarrow> kbc_total (queue_all q bs)"
proof (induction bs)
  case (Cons b bs)
  then show ?case unfolding kbc_total_def queue_all.simps by (metis bind.bind_lunit)
qed (simp add: kbc_total_def)

lemma update_irq_total: "kbc_total i8042_update_irq"
  unfolding kbc_total_def
proof (intro allI impI)
  fix k and w :: "'a apic_wedge_scheme" assume inv: "kbc_inv (k, w)"
  then have "pic_pair_inv w" "kb_pending k = of_bool (kbd_bytes k \<noteq> []) + 2 * of_bool (mouse_bytes k \<noteq> [])"
    by (simp_all add: kbc_inv_def kbc_pend_def)
  from i8042_update_irq_ok [OF this] inv
  show "\<exists>k' w'. i8042_update_irq (k, w) = Some (k', w') \<and> kbc_inv (k', w')"
    by (fastforce simp: kbc_inv_def kbc_pend_def)
qed

lemma kbc_total_if: "kbc_total f \<Longrightarrow> kbc_total g \<Longrightarrow> kbc_total (\<lambda>kw. if c kw then f kw else g kw)"
  by (simp add: kbc_total_def)

lemma kbc_total_upd:
  "kbc_total f \<Longrightarrow> (\<And>k w :: 'w apic_wedge_scheme. kbc_inv (k, w) \<Longrightarrow> kbc_inv (h k, w)) \<Longrightarrow>
     kbc_total (\<lambda>kw :: 'w kbw. f (kbc_upd h kw))"
  by (simp add: kbc_total_def kbc_upd_def)

lemma kbc_total_bind: "kbc_total f \<Longrightarrow> kbc_total g \<Longrightarrow> kbc_total (\<lambda>kw. f kw \<bind> g)"
  unfolding kbc_total_def by (metis bind.bind_lunit)

lemma kbc_total_Some: "kbc_total Some"
  by (simp add: kbc_total_def)

lemmas kbc_total_intros = kbc_total_if kbc_total_bind kbc_total_upd [where f = Some, OF kbc_total_Some]
  kbc_total_upd kbc_total_Some queue_total queue_all_total update_irq_total

lemma write_keyboard_total: "kbc_total (ps2_write_keyboard val)"
  unfolding ps2_write_keyboard_def [abs_def] Let_def
  by (intro kbc_total_intros) (simp_all add: ps2_reset_keyboard_def)

lemma queue_mouse_total: "kbc_total (queue_all ps2_queue_mouse bs)"
  by (rule queue_all_total) (rule queue_total)

lemma send_packet_total: "kbc_total ps2_mouse_send_packet"
  unfolding kbc_total_def
proof (intro allI impI)
  fix k and w :: "'a apic_wedge_scheme" assume "kbc_inv (k, w)"
  from kbc_totalD [OF queue_mouse_total this, of "mouse_packet k"]
  show "\<exists>k' w'. ps2_mouse_send_packet (k, w) = Some (k', w') \<and> kbc_inv (k', w')"
    by (auto simp: ps2_mouse_send_packet_def kbc_upd_def Let_def)
qed

lemma simple_reply_inv: "mouse_simple_reply val k = Some (k', reply) \<Longrightarrow> kbc_inv (k, w) \<Longrightarrow> kbc_inv (k', w)"
  by (auto simp: mouse_simple_reply_def split: if_splits)

lemma simple_reply_total:
  "kbc_total (\<lambda>kw. case mouse_simple_reply val (fst kw) of
     Some (k', reply) \<Rightarrow> queue_all ps2_queue_mouse reply (k', snd kw) | None \<Rightarrow> Some kw)"
  unfolding kbc_total_def
proof (intro allI impI)
  fix k and w :: "'a apic_wedge_scheme" assume inv: "kbc_inv (k, w)"
  show "\<exists>k' w'. (case mouse_simple_reply val (fst (k, w)) of
       Some (k', reply) \<Rightarrow> queue_all ps2_queue_mouse reply (k', snd (k, w)) | None \<Rightarrow> Some (k, w)) = Some (k', w') \<and>
     kbc_inv (k', w')"
    using kbc_totalD [OF queue_mouse_total simple_reply_inv [OF _ inv]] inv
    by (auto split: option.split)
qed

lemma write_mouse_total: "kbc_total (ps2_write_mouse val)"
  unfolding ps2_write_mouse_def [abs_def] Let_def
  by (intro kbc_total_intros send_packet_total simple_reply_total) (simp_all add: mouse_detect_def)

lemma put_keycode_total: "kbc_total (ps2_put_keycode code)"
  unfolding ps2_put_keycode_def [abs_def] by (intro kbc_total_intros)

section \<open>No port access panics\<close>

definition kbd_inv :: "rtc_t \<times> 'w kbw \<Rightarrow> bool" where
  "kbd_inv rkw \<longleftrightarrow> kbc_inv (snd rkw)"

lemma i8042_read_ok:
  assumes "kbc_inv (k, w)"
  shows "\<exists>v k' w'. i8042_read (k, w) = Some (v, k', w') \<and> kbc_inv (k', w') \<and>
     (if kbd_bytes k = [] \<and> mouse_bytes k \<noteq> [] then
        v = ucast (hd (mouse_bytes k)) \<and> mouse_bytes k' = tl (mouse_bytes k) \<and> kbd_bytes k' = []
      else (kbd_bytes k \<noteq> [] \<longrightarrow> v = ucast (hd (kbd_bytes k))) \<and>
        kbd_bytes k' = tl (kbd_bytes k) \<and> mouse_bytes k' = mouse_bytes k)"
proof -
  have "kb_pending k = of_bool (kbd_bytes k \<noteq> []) + 2 * of_bool (mouse_bytes k \<noteq> [])"
    using assms by (simp add: kbc_inv_def kbc_pend_def)
  then have p: "kb_pending k = 2 \<longleftrightarrow> kbd_bytes k = [] \<and> mouse_bytes k \<noteq> []"
    by (cases "kbd_bytes k = []"; cases "mouse_bytes k = []") simp_all
  show ?thesis
  proof (cases "kb_pending k = 2")
    case True
    then show ?thesis using p read_mouse_ok [OF assms] by (auto simp: i8042_read_def)
  next
    case False
    then show ?thesis using p read_kbd_ok [OF assms] by (auto simp: i8042_read_def)
  qed
qed

lemma i8042_write_command_ok:
  assumes "kbc_inv (k, w)"
  shows "\<exists>r' k' w'. i8042_write_command val (r, k, w) = Some (r', k', w') \<and> kbc_inv (k', w')"
proof -
  have q: "\<exists>k' w'. ps2_queue_kbd b (k, w) = Some (k', w') \<and> kbc_inv (k', w')" for b
    using kbc_totalD [OF queue_total(1) assms] .
  have q4: "\<exists>k' w'. ps2_queue_kbd b (k\<lparr>kb_status := kb_status k OR 4\<rparr>, w) = Some (k', w') \<and> kbc_inv (k', w')" for b
    by (rule kbc_totalD [OF queue_total(1)]) (use assms in simp)
  have u: "\<exists>k' w'. i8042_update_irq (k\<lparr>kb_mode := m\<rparr>, w) = Some (k', w') \<and> kbc_inv (k', w')" for m
    by (rule kbc_totalD [OF update_irq_total]) (use assms in simp)
  have "\<exists>r' k' w'. (do { kw \<leftarrow> ps2_queue_kbd b (k, w); Some (r, kw) }) = Some (r', k', w') \<and> kbc_inv (k', w')" for b
    using q [of b] by auto
  moreover have "\<exists>r' k' w'. (do { kw \<leftarrow> ps2_queue_kbd b (k\<lparr>kb_status := kb_status k OR 4\<rparr>, w); Some (r, kw) })
      = Some (r', k', w') \<and> kbc_inv (k', w')" for b
    using q4 [of b] by auto
  moreover have "\<exists>r' k' w'. (do { kw \<leftarrow> i8042_update_irq (k\<lparr>kb_mode := m\<rparr>, w); Some (r, kw) })
      = Some (r', k', w') \<and> kbc_inv (k', w')" for m
    using u [of m] by auto
  ultimately show ?thesis using assms
    by (simp add: i8042_write_command_def kbc_upd_def)
qed

lemma i8042_write_ok:
  assumes "kbc_inv (k, w)"
  shows "\<exists>r' k' w'. i8042_write val (r, k, w) = Some (r', k', w') \<and> kbc_inv (k', w')"
proof -
  let ?k = "ps2_keyboard_set_translation (ucast val AND (0x40 :: u8) \<noteq> 0) (k\<lparr>kb_mode := ucast val\<rparr>)"
  have m: "kbc_inv (?k, w)" using assms by (simp add: ps2_keyboard_set_translation_def)
  show ?thesis
    using kbc_totalD [OF write_keyboard_total assms, of val] kbc_totalD [OF update_irq_total m]
      kbc_totalD [OF queue_total(1) assms, of val] kbc_totalD [OF queue_total(2) assms, of val]
      kbc_totalD [OF write_mouse_total assms, of val] assms
    by (auto simp: i8042_write_def kbc_upd_def Let_def)
qed

lemma i8042_portio_ok:
  assumes "kbd_inv rkw"
  shows "\<exists>v rkw'. i8042_portio port val rd rkw = Some (v, rkw') \<and> kbd_inv rkw'"
proof -
  obtain r k w where rkw: "rkw = (r, k, w)" by (cases rkw)
  have inv: "kbc_inv (k, w)" using assms rkw by (simp add: kbd_inv_def)
  show ?thesis
    using i8042_read_ok [OF inv] i8042_write_ok [OF inv, of val r] i8042_write_command_ok [OF inv, of val r] inv
    by (fastforce simp: i8042_portio_def kbd_inv_def rkw)
qed

interpretation kbd: port_device "\<lambda>_ :: unit. i8042_portio" kbd_inv
  by unfold_locales (rule i8042_portio_ok)

lemma kbc_inv_init: "pic_pair_inv w \<Longrightarrow> kbc_inv (kbc_init, w)"
  by (simp add: kbc_inv_def kbc_init_def i8042_reset_def ps2_reset_queue_def ps2_ok_def ps2_items_def
      kbc_pend_def obf_flags_def Let_def)

section \<open>Properties\<close>

text \<open>
  C31: The keyboard controller never misreports its queues. After any sequence of port accesses by the guest,
  starting from power-on, no handler has panicked; bit 0 of the status port is set exactly
  when a byte waits, bit 5 exactly when only mouse bytes wait; and a read of the data port
  returns the oldest keyboard byte if there is one, else the oldest mouse byte, and removes just this byte.
\<close>

theorem kbc_status_and_data:
  assumes "pic_pair_inv w"
  shows "\<exists>vs r' k' w'. port_run (\<lambda>_ :: unit. i8042_portio) as (r, kbc_init, w) = Some (vs, r', k', w') \<and>
     (kb_status k' AND 0x21 =
        (if kbd_bytes k' \<noteq> [] then 0x01 else if mouse_bytes k' \<noteq> [] then 0x21 else 0)) \<and>
     (\<exists>v k'' w''. i8042_portio 0x60 x True (r', k', w') = Some (v, r', k'', w'') \<and>
       (if kbd_bytes k' = [] \<and> mouse_bytes k' \<noteq> [] then
          v = ucast (hd (mouse_bytes k')) \<and> mouse_bytes k'' = tl (mouse_bytes k') \<and> kbd_bytes k'' = []
        else (kbd_bytes k' = [] \<or> v = ucast (hd (kbd_bytes k'))) \<and>
          kbd_bytes k'' = tl (kbd_bytes k') \<and> mouse_bytes k'' = mouse_bytes k'))"
proof -
  have "kbd_inv (r, kbc_init, w)" using kbc_inv_init [OF assms] by (simp add: kbd_inv_def)
  from kbd.run_survives [OF this, of as] obtain vs r' k' w' where
    run: "port_run (\<lambda>_ :: unit. i8042_portio) as (r, kbc_init, w) = Some (vs, r', k', w')" "kbc_inv (k', w')"
    by (auto simp: kbd_inv_def)
  have "kb_status k' AND 0x21 =
      (if kbd_bytes k' \<noteq> [] then 0x01 else if mouse_bytes k' \<noteq> [] then 0x21 else 0)"
    using run(2) by (simp add: kbc_inv_def kbc_pend_def obf_flags_def)
  moreover from i8042_read_ok [OF run(2)] obtain v k'' w'' where "i8042_read (k', w') = Some (v, k'', w'')"
      "if kbd_bytes k' = [] \<and> mouse_bytes k' \<noteq> [] then
          v = ucast (hd (mouse_bytes k')) \<and> mouse_bytes k'' = tl (mouse_bytes k') \<and> kbd_bytes k'' = []
        else (kbd_bytes k' \<noteq> [] \<longrightarrow> v = ucast (hd (kbd_bytes k'))) \<and>
          kbd_bytes k'' = tl (kbd_bytes k') \<and> mouse_bytes k'' = mouse_bytes k'" by blast
  then have "i8042_portio 0x60 x True (r', k', w') = Some (v, r', k'', w'') \<and>
       (if kbd_bytes k' = [] \<and> mouse_bytes k' \<noteq> [] then
          v = ucast (hd (mouse_bytes k')) \<and> mouse_bytes k'' = tl (mouse_bytes k') \<and> kbd_bytes k'' = []
        else (kbd_bytes k' = [] \<or> v = ucast (hd (kbd_bytes k'))) \<and>
          kbd_bytes k'' = tl (kbd_bytes k') \<and> mouse_bytes k'' = mouse_bytes k')"
    by (auto simp: i8042_portio_def)
  ultimately show ?thesis using run(1) by blast
qed

theorem kbc_status_and_data_witness:
  "\<exists>vs r' k' w'. port_run (\<lambda>_ :: unit. i8042_portio) [((), 0x64, 0xaa, False), ((), 0x64, 0xd4, False), ((), 0x60, 0xf4, False)]
       (rtc_init, kbc_init, boot_apic 1) = Some (vs, r', k', w') \<and>
     (kb_status k' AND 0x21 =
        (if kbd_bytes k' \<noteq> [] then 0x01 else if mouse_bytes k' \<noteq> [] then 0x21 else 0))"
  using kbc_status_and_data [OF boot_pic_pair(1),
      of "[((), 0x64, 0xaa, False), ((), 0x64, 0xd4, False), ((), 0x60, 0xf4, False)]" rtc_init 1]
  by blast

text \<open>
  C33: The PS/2 queues are FIFOs of 256 bytes. From a queue in order, queueing a byte
  appends it, unless 256 bytes wait, in which case nothing changes; taking a byte yields the oldest one and leaves the
  others, and an empty queue stays as it is. The ring indices stay in order.
\<close>

theorem ps2_queue_refines_fifo:
  assumes "ps2_ok q"
  shows "(case ps2_enqueue b q of (stored, q') \<Rightarrow>
       ps2_ok q' \<and> stored = (length (ps2_items q) < 256) \<and>
       ps2_items q' = (if length (ps2_items q) < 256 then ps2_items q @ [b] else ps2_items q)) \<and>
     (case ps2_dequeue q of (v, some, q') \<Rightarrow>
       ps2_ok q' \<and> some = (ps2_items q \<noteq> []) \<and> ps2_items q' = tl (ps2_items q) \<and>
       (ps2_items q = [] \<or> v = hd (ps2_items q)))"
  using ps2q.enq_room [OF assms, of b] ps2q.enq_full [OF assms, of b] ps2q.deq_some [OF assms]
    ps2q.deq_none [OF assms] assms
  by (cases "length (ps2_items q) < 256"; cases "ps2_items q = []") auto

theorem ps2_queue_refines_fifo_witness:
  "case ps2_enqueue 7 (kbd_queue kbc_init) of (stored, q') \<Rightarrow> stored \<and> ps2_items q' = [7]"
proof -
  have "ps2_ok (kbd_queue kbc_init)" "ps2_items (kbd_queue kbc_init) = []"
    by (simp_all add: kbc_init_def i8042_reset_def ps2_reset_queue_def ps2_ok_def ps2_items_def Let_def)
  with ps2_queue_refines_fifo [of "kbd_queue kbc_init" 7] show ?thesis by (auto split: prod.splits)
qed

end
