(* ===== verification/Portio.thy ===== *)
theory Portio
  imports Serial8250 Pit8254 Kbc
begin

text \<open>
  The dispatch of the guest's port instructions (device/portio.cc): \<^verbatim>\<open>do_portio\<close> hands an access to the
  model of the device behind the port or to the hardware, and the string instructions are loops over it.
  The configuration is the one of the wedge on L4Ka without the options for IDE, PCI, the QEMU device
  model and pass-through devices, and without an APIC. The state is that of all devices together. What
  comes from outside at the time of an access, the clock, the time of day and what the hardware
  answers, is the parameter \<open>port_env\<close>.
\<close>

unbundle bit_operations_syntax

section \<open>The platform\<close>

record platform =
  pf_cmos :: cmos_t
  pf_pit :: PITState
  pf_ser :: serial_ports_t
  pf_kbc :: kbc
  pf_w :: apic_wedge
  pf_hw_out :: "(u16 \<times> u32 \<times> u32) list"
  pf_printed :: "u8 list"

record port_env =
  pe_clock :: u64
  pe_cmos :: cmos_env
  pe_hw_in :: "u16 \<Rightarrow> u32 \<Rightarrow> u32"

definition do_passthru_portio :: "port_env \<Rightarrow> u16 \<Rightarrow> u32 \<Rightarrow> u32 \<Rightarrow> bool \<Rightarrow> platform \<Rightarrow> u32 \<times> platform" where
  "do_passthru_portio env port val bit_width read s =
     (if read then
        (if bit_width = 8 \<or> bit_width = 16 \<or> bit_width = 32 then (pe_hw_in env port bit_width, s) else (val, s))
      else if bit_width = 8 \<or> bit_width = 16 \<or> bit_width = 32 then
        (val, s\<lparr>pf_hw_out := pf_hw_out s @ [(port, bit_width, take_bit (unat bit_width) val)]\<rparr>)
      else (val, s))"

text \<open>The cases of the switch over the port, in the order of the source; the last is its default.\<close>

datatype port_class =
  Port_delay | Port_a20 | Port_pic | Port_pit | Port_keyboard | Port_console | Port_bus_mouse | Port_rtc |
  Port_isapnp | Port_serial | Port_ide | Port_floppy | Port_vga | Port_pci | Port_bios_debug | Port_default

definition classify_port :: "u16 \<Rightarrow> port_class" where
  "classify_port port =
     (let within = (\<lambda>lo hi. lo \<le> port \<and> port \<le> hi) in
      if port = 0x80 then Port_delay
      else if port = 0x92 then Port_a20
      else if within 0x20 0x21 \<or> within 0xa0 0xa1 \<or> within 0x4d0 0x4d1 then Port_pic
      else if within 0x40 0x43 \<or> port = 0x61 then Port_pit
      else if port = 0x60 \<or> within 0x62 0x64 then Port_keyboard
      else if port = 0xe9 then Port_console
      else if within 0x238 0x23f then Port_bus_mouse
      else if within 0x70 0x7f then Port_rtc
      else if port = 0x279 \<or> port = 0xa79 then Port_isapnp
      else if within 0x3f8 0x3ff \<or> within 0x2f8 0x2ff \<or> within 0x3e8 0x3ef \<or> within 0x2e8 0x2ef then Port_serial
      else if within 0x1f0 0x1f7 \<or> within 0x170 0x177 \<or> within 0xb400 0xb407 \<or> within 0xb408 0xb40f \<or>
        port = 0x376 \<or> port = 0x3f6 then Port_ide
      else if port = 0x377 \<or> within 0x3f2 0x3f5 \<or> port = 0x3f7 then Port_floppy
      else if within 0x1ce 0x1cf \<or> within 0x3b0 0x3df then Port_vga
      else if within 0xcf8 0xcff then Port_pci
      else if within 0x400 0x403 then Port_bios_debug
      else Port_default)"

definition do_portio ::
    "port_env \<Rightarrow> u16 \<Rightarrow> u32 \<Rightarrow> u32 \<Rightarrow> bool \<Rightarrow> platform \<Rightarrow> (bool \<times> u32 \<times> platform) option" where
  "do_portio env port val bit_width read s =
     (let val = (if read then 0xffffffff else val);
          passthru = Some (True, do_passthru_portio env port val bit_width read s)
      in case classify_port port of
        Port_delay \<Rightarrow> Some (True, val, s)
      | Port_a20 \<Rightarrow>
          (let (v, r) = legacy_0x92 val read (rtc (pf_cmos s))
           in Some (True, v, s\<lparr>pf_cmos := (pf_cmos s)\<lparr>rtc := r\<rparr>\<rparr>))
      | Port_pic \<Rightarrow> do {
          (v, w) \<leftarrow> i8259a_portio port val read (pf_w s);
          Some (True, v, s\<lparr>pf_w := w\<rparr>) }
      | Port_pit \<Rightarrow> do {
          (v, p) \<leftarrow> i8254_portio (pe_clock env) bit_width port val read (pf_pit s);
          Some (True, v, s\<lparr>pf_pit := p\<rparr>) }
      | Port_keyboard \<Rightarrow> do {
          (v, r, k, w) \<leftarrow> i8042_portio port val read (rtc (pf_cmos s), pf_kbc s, pf_w s);
          Some (True, v, s\<lparr>pf_cmos := (pf_cmos s)\<lparr>rtc := r\<rparr>, pf_kbc := k, pf_w := w\<rparr>) }
      | Port_console \<Rightarrow> Some (True, val, s\<lparr>pf_printed := pf_printed s @ [ucast val]\<rparr>)
      | Port_bus_mouse \<Rightarrow> Some (True, val, s)
      | Port_rtc \<Rightarrow> do {
          (v, c, w) \<leftarrow> mc146818rtc_portio False (pe_cmos env) port val read (pf_cmos s) (pf_w s);
          Some (True, v, s\<lparr>pf_cmos := c, pf_w := w\<rparr>) }
      | Port_isapnp \<Rightarrow> passthru
      | Port_serial \<Rightarrow> do {
          (v, d, w) \<leftarrow> serial8250_portio False port val read (pf_ser s, pf_w s);
          Some (True, v, s\<lparr>pf_ser := d, pf_w := w\<rparr>) }
      | Port_ide \<Rightarrow> Some (True, val, s)
      | Port_floppy \<Rightarrow> Some (True, val, s)
      | Port_vga \<Rightarrow> passthru
      | Port_pci \<Rightarrow> Some (False, val, s)
      | Port_bios_debug \<Rightarrow> Some (True, val, s\<lparr>pf_printed := pf_printed s @ [ucast val]\<rparr>)
      | Port_default \<Rightarrow> passthru)"

definition portio_read :: "port_env \<Rightarrow> u16 \<Rightarrow> u32 \<Rightarrow> u32 \<Rightarrow> platform \<Rightarrow> (bool \<times> u32 \<times> platform) option" where
  "portio_read env port val bit_width s = do_portio env port val bit_width True s"

definition portio_write :: "port_env \<Rightarrow> u16 \<Rightarrow> u32 \<Rightarrow> u32 \<Rightarrow> platform \<Rightarrow> (bool \<times> platform) option" where
  "portio_write env port val bit_width s =
     do { (ok, _, s) \<leftarrow> do_portio env port val bit_width False s; Some (ok, s) }"

section \<open>String instructions\<close>

text \<open>
  The elements of a buffer in memory, of 1, 2 or 4 bytes. A string instruction makes several
  accesses at different times: \<open>envs i\<close> is the outside world at the access \<open>i\<close>.
\<close>

definition store_elem :: "nat \<Rightarrow> u32 \<Rightarrow> u32 \<Rightarrow> memory \<Rightarrow> memory" where
  "store_elem sz a v m =
     (if sz = 1 then m(a := ucast v)
      else if sz = 2 then m(a := ucast v, a + 1 := ucast (drop_bit 8 v))
      else store32 a v m)"

definition load_elem :: "nat \<Rightarrow> u32 \<Rightarrow> memory \<Rightarrow> u32" where
  "load_elem sz a m =
     (if sz = 1 then ucast (m a) else if sz = 2 then ucast (load16 a m) else load32 a m)"

fun do_portio_string_read ::
    "(nat \<Rightarrow> port_env) \<Rightarrow> nat \<Rightarrow> u16 \<Rightarrow> nat \<Rightarrow> nat \<Rightarrow> u32 \<Rightarrow> platform \<Rightarrow> (bool \<times> platform) option" where
  "do_portio_string_read envs sz port i 0 buf s = Some (True, s)"
| "do_portio_string_read envs sz port i (Suc n) buf s = do {
     (ok, tmp, s) \<leftarrow> do_portio (envs i) port 0 (of_nat (sz * 8)) True s;
     if \<not> ok then Some (False, s)
     else do_portio_string_read envs sz port (i + 1) n (buf + of_nat sz)
            (s\<lparr>pf_w := upd_mem (store_elem sz buf tmp) (pf_w s)\<rparr>) }"

fun do_portio_string_write ::
    "(nat \<Rightarrow> port_env) \<Rightarrow> nat \<Rightarrow> u16 \<Rightarrow> nat \<Rightarrow> nat \<Rightarrow> u32 \<Rightarrow> platform \<Rightarrow> (bool \<times> platform) option" where
  "do_portio_string_write envs sz port i 0 buf s = Some (True, s)"
| "do_portio_string_write envs sz port i (Suc n) buf s = do {
     let tmp = load_elem sz buf (mem (pf_w s));
     (ok, _, s) \<leftarrow> do_portio (envs i) port tmp (of_nat (sz * 8)) False s;
     if \<not> ok then Some (False, s)
     else do_portio_string_write envs sz port (i + 1) n (buf + of_nat sz) s }"

definition backend_resolve_kaddr :: "word_t \<Rightarrow> word_t \<Rightarrow> word_t \<times> word_t" where
  "backend_resolve_kaddr addr sz = (addr, sz)"

text \<open>The body of the loop over the resolved pieces of the buffer.\<close>

definition string_piece ::
    "(nat \<Rightarrow> nat \<Rightarrow> u32 \<Rightarrow> platform \<Rightarrow> (bool \<times> platform) option) \<Rightarrow> word_t \<Rightarrow> word_t \<Rightarrow> word_t \<Rightarrow> platform \<Rightarrow>
     (bool \<times> platform) option" where
  "string_piece f bit_width psize pmem s =
     (if bit_width = 8 then f 1 (unat psize) pmem s
      else if bit_width = 16 then f 2 (unat (psize div 2)) pmem s
      else if bit_width = 32 then f 4 (unat (psize div 4)) pmem s
      else Some (True, s))"

function string_loop ::
    "(nat \<Rightarrow> nat \<Rightarrow> u32 \<Rightarrow> platform \<Rightarrow> (bool \<times> platform) option) \<Rightarrow> word_t \<Rightarrow> word_t \<Rightarrow> word_t \<Rightarrow> word_t \<Rightarrow>
     bool \<Rightarrow> platform \<Rightarrow> (bool \<times> platform) option" where
  "string_loop f bit_width buf bytes n ret s =
     (if n < bytes then
        (let (pmem, psize) = backend_resolve_kaddr (buf + n) (bytes - n) in do {
           (ret, s) \<leftarrow> string_piece f bit_width psize pmem s;
           if \<not> ret then Some (ret, s)
           else string_loop f bit_width buf bytes (n + psize) ret s })
      else Some (ret, s))"
  by pat_completeness auto
termination
  by (relation "measure (\<lambda>(f, bit_width, buf, bytes, n, ret, s). unat (bytes - n))")
    (auto simp: backend_resolve_kaddr_def word_less_nat_alt unat_sub_if_size word_size)

definition portio_string_read ::
    "(nat \<Rightarrow> port_env) \<Rightarrow> word_t \<Rightarrow> word_t \<Rightarrow> word_t \<Rightarrow> word_t \<Rightarrow> bool \<Rightarrow> platform \<Rightarrow> (bool \<times> platform) option" where
  "portio_string_read envs port buf count bit_width df s =
     (let size_in_byte = bit_width div 8; bytes = count * size_in_byte
      in string_loop (\<lambda>sz. do_portio_string_read envs sz (ucast port) 0) bit_width buf bytes 0 True s)"

definition portio_string_write ::
    "(nat \<Rightarrow> port_env) \<Rightarrow> word_t \<Rightarrow> word_t \<Rightarrow> word_t \<Rightarrow> word_t \<Rightarrow> bool \<Rightarrow> platform \<Rightarrow> (bool \<times> platform) option" where
  "portio_string_write envs port buf count bit_width df s =
     (let size_in_byte = bit_width div 8; bytes = count * size_in_byte
      in string_loop (\<lambda>sz. do_portio_string_write envs sz (ucast port) 0) bit_width buf bytes 0 True s)"

section \<open>The interrupt controllers survive every access\<close>

text \<open>
  A write to one controller only ever sets cluster bits of the CPU and does not touch the other
  controller, so that it keeps the invariant of the other one.
\<close>

definition pic_frame :: "'w pic_wedge_scheme \<Rightarrow> 'w pic_wedge_scheme \<Rightarrow> bool" where
  "pic_frame w w' \<longleftrightarrow> master w' = master w \<and> slave w' = slave w \<and>
     bits (get_irq_vectors w) \<subseteq> bits (get_irq_vectors w')"

lemma pic_frame_refl [simp]: "pic_frame w w"
  by (simp add: pic_frame_def)

lemma pic_frame_upd [simp]:
  "pic_frame w (hw_upd k f v) = pic_frame w v" "pic_frame w (log_event e v) = pic_frame w v"
  "pic_frame w (log_events es v) = pic_frame w v"
  by (simp_all add: pic_frame_def hw_upd_def log_event_def log_events_def get_irq_vectors_def get_cpu_def)

lemma pic_frame_flag [simp]: "pic_frame w (flag_upd (set_bit n) w)"
proof -
  have "master (flag_upd (set_bit n) w) = master w" "slave (flag_upd (set_bit n) w) = slave w"
    by (simp_all add: flag_upd_def upd_cpu_def)
  then show ?thesis by (auto simp: pic_frame_def intro: bit_set_bit_mono)
qed

lemma pic_frame_inv: "pic_frame w w' \<Longrightarrow> pic_inv b p w \<Longrightarrow> pic_inv b p w'"
  by (auto simp: pic_frame_def pic_inv_def pic_flagged_def)

lemma port_a_write_frame:
  assumes "i8259a_port_a_write v p w = Some (p', w')"
  shows "pic_frame w w'"
proof -
  consider (icw1) "ocw_is_icw1 v" | (eoi) "ocw_is_eoi v" "irq_in_service p \<noteq> 0"
    | (idle) "\<not> ocw_is_icw1 v" "ocw_is_eoi v \<longrightarrow> irq_in_service p = 0" by blast
  then show ?thesis
  proof cases
    case icw1
    from port_a_write_icw1 [OF this, of p w] assms show ?thesis by auto
  next
    case eoi
    from assms show ?thesis unfolding port_a_write_eoi(2) [OF eoi] by (auto split: if_splits)
  next
    case idle
    from assms show ?thesis unfolding port_a_write_idle [OF idle] by (auto split: if_splits)
  qed
qed

lemma port_b_write_frame:
  assumes "irq_base = 0 \<or> irq_base = 8"
  shows "\<exists>p' w'. i8259a_port_b_write v irq_base p w = Some (p', w') \<and> pic_frame w w'"
proof -
  have "set_irq_vector (ucast irq_base) w = Some (flag_upd (set_bit (unat irq_base div 8)) w)"
    using assms irq_vector_small(1) [of "ucast irq_base" w] by auto
  then show ?thesis
    by (cases "mode p") (simp_all add: i8259a_port_b_write_def Let_def while_enable while_unmask)
qed

lemma pic_write_a_total:
  assumes "pic_inv b p w"
  shows "\<exists>p' w'. i8259a_port_a_write v p w = Some (p', w') \<and> pic_inv b p' w' \<and> pic_frame w w'"
  using port_a_write_inv [of p b w v] port_a_write_frame [of v p w] assms unfolding pic_inv_def by blast

lemma pic_write_b_total:
  assumes "pic_inv (ucast irq_base) p w" "irq_base = 0 \<or> irq_base = 8"
  shows "\<exists>p' w'. i8259a_port_b_write v irq_base p w = Some (p', w') \<and> pic_inv (ucast irq_base) p' w' \<and>
    pic_frame w w'"
  using port_b_write_frame [OF assms(2), of v p w] pic_inv_write_b [OF assms(1,2)] by blast

lemma i8259a_portio_ok:
  assumes "pic_pair_inv w"
  shows "\<exists>v w'. i8259a_portio port val rd w = Some (v, w') \<and> pic_pair_inv w'"
proof -
  have m: "pic_inv 0 (master w) w" and s: "pic_inv 8 (slave w) w" using assms by (simp_all add: pic_pair_inv_def)
  obtain p1 w1 where 1: "i8259a_port_a_write (ucast val) (master w) w = Some (p1, w1)" "pic_inv 0 p1 w1" "pic_frame w w1"
    using pic_write_a_total [OF m] by blast
  obtain p2 w2 where 2: "i8259a_port_b_write (ucast val) 0 (master w) w = Some (p2, w2)" "pic_inv 0 p2 w2" "pic_frame w w2"
    using pic_write_b_total [of 0 "master w" w "ucast val"] m by auto
  obtain p3 w3 where 3: "i8259a_port_a_write (ucast val) (slave w) w = Some (p3, w3)" "pic_inv 8 p3 w3" "pic_frame w w3"
    using pic_write_a_total [OF s] by blast
  obtain p4 w4 where 4: "i8259a_port_b_write (ucast val) 8 (slave w) w = Some (p4, w4)" "pic_inv 8 p4 w4" "pic_frame w w4"
    using pic_write_b_total [of 8 "slave w" w "ucast val"] s by auto
  have frame: "slave w1 = slave w" "slave w2 = slave w" "master w3 = master w" "master w4 = master w"
    using 1(3) 2(3) 3(3) 4(3) by (simp_all add: pic_frame_def)
  have "pic_inv 8 (slave w) w1" "pic_inv 8 (slave w) w2" "pic_inv 0 (master w) w3" "pic_inv 0 (master w) w4"
    using m s 1(3) 2(3) 3(3) 4(3) by (auto intro: pic_frame_inv)
  moreover obtain r5 p5 where 5: "i8259a_port_a_read (master w) = (r5, p5)" "pic_inv 0 p5 w"
    using pic_inv_read_a [OF m] by (cases "i8259a_port_a_read (master w)") auto
  moreover obtain r6 p6 where 6: "i8259a_port_a_read (slave w) = (r6, p6)" "pic_inv 8 p6 w"
    using pic_inv_read_a [OF s] by (cases "i8259a_port_a_read (slave w)") auto
  ultimately show ?thesis
    using m s 1 2 3 4 frame
    by (simp add: i8259a_portio_def device_8259_0x20_in_def device_8259_0x21_in_def device_8259_0xa0_in_def
        device_8259_0xa1_in_def device_8259_0x20_out_def device_8259_0x21_out_def device_8259_0xa0_out_def
        device_8259_0xa1_out_def pic_pair_inv_def master_irq_offset_def slave_irq_offset_def)
qed

interpretation pics: port_device "\<lambda>_ :: unit. i8259a_portio" pic_pair_inv
  by unfold_locales (rule i8259a_portio_ok)

section \<open>The clock survives every access\<close>

lemma mc146818rtc_portio_ok:
  assumes "pic_pair_inv w"
  shows "\<exists>v c' w'. mc146818rtc_portio False env port val rd c w = Some (v, c', w') \<and> pic_pair_inv w'"
proof -
  obtain w' where "intlogic_raise_irq False mc146818_irq w = Some w'" "pic_pair_inv w'"
    using raise_irq_ok [OF assms, of mc146818_irq] by (auto simp: mc146818_irq_def)
  with assms show ?thesis
    by (auto simp: mc146818rtc_portio_def CMOS_registers_write_def CMOS_0b_write_def Let_def split: prod.splits)
qed

section \<open>The platform survives every access\<close>

definition platform_inv :: "platform \<Rightarrow> bool" where
  "platform_inv s \<longleftrightarrow> pic_pair_inv (pf_w s) \<and> pit_inv (pf_pit s) \<and> serial_inv (pf_ser s, pf_w s) \<and>
     kbc_inv (pf_kbc s, pf_w s)"

lemma platform_inv_pic: "platform_inv s \<Longrightarrow> pic_pair_inv (pf_w s)"
  by (simp add: platform_inv_def)

lemma platform_inv_upd:
  assumes "platform_inv s" "pic_pair_inv w"
  shows "platform_inv (s\<lparr>pf_w := w\<rparr>)" "platform_inv (s\<lparr>pf_cmos := c, pf_w := w\<rparr>)"
    "platform_inv (s\<lparr>pf_cmos := c\<rparr>)" "platform_inv (s\<lparr>pf_hw_out := hs\<rparr>)" "platform_inv (s\<lparr>pf_printed := bs\<rparr>)"
  using assms by (simp_all add: platform_inv_def serial_inv_def kbc_inv_def)

lemma passthru_inv: "platform_inv s \<Longrightarrow> platform_inv (snd (do_passthru_portio env port val bit_width rd s))"
  by (auto simp: do_passthru_portio_def platform_inv_def)

lemma do_portio_ok:
  assumes "platform_inv s"
  shows "\<exists>h v s'. do_portio env port val bit_width rd s = Some (h, v, s') \<and> platform_inv s'"
proof -
  define x where "x = (if rd then 0xffffffff else val)"
  have w: "pic_pair_inv (pf_w s)" using assms by (rule platform_inv_pic)
  note upd = platform_inv_upd [OF assms]
  obtain v1 w1 where 1: "i8259a_portio port x rd (pf_w s) = Some (v1, w1)" "pic_pair_inv w1"
    using i8259a_portio_ok [OF w] by blast
  obtain v2 p2 where 2: "i8254_portio (pe_clock env) bit_width port x rd (pf_pit s) = Some (v2, p2)" "pit_inv p2"
    using i8254_portio_ok assms unfolding platform_inv_def by blast
  have "kbd_inv (rtc (pf_cmos s), pf_kbc s, pf_w s)" using assms by (simp add: platform_inv_def kbd_inv_def)
  from i8042_portio_ok [OF this, of port x rd] obtain v3 r3 k3 w3 where
    3: "i8042_portio port x rd (rtc (pf_cmos s), pf_kbc s, pf_w s) = Some (v3, r3, k3, w3)" "kbc_inv (k3, w3)"
    by (auto simp: kbd_inv_def)
  obtain v4 c4 w4 where 4: "mc146818rtc_portio False (pe_cmos env) port x rd (pf_cmos s) (pf_w s) = Some (v4, c4, w4)"
    "pic_pair_inv w4"
    using mc146818rtc_portio_ok [OF w] by blast
  have "serial_inv (pf_ser s, pf_w s)" using assms by (simp add: platform_inv_def)
  from serial_portio_ok [OF this, of port x rd] obtain v5 d5 w5 where
    5: "serial8250_portio False port x rd (pf_ser s, pf_w s) = Some (v5, d5, w5)" "serial_inv (d5, w5)"
    by auto
  have inv: "platform_inv (s\<lparr>pf_w := w1\<rparr>)" "platform_inv (s\<lparr>pf_pit := p2\<rparr>)"
    "platform_inv (s\<lparr>pf_cmos := (pf_cmos s)\<lparr>rtc := r3\<rparr>, pf_kbc := k3, pf_w := w3\<rparr>)"
    "platform_inv (s\<lparr>pf_cmos := c4, pf_w := w4\<rparr>)" "platform_inv (s\<lparr>pf_ser := d5, pf_w := w5\<rparr>)"
    using assms 1(2) 2(2) 3(2) 4(2) 5(2) by (simp_all add: platform_inv_def serial_inv_def kbc_inv_def)
  have pt: "\<exists>h v s'. Some (True, do_passthru_portio env port x bit_width rd s) = Some (h, v, s') \<and> platform_inv s'"
    using passthru_inv [OF assms, of env port x bit_width rd]
    by (cases "do_passthru_portio env port x bit_width rd s") auto
  note facts = 1(1) 2(1) 3(1) 4(1) 5(1) assms inv upd(3-5) [OF w] pt
  show ?thesis
    unfolding do_portio_def x_def [symmetric] Let_def
    by (cases "classify_port port"; simp only: port_class.case; use facts in \<open>auto simp: split_beta\<close>)
qed

lemma mem_inv: "platform_inv s \<Longrightarrow> platform_inv (s\<lparr>pf_w := upd_mem f (pf_w s)\<rparr>)"
  by (rule platform_inv_upd) (auto simp: pic_pair_inv_def pic_inv_def pic_flagged_def upd_mem_def get_irq_vectors_def
      get_cpu_def dest!: platform_inv_pic)

section \<open>Everything that happens to the platform\<close>

text \<open>
  The steps of the platform: an access by the guest, a string instruction, and what the wedge does between
  the guest's instructions: it takes a byte from the console, runs the timer and polls for an interrupt.
\<close>

datatype platform_op =
    Access port_env u16 u32 u32 bool
  | StringIn "nat \<Rightarrow> port_env" word_t word_t word_t word_t bool
  | StringOut "nat \<Rightarrow> port_env" word_t word_t word_t word_t bool
  | ConsoleInput u8
  | ConsoleTick
  | TimerTick u64
  | PollInterrupt

fun platform_step :: "platform_op \<Rightarrow> platform \<Rightarrow> platform option" where
  "platform_step (Access env port val bit_width rd) s =
     do { (_, _, s) \<leftarrow> do_portio env port val bit_width rd s; Some s }"
| "platform_step (StringIn envs port buf count bit_width df) s =
     do { (_, s) \<leftarrow> portio_string_read envs port buf count bit_width df s; Some s }"
| "platform_step (StringOut envs port buf count bit_width df) s =
     do { (_, s) \<leftarrow> portio_string_write envs port buf count bit_width df s; Some s }"
| "platform_step (ConsoleInput b) s = Some (s\<lparr>pf_ser := add_console_rx b (pf_ser s)\<rparr>)"
| "platform_step ConsoleTick s = do {
     (d, w) \<leftarrow> resourcemon_check_console_rx False (pf_ser s) (pf_w s);
     Some (s\<lparr>pf_ser := d, pf_w := w\<rparr>) }"
| "platform_step (TimerTick now) s = do {
     (p, w) \<leftarrow> pit_handle_timer_interrupt False now (pf_pit s) (pf_w s);
     Some (s\<lparr>pf_pit := p, pf_w := w\<rparr>) }"
| "platform_step PollInterrupt s = do {
     (_, w) \<leftarrow> intlogic_pending_vector False (pf_w s);
     Some (s\<lparr>pf_w := w\<rparr>) }"

definition platform_run :: "platform_op list \<Rightarrow> platform \<Rightarrow> platform option" where
  "platform_run ops s = fold (\<lambda>op so. so \<bind> platform_step op) ops (Some s)"

definition platform_init :: "u64 \<Rightarrow> PITState \<Rightarrow> apic_wedge \<Rightarrow> platform" where
  "platform_init now p w =
     \<lparr>pf_cmos = CMOS_init, pf_pit = pit_init now p, pf_ser = serial_ports_init, pf_kbc = kbc_init, pf_w = w,
      pf_hw_out = [], pf_printed = []\<rparr>"

lemma platform_inv_init: "pic_pair_inv w \<Longrightarrow> platform_inv (platform_init now p w)"
  by (simp add: platform_inv_def platform_init_def pit_inv_init serial_inv_init kbc_inv_init)

lemma string_read_ok:
  "platform_inv s \<Longrightarrow> \<exists>r s'. do_portio_string_read envs sz port i n buf s = Some (r, s') \<and> platform_inv s'"
proof (induction n arbitrary: i buf s)
  case (Suc n)
  obtain h v s1 where 1: "do_portio (envs i) port 0 (of_nat (sz * 8)) True s = Some (h, v, s1)" "platform_inv s1"
    using do_portio_ok [OF Suc.prems] by blast
  show ?case
  proof (cases h)
    case True
    then show ?thesis
      using 1(1) Suc.IH [OF mem_inv [OF 1(2), of "store_elem sz buf v"], of "i + 1" "buf + of_nat sz"] by simp
  qed (use 1 in auto)
qed auto

lemma string_write_ok:
  "platform_inv s \<Longrightarrow> \<exists>r s'. do_portio_string_write envs sz port i n buf s = Some (r, s') \<and> platform_inv s'"
proof (induction n arbitrary: i buf s)
  case (Suc n)
  obtain h v s1 where
    1: "do_portio (envs i) port (load_elem sz buf (mem (pf_w s))) (of_nat (sz * 8)) False s = Some (h, v, s1)"
      "platform_inv s1"
    using do_portio_ok [OF Suc.prems] by blast
  show ?case
  proof (cases h)
    case True
    then show ?thesis using 1(1) Suc.IH [OF 1(2), of "i + 1" "buf + of_nat sz"] by simp
  qed (use 1 in auto)
qed auto

declare string_loop.simps [simp del]

lemma string_loop_once:
  "string_loop f bit_width buf bytes 0 True s =
     (if bytes = 0 then Some (True, s) else string_piece f bit_width bytes buf s)"
  by (cases "string_piece f bit_width bytes buf s"; cases "bytes = 0")
    (auto simp: string_loop.simps [of _ _ _ _ 0] string_loop.simps [of _ _ _ bytes bytes] backend_resolve_kaddr_def
      word_neq_0_conv split: prod.splits)

lemma string_loop_ok:
  assumes "\<And>sz n buf s. platform_inv s \<Longrightarrow> \<exists>r s'. f sz n buf s = Some (r, s') \<and> platform_inv s'" "platform_inv s"
  shows "\<exists>r s'. string_loop f bit_width buf bytes 0 True s = Some (r, s') \<and> platform_inv s'"
  using assms(1) [OF assms(2)] assms(2) by (auto simp: string_loop_once string_piece_def)

lemma platform_step_ok:
  assumes "platform_inv s"
  shows "\<exists>s'. platform_step op s = Some s' \<and> platform_inv s'"
proof (cases op)
  case (Access env port val bit_width rd)
  then show ?thesis using do_portio_ok [OF assms, of env port val bit_width rd] by auto
next
  case (StringIn envs port buf count bit_width df)
  then show ?thesis
    using string_loop_ok [of "\<lambda>sz. do_portio_string_read envs sz (ucast port) 0", OF string_read_ok assms,
        of bit_width buf "count * (bit_width div 8)"]
    by (auto simp: portio_string_read_def Let_def)
next
  case (StringOut envs port buf count bit_width df)
  then show ?thesis
    using string_loop_ok [of "\<lambda>sz. do_portio_string_write envs sz (ucast port) 0", OF string_write_ok assms,
        of bit_width buf "count * (bit_width div 8)"]
    by (auto simp: portio_string_write_def Let_def)
next
  case (ConsoleInput b)
  then show ?thesis using assms by (auto simp: platform_inv_def serial_inv_def)
next
  case ConsoleTick
  have "serial_inv (pf_ser s, pf_w s)" using assms by (simp add: platform_inv_def)
  from check_console_ok [OF this] obtain d w where
    "resourcemon_check_console_rx False (pf_ser s) (pf_w s) = Some (d, w)" "serial_inv (d, w)" by auto
  then show ?thesis using ConsoleTick assms by (simp add: platform_inv_def serial_inv_def kbc_inv_def)
next
  case (TimerTick now)
  obtain w where "intlogic_raise_irq False 0 (pf_w s) = Some w" "pic_pair_inv w"
    using raise_irq_ok [OF platform_inv_pic [OF assms], of 0] by auto
  then show ?thesis using TimerTick assms
    by (auto simp: platform_inv_def serial_inv_def kbc_inv_def pit_inv_def pit_handle_timer_interrupt_def Let_def)
next
  case PollInterrupt
  obtain r w where "intlogic_pending_vector False (pf_w s) = Some (r, w)" "pic_pair_inv w"
    using intlogic_poll [OF platform_inv_pic [OF assms]] by blast
  then show ?thesis using PollInterrupt platform_inv_upd(1) [OF assms] by simp
qed

lemma platform_run_ok:
  assumes "platform_inv s"
  shows "\<exists>s'. platform_run ops s = Some s' \<and> platform_inv s'"
proof (induction ops rule: rev_induct)
  case (snoc op ops)
  then show ?case using platform_step_ok [of _ op] by (auto simp: platform_run_def)
qed (use assms in \<open>simp add: platform_run_def\<close>)

section \<open>Properties\<close>

lemma spec_take_None: "spec_take A = (None, B) \<longleftrightarrow> A = {} \<and> B = A"
  by (auto simp: spec_take_def)



text \<open>The ports that the wedge leaves to the hardware.\<close>

definition passthru_port :: "u16 \<Rightarrow> bool" where
  "passthru_port port \<longleftrightarrow> classify_port port \<in> {Port_isapnp, Port_vga, Port_default}"

definition elem_size :: "nat \<Rightarrow> bool" where
  "elem_size sz \<longleftrightarrow> sz = 1 \<or> sz = 2 \<or> sz = 4"

lemma passthru_do_portio:
  assumes "passthru_port port" "elem_size sz"
  shows "do_portio env port x (of_nat (sz * 8)) True s = Some (True, pe_hw_in env port (of_nat (sz * 8)), s)"
    and "do_portio env port x (of_nat (sz * 8)) False s =
      Some (True, x, s\<lparr>pf_hw_out := pf_hw_out s @ [(port, of_nat (sz * 8), take_bit (sz * 8) x)]\<rparr>)"
  using assms by (auto simp: passthru_port_def elem_size_def do_portio_def do_passthru_portio_def)

lemma offset_cases:
  assumes "unat (b - a) < 4"
  obtains "b = a" | "b = a + 1" | "b = a + 2" | "b = a + (3 :: u32)"
proof -
  have "unat (b - a) \<in> {0, 1, 2, 3}" using assms by auto
  then have "b - a \<in> {0, 1, 2, 3}" by (auto simp: word_unat_eq_iff)
  then show thesis using that by (auto simp: diff_eq_eq add.commute)
qed

text \<open>A stored element, byte by byte.\<close>

lemma store_elem_byte:
  assumes "elem_size sz"
  shows "store_elem sz a v m b =
     (if unat (b - a) < sz then ucast (drop_bit (8 * unat (b - a)) v) else m b)"
proof (cases "unat (b - a) < 4")
  case True
  have u: "unat (1 :: u32) = 1" "unat (2 :: u32) = 2" "unat (3 :: u32) = 3" by simp_all
  have d: "a + 1 - a = 1" "a + 2 - a = 2" "a + 3 - a = 3" by simp_all
  from True show ?thesis
    by (cases rule: offset_cases; cases "sz = 1"; cases "sz = 2")
      (use assms in \<open>simp_all add: d u elem_size_def store_elem_def store32_def\<close>)
next
  case False
  then have "b \<noteq> a" "b \<noteq> a + 1" "b \<noteq> a + 2" "b \<noteq> a + 3" by auto
  with False assms show ?thesis by (auto simp: elem_size_def store_elem_def store32_def)
qed

text \<open>What a string instruction leaves in a buffer that is filled from the answers of the hardware.\<close>

definition filled :: "nat \<Rightarrow> (nat \<Rightarrow> u32) \<Rightarrow> nat \<Rightarrow> u32 \<Rightarrow> memory \<Rightarrow> memory" where
  "filled sz vals n buf m =
     (\<lambda>a. let k = unat (a - buf) in
        if k < n * sz then ucast (drop_bit (8 * (k mod sz)) (vals (k div sz))) else m a)"

lemma filled_Suc:
  assumes "elem_size sz" "Suc n * sz \<le> 2 ^ 32"
  shows "filled sz (\<lambda>i. vals (Suc i)) n (buf + of_nat sz) (store_elem sz buf (vals 0) m) = filled sz vals (Suc n) buf m"
proof
  fix a
  define k where "k = unat (a - buf)"
  have sz: "0 < sz" "unat (of_nat sz :: u32) = sz" using assms(1) by (auto simp: elem_size_def)
  have e: "a - (buf + of_nat sz) = (a - buf) - of_nat sz" by simp
  have st: "store_elem sz buf (vals 0) m a = (if k < sz then ucast (drop_bit (8 * k) (vals 0)) else m a)"
    by (simp only: store_elem_byte [OF assms(1)] k_def)
  show "filled sz (\<lambda>i. vals (Suc i)) n (buf + of_nat sz) (store_elem sz buf (vals 0) m) a = filled sz vals (Suc n) buf m a"
  proof (cases "k < sz")
    case True
    then have "unat (a - (buf + of_nat sz)) = k + 2 ^ 32 - sz"
      unfolding e by (simp add: unat_sub_if_size word_size sz k_def)
    moreover have "n * sz \<le> k + 2 ^ 32 - sz" using assms(2) by simp
    ultimately show ?thesis using True sz(1)
      by (simp add: filled_def k_def [symmetric] st Let_def)
  next
    case False
    then have u: "unat (a - (buf + of_nat sz)) = k - sz"
      unfolding e by (simp add: unat_sub_if_size word_size sz k_def)
    have "(k - sz) mod sz = k mod sz" "k div sz = Suc ((k - sz) div sz)" using False sz(1)
      by (simp_all add: le_mod_geq le_div_geq)
    then show ?thesis using False
      by (simp add: filled_def k_def [symmetric] st u Let_def less_diff_conv2)
  qed
qed

lemma upd_mem_twice [simp]: "upd_mem f (upd_mem g w) = upd_mem (\<lambda>m. f (g m)) w"
  by (simp add: upd_mem_def)

lemma string_read_fills:
  assumes "passthru_port port" "elem_size sz"
  shows "n * sz \<le> 2 ^ 32 \<Longrightarrow> do_portio_string_read envs sz port i n buf s =
     Some (True, s\<lparr>pf_w := upd_mem (filled sz (\<lambda>j. pe_hw_in (envs (i + j)) port (of_nat (sz * 8))) n buf) (pf_w s)\<rparr>)"
proof (induction n arbitrary: i buf s)
  case 0
  have "filled sz vals 0 buf = (\<lambda>m. m)" for vals by (simp add: filled_def fun_eq_iff)
  then show ?case by (simp add: upd_mem_def)
next
  case (Suc n)
  then have "n * sz \<le> 2 ^ 32" by simp
  note IH = Suc.IH [OF this]
  show ?case
    using filled_Suc [OF assms(2) Suc.prems, of "\<lambda>j. pe_hw_in (envs (i + j)) port (of_nat (sz * 8))" buf]
    by (simp add: passthru_do_portio(1) [OF assms] IH del: of_nat_mult)
qed

lemma string_write_sends:
  assumes "passthru_port port" "elem_size sz"
  shows "do_portio_string_write envs sz port i n buf s =
     Some (True, s\<lparr>pf_hw_out := pf_hw_out s @
       map (\<lambda>j. (port, of_nat (sz * 8), take_bit (sz * 8) (load_elem sz (buf + of_nat (j * sz)) (mem (pf_w s))))) [0..<n]\<rparr>)"
proof (induction n arbitrary: i buf s)
  case (Suc n)
  have "map f [0..<Suc n] = f 0 # map (\<lambda>j. f (Suc j)) [0..<n]" for f :: "nat \<Rightarrow> u16 \<times> u32 \<times> u32"
    by (simp add: map_upt_Suc del: upt_Suc)
  then show ?case
    by (simp add: passthru_do_portio(2) [OF assms] Suc.IH add.assoc del: of_nat_mult upt_Suc)
qed simp

lemma string_loop_elems:
  assumes "elem_size sz" "unat count * sz < 2 ^ 32"
  shows "string_loop f (of_nat (sz * 8)) buf (count * (of_nat (sz * 8) div 8)) 0 True s =
     (if count = 0 then Some (True, s) else f sz (unat count) buf s)"
proof -
  have sz: "of_nat (sz * 8) div 8 = (of_nat sz :: word_t)" "unat (of_nat sz :: word_t) = sz" "sz \<noteq> 0"
    using assms(1) by (auto simp: elem_size_def)
  have bytes: "unat (count * of_nat sz) = unat count * sz"
    using assms(2) sz(2) by (simp add: unat_word_ariths)
  then have "count * of_nat sz = 0 \<longleftrightarrow> count = 0" using sz(3) by (simp add: unat_eq_0 [symmetric])
  moreover have "string_piece f (of_nat (sz * 8)) (count * of_nat sz) buf s = f sz (unat count) buf s"
    using assms(1) bytes by (auto simp: elem_size_def string_piece_def unat_div)
  ultimately show ?thesis unfolding sz(1) string_loop_once by simp
qed

text \<open>
  C30: String input and output. On a port that the wedge leaves to the hardware, a string input of
  1-, 2- or 4-byte elements fills exactly the buffer: byte \<open>k\<close> of it is byte \<open>k mod sz\<close> of the answer to the
  access \<open>k div sz\<close>, and no other byte of the memory changes. A string output sends the elements
  of the buffer in ascending order, and changes nothing else. Both make one access per
  element and succeed; the direction flag has no influence.
\<close>

theorem string_io_passthru:
  assumes "passthru_port (ucast port)" "elem_size sz" "unat count * sz < 2 ^ 32"
  shows "portio_string_read envs port buf count (of_nat (sz * 8)) df s =
      Some (True, s\<lparr>pf_w := upd_mem
        (filled sz (\<lambda>i. pe_hw_in (envs i) (ucast port) (of_nat (sz * 8))) (unat count) buf) (pf_w s)\<rparr>) \<and>
    portio_string_write envs port buf count (of_nat (sz * 8)) df s =
      Some (True, s\<lparr>pf_hw_out := pf_hw_out s @ map (\<lambda>i. (ucast port, of_nat (sz * 8),
        take_bit (sz * 8) (load_elem sz (buf + of_nat (i * sz)) (mem (pf_w s))))) [0..<unat count]\<rparr>)"
proof -
  have "filled sz vals 0 buf = (\<lambda>m. m)" for vals by (simp add: filled_def fun_eq_iff)
  then show ?thesis
    unfolding portio_string_read_def portio_string_write_def Let_def string_loop_elems [OF assms(2,3)]
    using string_read_fills [OF assms(1,2), of "unat count" envs 0 buf s]
      string_write_sends [OF assms(1,2), of envs 0 "unat count" buf s] assms(3)
    by (cases "count = 0") (simp_all add: upd_mem_def)
qed

theorem string_io_passthru_witness:
  "portio_string_write (\<lambda>_. \<lparr>pe_clock = 0, pe_cmos = clock_example 0, pe_hw_in = (\<lambda>_ _. 0)\<rparr>) 0x3c8 0x1000 2 16 True
     (platform_init 0 pit8254_zero (upd_mem (\<lambda>m. m(0x1000 := 1, 0x1001 := 2, 0x1002 := 3)) (boot_apic 1))) =
   Some (True, (platform_init 0 pit8254_zero (upd_mem (\<lambda>m. m(0x1000 := 1, 0x1001 := 2, 0x1002 := 3)) (boot_apic 1)))
     \<lparr>pf_hw_out := [(0x3c8, 16, 0x201), (0x3c8, 16, 3)]\<rparr>)"
proof -
  let ?w = "upd_mem (\<lambda>m. m(0x1000 := 1, 0x1001 := 2, 0x1002 := 3)) (boot_apic 1)"
  have p: "passthru_port (ucast (0x3c8 :: word_t))" by (simp add: passthru_port_def classify_port_def)
  have e: "elem_size 2" by (simp add: elem_size_def)
  have m: "load_elem 2 0x1000 (mem ?w) = 0x201" "load_elem 2 0x1002 (mem ?w) = 3"
    by (simp_all add: load_elem_def load16_def upd_mem_def boot_apic_def)
  have "[0..<2] = [0, 1 :: nat]" by (simp add: upt_rec)
  with string_io_passthru [OF p e, of 2 "\<lambda>_. \<lparr>pe_clock = 0, pe_cmos = clock_example 0, pe_hw_in = (\<lambda>_ _. 0)\<rparr>" "0x1000" True
      "platform_init 0 pit8254_zero ?w"] m
  show ?thesis by (simp add: platform_init_def)
qed

end
