(* ===== verification/Cpu_Front.thy ===== *)
theory Cpu_Front
  imports Int_Routing
begin

text \<open>
  The emulation of the privileged instructions of the guest kernel (ia32/cpu.cc): descriptor tables,
  control, debug and segment registers, flags, \<^verbatim>\<open>int\<close>, \<^verbatim>\<open>iret\<close> and the redirection to interrupt handlers.
  The assembler stubs of the rewritten guest pass the address of a frame on the stack; the
  frames are words in the guest's memory at the offsets of the C structures. \<open>wedge_cs\<close> is the
  code segment selector of the wedge, which the handlers read with \<^verbatim>\<open>movl %cs, %eax\<close>. A call of the
  back-end is recorded in \<open>events\<close>.
\<close>

unbundle bit_operations_syntax

section \<open>Frames\<close>

text \<open>
  \<^verbatim>\<open>burn_clobbers_frame_t\<close>: the return address into the stub, the frame pointer, \<^verbatim>\<open>edx\<close>, \<^verbatim>\<open>ecx\<close>, \<^verbatim>\<open>eax\<close>,
  the guest's return address, and the parameters.
\<close>

definition cf_edx :: "u32 \<Rightarrow> u32" where "cf_edx f = f + 8"
definition cf_ecx :: "u32 \<Rightarrow> u32" where "cf_ecx f = f + 12"
definition cf_eax :: "u32 \<Rightarrow> u32" where "cf_eax f = f + 16"
definition cf_param :: "u32 \<Rightarrow> u32 \<Rightarrow> u32" where "cf_param f i = f + 24 + 4 * i"

definition get_word :: "u32 \<Rightarrow> 'w wedge_scheme \<Rightarrow> u32" where
  "get_word a w = load32 a (mem w)"

definition put_word :: "u32 \<Rightarrow> u32 \<Rightarrow> 'w wedge_scheme \<Rightarrow> 'w wedge_scheme" where
  "put_word a v w = upd_mem (store32 a v) w"

section \<open>Descriptor tables and gates\<close>

definition cpu_get_tss :: "u16 \<Rightarrow> 'w wedge_scheme \<Rightarrow> u32" where
  "cpu_get_tss segment w =
     (let idx = ucast (segment div 8)
      in segdesc_get_base (load64 (dtr_base (cpu_gdtr (get_cpu w)) + 8 * idx) (mem w)))"

definition load_dtr :: "u32 \<Rightarrow> memory \<Rightarrow> dtr_t" where
  "load_dtr a m = \<lparr>dtr_limit = load16 a m, dtr_base = load32 (a + 2) m\<rparr>"

definition afterburn_cpu_write_gdt32 :: "u32 \<Rightarrow> 'w wedge_scheme \<Rightarrow> 'w wedge_scheme" where
  "afterburn_cpu_write_gdt32 dtr w = upd_cpu (\<lambda>c. c\<lparr>cpu_gdtr := load_dtr dtr (mem w)\<rparr>) w"

definition afterburn_cpu_write_gdt32_ext :: "u32 \<Rightarrow> 'w wedge_scheme \<Rightarrow> 'w wedge_scheme" where
  "afterburn_cpu_write_gdt32_ext f w = afterburn_cpu_write_gdt32 (get_word (cf_eax f) w) w"

definition afterburn_cpu_write_idt32 :: "u32 \<Rightarrow> 'w wedge_scheme \<Rightarrow> 'w wedge_scheme" where
  "afterburn_cpu_write_idt32 dtr w = upd_cpu (\<lambda>c. c\<lparr>cpu_idtr := load_dtr dtr (mem w)\<rparr>) w"

definition afterburn_cpu_write_idt32_ext :: "u32 \<Rightarrow> 'w wedge_scheme \<Rightarrow> 'w wedge_scheme" where
  "afterburn_cpu_write_idt32_ext f w = afterburn_cpu_write_idt32 (get_word (cf_eax f) w) w"

text \<open>The gate of a vector, and the three assertions that every delivery makes about it.\<close>

definition idt_gate :: "word_t \<Rightarrow> 'w wedge_scheme \<Rightarrow> gate_t" where
  "idt_gate vector w = load64 (dtr_base (cpu_idtr (get_cpu w)) + 8 * vector) (mem w)"

definition checked_gate :: "word_t \<Rightarrow> 'w wedge_scheme \<Rightarrow> gate_t option" where
  "checked_gate vector w = (let gate = idt_gate vector w in do {
     ASSERT (gate_is_trap gate \<or> gate_is_interrupt gate);
     ASSERT (gate_is_present gate);
     ASSERT (gate_is_32bit gate);
     Some gate })"

section \<open>Control and debug registers\<close>

definition afterburn_cpu_write_cr0 :: "u32 \<Rightarrow> 'w wedge_scheme \<Rightarrow> 'w wedge_scheme" where
  "afterburn_cpu_write_cr0 data w =
     (let paging_enabled = cr0_paging_enabled (cpu_cr0 (get_cpu w));
          task_switched = cr0_task_switched (cpu_cr0 (get_cpu w));
          w = upd_cpu (\<lambda>c. c\<lparr>cpu_cr0 := data\<rparr>) w;
          w = (if \<not> paging_enabled \<and> cr0_paging_enabled (cpu_cr0 (get_cpu w)) then log_event EnablePaging w else w)
      in if \<not> task_switched \<and> cr0_task_switched (cpu_cr0 (get_cpu w)) then log_event ProtectFpu w else w)"

definition afterburn_cpu_write_cr2 :: "u32 \<Rightarrow> 'w wedge_scheme \<Rightarrow> 'w wedge_scheme" where
  "afterburn_cpu_write_cr2 data w = upd_cpu (\<lambda>c. c\<lparr>cpu_cr2 := data\<rparr>) w"

definition afterburn_cpu_write_cr3 :: "u32 \<Rightarrow> 'w wedge_scheme \<Rightarrow> 'w wedge_scheme option" where
  "afterburn_cpu_write_cr3 data w =
     (let old = cr3_get_pdir_addr (cpu_cr3 (get_cpu w));
          w = upd_cpu (\<lambda>c. c\<lparr>cpu_cr3 := data\<rparr>) w;
          new = cr3_get_pdir_addr (cpu_cr3 (get_cpu w));
          w = (if old \<noteq> 0 \<and> new \<noteq> 0 then log_event (FlushOldPdir new old) w else log_event (FlushUser old) w) in do {
        ASSERT (cr3_pwt (cpu_cr3 (get_cpu w)) = 0);
        ASSERT (cr3_pcd (cpu_cr3 (get_cpu w)) = 0);
        Some w })"

definition afterburn_cpu_write_cr4 :: "u32 \<Rightarrow> 'w wedge_scheme \<Rightarrow> 'w wedge_scheme" where
  "afterburn_cpu_write_cr4 data w =
     (let w = upd_cpu (\<lambda>c. c\<lparr>cpu_cr4 := data\<rparr>) w
      in if \<not> cr4_is_page_global_enabled (cpu_cr4 (get_cpu w)) then log_event InvalidateTlb w else w)"

definition afterburn_cpu_write_cr0_ext :: "u32 \<Rightarrow> 'w wedge_scheme \<Rightarrow> 'w wedge_scheme" where
  "afterburn_cpu_write_cr0_ext f w = afterburn_cpu_write_cr0 (get_word (cf_param f 0) w) w"

definition afterburn_cpu_write_cr2_ext :: "u32 \<Rightarrow> 'w wedge_scheme \<Rightarrow> 'w wedge_scheme" where
  "afterburn_cpu_write_cr2_ext f w = afterburn_cpu_write_cr2 (get_word (cf_param f 0) w) w"

definition afterburn_cpu_write_cr3_ext :: "u32 \<Rightarrow> 'w wedge_scheme \<Rightarrow> 'w wedge_scheme option" where
  "afterburn_cpu_write_cr3_ext f w = afterburn_cpu_write_cr3 (get_word (cf_param f 0) w) w"

definition afterburn_cpu_write_cr4_ext :: "u32 \<Rightarrow> 'w wedge_scheme \<Rightarrow> 'w wedge_scheme" where
  "afterburn_cpu_write_cr4_ext f w = afterburn_cpu_write_cr4 (get_word (cf_param f 0) w) w"

definition afterburn_cpu_read_cr :: "u32 \<Rightarrow> 'w wedge_scheme \<Rightarrow> u32 option" where
  "afterburn_cpu_read_cr which w = do {
     ASSERT (which \<noteq> 1 \<and> which \<le> 4);
     Some (if which = 0 then cpu_cr0 (get_cpu w)
           else if which = 2 then cpu_cr2 (get_cpu w)
           else if which = 3 then cpu_cr3 (get_cpu w)
           else if which = 4 then cpu_cr4 (get_cpu w) else 0) }"

definition afterburn_cpu_read_cr_ext :: "u32 \<Rightarrow> 'w wedge_scheme \<Rightarrow> 'w wedge_scheme option" where
  "afterburn_cpu_read_cr_ext f w = do {
     v \<leftarrow> afterburn_cpu_read_cr (get_word (cf_param f 0) w) w;
     Some (put_word (cf_param f 1) v w) }"

definition afterburn_cpu_clts :: "'w wedge_scheme \<Rightarrow> 'w wedge_scheme" where
  "afterburn_cpu_clts w = upd_cpu (\<lambda>c. c\<lparr>cpu_cr0 := putf 3 1 0 (cpu_cr0 c)\<rparr>) w"

text \<open>The debug registers are an array of eight words; an index beyond it has no defined result.\<close>

definition afterburn_cpu_read_dr :: "u32 \<Rightarrow> 'w wedge_scheme \<Rightarrow> u32 option" where
  "afterburn_cpu_read_dr which w =
     (if which < 8 then Some (cpu_dr (get_cpu w) ! unat which) else None)"

definition afterburn_cpu_read_dr_ext :: "u32 \<Rightarrow> 'w wedge_scheme \<Rightarrow> 'w wedge_scheme option" where
  "afterburn_cpu_read_dr_ext f w = do {
     v \<leftarrow> afterburn_cpu_read_dr (get_word (cf_param f 0) w) w;
     Some (put_word (cf_param f 1) v w) }"

definition afterburn_cpu_write_dr :: "u32 \<Rightarrow> u32 \<Rightarrow> 'w wedge_scheme \<Rightarrow> 'w wedge_scheme option" where
  "afterburn_cpu_write_dr which val w =
     (if which < 8 then Some (upd_cpu (\<lambda>c. c\<lparr>cpu_dr := (cpu_dr c)[unat which := val]\<rparr>) w) else None)"

definition afterburn_cpu_write_dr_ext :: "u32 \<Rightarrow> 'w wedge_scheme \<Rightarrow> 'w wedge_scheme option" where
  "afterburn_cpu_write_dr_ext f w = afterburn_cpu_write_dr (get_word (cf_param f 0) w) (get_word (cf_param f 1) w) w"

section \<open>Segment registers\<close>

text \<open>
  The source has the same four functions for each of the six segment registers; the register is a
  parameter here. The debugger entry in the write of \<^verbatim>\<open>fs\<close> has no effect on the state.
\<close>

datatype segreg = Seg_cs | Seg_ds | Seg_es | Seg_fs | Seg_gs | Seg_ss

fun afterburn_cpu_read_seg :: "segreg \<Rightarrow> 'w wedge_scheme \<Rightarrow> u16" where
  "afterburn_cpu_read_seg Seg_cs w = ucast (cpu_cs (get_cpu w))"
| "afterburn_cpu_read_seg Seg_ds w = ucast (cpu_ds (get_cpu w))"
| "afterburn_cpu_read_seg Seg_es w = ucast (cpu_es (get_cpu w))"
| "afterburn_cpu_read_seg Seg_fs w = ucast (cpu_fs (get_cpu w))"
| "afterburn_cpu_read_seg Seg_gs w = ucast (cpu_gs (get_cpu w))"
| "afterburn_cpu_read_seg Seg_ss w = ucast (cpu_ss (get_cpu w))"

fun afterburn_cpu_write_seg :: "segreg \<Rightarrow> u16 \<Rightarrow> 'w wedge_scheme \<Rightarrow> 'w wedge_scheme" where
  "afterburn_cpu_write_seg Seg_cs v w = upd_cpu (\<lambda>c. c\<lparr>cpu_cs := ucast v\<rparr>) w"
| "afterburn_cpu_write_seg Seg_ds v w = upd_cpu (\<lambda>c. c\<lparr>cpu_ds := ucast v\<rparr>) w"
| "afterburn_cpu_write_seg Seg_es v w = upd_cpu (\<lambda>c. c\<lparr>cpu_es := ucast v\<rparr>) w"
| "afterburn_cpu_write_seg Seg_fs v w = upd_cpu (\<lambda>c. c\<lparr>cpu_fs := ucast v\<rparr>) w"
| "afterburn_cpu_write_seg Seg_gs v w = upd_cpu (\<lambda>c. c\<lparr>cpu_gs := ucast v\<rparr>) w"
| "afterburn_cpu_write_seg Seg_ss v w = upd_cpu (\<lambda>c. c\<lparr>cpu_ss := ucast v\<rparr>) w"

definition afterburn_cpu_read_seg_ext :: "segreg \<Rightarrow> u32 \<Rightarrow> 'w wedge_scheme \<Rightarrow> 'w wedge_scheme" where
  "afterburn_cpu_read_seg_ext r f w = put_word (cf_param f 0) (ucast (afterburn_cpu_read_seg r w)) w"

definition afterburn_cpu_write_seg_ext :: "segreg \<Rightarrow> u32 \<Rightarrow> 'w wedge_scheme \<Rightarrow> 'w wedge_scheme" where
  "afterburn_cpu_write_seg_ext r f w = afterburn_cpu_write_seg r (ucast (get_word (cf_param f 0) w)) w"

definition afterburn_cpu_lss_ext :: "u32 \<Rightarrow> 'w wedge_scheme \<Rightarrow> 'w wedge_scheme" where
  "afterburn_cpu_lss_ext f w = (let data = get_word (cf_eax f) w in afterburn_cpu_write_seg Seg_ss (load16 (data + 6) (mem w)) w)"

definition afterburn_cpu_lldt :: "u16 \<Rightarrow> 'w wedge_scheme \<Rightarrow> 'w wedge_scheme" where
  "afterburn_cpu_lldt segment w = upd_cpu (\<lambda>c. c\<lparr>cpu_ldtr := segment\<rparr>) w"

definition afterburn_cpu_lldt_ext :: "u32 \<Rightarrow> 'w wedge_scheme \<Rightarrow> 'w wedge_scheme" where
  "afterburn_cpu_lldt_ext f w = afterburn_cpu_lldt (ucast (get_word (cf_eax f) w)) w"

definition afterburn_cpu_ltr :: "u32 \<Rightarrow> 'w wedge_scheme \<Rightarrow> 'w wedge_scheme option" where
  "afterburn_cpu_ltr src w =
     (let w = upd_cpu (\<lambda>c. c\<lparr>cpu_tss_seg := ucast src\<rparr>) w;
          tss_idx = ucast (cpu_tss_seg (get_cpu w) div 8) in do {
        ASSERT (tss_idx < dtr_get_total_desc (cpu_gdtr (get_cpu w)));
        let tss_desc = load64 (dtr_base (cpu_gdtr (get_cpu w)) + 8 * tss_idx) (mem w);
        Some (upd_cpu (\<lambda>c. c\<lparr>cpu_tss_base := segdesc_get_base tss_desc\<rparr>) w) })"

definition afterburn_cpu_ltr_ext :: "u32 \<Rightarrow> 'w wedge_scheme \<Rightarrow> 'w wedge_scheme option" where
  "afterburn_cpu_ltr_ext f w = afterburn_cpu_ltr (get_word (cf_eax f) w) w"

definition afterburn_cpu_str :: "'w wedge_scheme \<Rightarrow> u32" where
  "afterburn_cpu_str w = ucast (cpu_tss_seg (get_cpu w))"

definition afterburn_cpu_str_ext :: "u32 \<Rightarrow> 'w wedge_scheme \<Rightarrow> 'w wedge_scheme" where
  "afterburn_cpu_str_ext f w = put_word (cf_eax f) (afterburn_cpu_str w) w"

definition fs_base :: "'w wedge_scheme \<Rightarrow> u32" where
  "fs_base w =
     (let fsidx = cpu_fs (get_cpu w) div 8
      in segdesc_get_base (load64 (dtr_base (cpu_gdtr (get_cpu w)) + 8 * fsidx) (mem w)))"

definition afterburn_cpu_mov_tofsofs :: "u32 \<Rightarrow> u32 \<Rightarrow> 'w wedge_scheme \<Rightarrow> 'w wedge_scheme" where
  "afterburn_cpu_mov_tofsofs ofs val w = put_word (fs_base w + ofs) val w"

definition afterburn_cpu_mov_tofsofs_ext :: "u32 \<Rightarrow> 'w wedge_scheme \<Rightarrow> 'w wedge_scheme" where
  "afterburn_cpu_mov_tofsofs_ext f w =
     afterburn_cpu_mov_tofsofs (get_word (cf_param f 0) w) (get_word (cf_param f 1) w) w"

definition afterburn_cpu_mov_fromfsofs :: "u32 \<Rightarrow> 'w wedge_scheme \<Rightarrow> u32" where
  "afterburn_cpu_mov_fromfsofs ofs w = get_word (fs_base w + ofs) w"

definition afterburn_cpu_mov_fromfsofs_ext :: "u32 \<Rightarrow> 'w wedge_scheme \<Rightarrow> 'w wedge_scheme" where
  "afterburn_cpu_mov_fromfsofs_ext f w =
     put_word (cf_param f 0) (afterburn_cpu_mov_fromfsofs (get_word (cf_param f 0) w) w) w"

section \<open>Flags\<close>

definition afterburn_cpu_read_flags :: "u32 \<Rightarrow> 'w wedge_scheme \<Rightarrow> u32" where
  "afterburn_cpu_read_flags flags_to_push w =
     (cpu_flags (get_cpu w) AND NOT flags_user_mask) OR (flags_to_push AND flags_user_mask)"

definition afterburn_cpu_read_flags_ext :: "u32 \<Rightarrow> 'w wedge_scheme \<Rightarrow> 'w wedge_scheme" where
  "afterburn_cpu_read_flags_ext f w =
     put_word (cf_param f 0) (afterburn_cpu_read_flags (get_word (cf_param f 0) w) w) w"

definition afterburn_cpu_write_flags ::
    "bool \<Rightarrow> u32 \<Rightarrow> 'w apic_wedge_scheme \<Rightarrow> (u32 \<times> 'w apic_wedge_scheme) option" where
  "afterburn_cpu_write_flags apic flags_to_pop w =
     (let was_enabled = cpu_interrupts_enabled (get_cpu w);
          w = upd_cpu (\<lambda>c. c\<lparr>cpu_flags := flags_to_pop\<rparr>) w in do {
        w \<leftarrow> (if \<not> was_enabled \<and> cpu_interrupts_enabled (get_cpu w)
              then map_option snd (deliver_synchronous_irq apic w) else Some w);
        Some ((cpu_flags (get_cpu w) AND NOT flags_user_mask) OR flags_system_at_user, w) })"

definition afterburn_cpu_write_flags_ext ::
    "bool \<Rightarrow> u32 \<Rightarrow> 'w apic_wedge_scheme \<Rightarrow> 'w apic_wedge_scheme option" where
  "afterburn_cpu_write_flags_ext apic f w = do {
     (v, w) \<leftarrow> afterburn_cpu_write_flags apic (get_word (cf_param f 0) w) w;
     Some (put_word (cf_param f 0) v w) }"

definition afterburn_cpu_deliver_irq :: "bool \<Rightarrow> 'w apic_wedge_scheme \<Rightarrow> 'w apic_wedge_scheme option" where
  "afterburn_cpu_deliver_irq apic w = map_option snd (deliver_synchronous_irq apic w)"

definition afterburn_cpu_cli :: "'w wedge_scheme \<Rightarrow> 'w wedge_scheme" where
  "afterburn_cpu_cli w = upd_cpu (\<lambda>c. snd (cpu_disable_interrupts c)) w"

definition afterburn_cpu_sti ::
    "bool \<Rightarrow> 'w apic_wedge_scheme \<Rightarrow> (bool \<times> 'w apic_wedge_scheme) option" where
  "afterburn_cpu_sti apic w =
     (if \<not> flags_interrupts_enabled (cpu_flags (get_cpu w)) then
        deliver_synchronous_irq apic (upd_cpu (\<lambda>c. c\<lparr>cpu_flags := bit_set_atomic fi_bit (cpu_flags c)\<rparr>) w)
      else Some (False, w))"

text \<open>An instruction that the wedge does not implement stops the virtual machine.\<close>

definition afterburn_cpu_unimplemented :: "'w wedge_scheme \<Rightarrow> 'w wedge_scheme option" where
  "afterburn_cpu_unimplemented w = None"

definition afterburn_cpu_ud2_ext :: "u32 \<Rightarrow> 'w wedge_scheme \<Rightarrow> 'w wedge_scheme option" where
  "afterburn_cpu_ud2_ext f w = None"

section \<open>Redirection to an interrupt handler\<close>

text \<open>
  \<^verbatim>\<open>burn_redirect_frame_t\<close>: three clobbered registers, then a union. On entry the guest's return address is
  at offset 24. A redirection leaves the address of the handler at 12 and a frame for \<^verbatim>\<open>iret\<close> at 16;
  without a redirection the word at 12 is 0.
\<close>

definition do_redirect_vector :: "u32 \<Rightarrow> word_t \<Rightarrow> 'w wedge_scheme \<Rightarrow> 'w wedge_scheme option" where
  "do_redirect_vector f vector w = do {
     let caller = get_word (f + 24) w;
     ASSERT (vector < dtr_get_total_gates (cpu_idtr (get_cpu w)));
     gate \<leftarrow> checked_gate vector w;
     let w = put_word (f + 20) (cpu_cs (get_cpu w)) w;
     let w = put_word (f + 24) (cpu_flags (get_cpu w)) w;
     let w = put_word (f + 16) caller w;
     let w = put_word (f + 12) (gate_get_offset gate) w;
     Some (upd_cpu (\<lambda>c. c\<lparr>cpu_flags := flags_prepare_for_gate gate (cpu_flags c),
                          cpu_cs := gate_get_segment_selector gate\<rparr>) w) }"

definition do_redirect :: "bool \<Rightarrow> u32 \<Rightarrow> 'w apic_wedge_scheme \<Rightarrow> (bool \<times> 'w apic_wedge_scheme) option" where
  "do_redirect apic f w = do {
     (r, w) \<leftarrow> intlogic_pending_vector apic w;
     case r of
       None \<Rightarrow> Some (False, put_word (f + 12) 0 w)
     | Some (vector, irq) \<Rightarrow> do {
         w \<leftarrow> do_redirect_vector f vector w;
         ASSERT (get_word (f + 12) w \<noteq> 0);
         Some (True, w) } }"

definition is_redirect :: "u32 \<Rightarrow> 'w wedge_scheme \<Rightarrow> bool" where
  "is_redirect f w = (get_word (f + 12) w \<noteq> 0)"

definition afterburn_cpu_deliver_interrupt ::
    "bool \<Rightarrow> u32 \<Rightarrow> 'w apic_wedge_scheme \<Rightarrow> 'w apic_wedge_scheme option" where
  "afterburn_cpu_deliver_interrupt apic f w = do {
     ASSERT (cpu_interrupts_enabled (get_cpu w));
     map_option snd (do_redirect apic f w) }"

definition afterburn_cpu_interruptible_hlt :: "u32 \<Rightarrow> 'w wedge_scheme \<Rightarrow> 'w wedge_scheme" where
  "afterburn_cpu_interruptible_hlt f w = log_event (InterruptibleIdle f) (log_event (DeviceFlush True) w)"

section \<open>Returns and software interrupts\<close>

definition afterburn_cpu_lret :: "u32 \<Rightarrow> u32 \<Rightarrow> 'w wedge_scheme \<Rightarrow> 'w wedge_scheme" where
  "afterburn_cpu_lret wedge_cs lret w =
     put_word (lret + 4) wedge_cs (upd_cpu (\<lambda>c. c\<lparr>cpu_cs := get_word (lret + 4) w\<rparr>) w)"

text \<open>
  \<^verbatim>\<open>iret_handler_frame_t\<close> has 68 bytes: the registers, a frame for a redirection at 36 and the guest's
  frame for \<^verbatim>\<open>iret\<close> at 48, each \<^verbatim>\<open>ip\<close>, \<^verbatim>\<open>cs\<close>, \<^verbatim>\<open>flags\<close>. The copy to another stack runs downwards, word by word.
\<close>

definition copy_frame_word :: "u32 \<Rightarrow> u32 \<Rightarrow> nat \<Rightarrow> memory \<Rightarrow> memory" where
  "copy_frame_word esp0 stk_end k m = store32 (esp0 - 4 - 4 * of_nat k) (load32 (stk_end - 4 - 4 * of_nat k) m) m"

definition copy_frame :: "u32 \<Rightarrow> u32 \<Rightarrow> memory \<Rightarrow> memory" where
  "copy_frame esp0 stk_end m = fold (copy_frame_word esp0 stk_end) [0..<17] m"

definition iret_redirect :: "u32 \<Rightarrow> word_t \<Rightarrow> u32 \<Rightarrow> 'w wedge_scheme \<Rightarrow> (u32 \<times> 'w wedge_scheme) option" where
  "iret_redirect wedge_cs vector x w = do {
     let w = log_event (DeviceFlush False) w;
     ASSERT (vector < dtr_get_total_gates (cpu_idtr (get_cpu w)));
     gate \<leftarrow> checked_gate vector w;
     let w = upd_cpu (\<lambda>c. c\<lparr>cpu_flags := flags_prepare_for_gate gate (get_word (x + 56) w),
                           cpu_cs := gate_get_segment_selector gate\<rparr>) w;
     let w = put_word (x + 40) wedge_cs w;
     let w = put_word (x + 44) flags_system_at_user w;
     let w = put_word (x + 36) (gate_get_offset gate) w;
     if get_segment_privilege (ucast (get_word (x + 52) w)) = 3 then
       (let esp0 = get_word (cpu_tss_base (get_cpu w) + 4) w in
        if esp0 \<noteq> x + 68 then Some (esp0 - 68, upd_mem (copy_frame esp0 (x + 68)) w) else Some (x, w))
     else Some (x, w) }"

definition afterburn_cpu_iret ::
    "bool \<Rightarrow> u32 \<Rightarrow> u32 \<Rightarrow> 'w apic_wedge_scheme \<Rightarrow> (u32 \<times> 'w apic_wedge_scheme) option" where
  "afterburn_cpu_iret apic wedge_cs x w = do {
     ASSERT (flags_nt (get_word (x + 56) w) = 0);
     (r, w) \<leftarrow> (if flags_interrupts_enabled (get_word (x + 56) w) then intlogic_pending_vector apic w
                else Some (None, w));
     case r of
       Some (vector, irq) \<Rightarrow> iret_redirect wedge_cs vector x w
     | None \<Rightarrow>
         (let w = put_word (x + 36) 0 w in
          if get_segment_privilege (ucast (get_word (x + 52) w)) = 3 then
            Some (x, log_event (ActivateUser x) (log_event (DeviceFlush True) w))
          else
            (let w = log_event (DeviceFlush False) w;
                 w = upd_cpu (\<lambda>c. c\<lparr>cpu_flags := get_word (x + 56) w\<rparr>) w;
                 w = put_word (x + 56) ((cpu_flags (get_cpu w) AND flags_user_mask) OR flags_system_at_user) w
             in Some (x, put_word (x + 52) wedge_cs w))) }"

definition afterburn_cpu_int ::
    "u32 \<Rightarrow> u32 \<Rightarrow> u32 \<Rightarrow> 'w wedge_scheme \<Rightarrow> 'w wedge_scheme option" where
  "afterburn_cpu_int wedge_cs save_frame int_frame w = do {
     let vector = get_word (save_frame + 8) w;
     let user_ip = get_word (save_frame + 4) w;
     let user_flags = get_word save_frame w;
     let w = put_word (save_frame + 8) user_flags w;
     let w = put_word save_frame (user_ip + 2) w;
     let w = put_word (int_frame + 4) wedge_cs w;
     let w = put_word (int_frame + 8) ((get_word (save_frame + 8) w AND flags_user_mask) OR flags_system_at_user) w;
     ASSERT (vector \<le> dtr_get_total_gates (cpu_idtr (get_cpu w)));
     gate \<leftarrow> checked_gate vector w;
     let old_flags = cpu_flags (get_cpu w);
     let old_cs = (ucast (cpu_cs (get_cpu w)) :: u16);
     let w = upd_cpu (\<lambda>c. c\<lparr>cpu_flags := flags_prepare_for_gate gate (cpu_flags c),
                           cpu_cs := gate_get_segment_selector gate\<rparr>) w;
     let w = put_word (save_frame + 4) (ucast old_cs) w;
     let w = put_word (save_frame + 8)
               ((old_flags AND NOT flags_user_mask) OR (get_word (save_frame + 8) w AND flags_user_mask)) w;
     Some (put_word int_frame (gate_get_offset gate) w) }"

section \<open>Caches, model-specific registers and processor identification\<close>

definition afterburn_cpu_invlpg :: "u32 \<Rightarrow> 'w wedge_scheme \<Rightarrow> 'w wedge_scheme" where
  "afterburn_cpu_invlpg addr w = log_event (FlushVaddr addr) w"

definition afterburn_cpu_invlpg_ext :: "u32 \<Rightarrow> 'w wedge_scheme \<Rightarrow> 'w wedge_scheme" where
  "afterburn_cpu_invlpg_ext f w = afterburn_cpu_invlpg (get_word (cf_eax f) w) w"

definition afterburn_cpu_invd :: "'w wedge_scheme \<Rightarrow> 'w wedge_scheme" where
  "afterburn_cpu_invd w = log_event (FlushUser (cr3_get_pdir_addr (cpu_cr3 (get_cpu w)))) w"

definition afterburn_cpu_wbinvd :: "'w wedge_scheme \<Rightarrow> 'w wedge_scheme" where
  "afterburn_cpu_wbinvd w = log_event (FlushUser (cr3_get_pdir_addr (cpu_cr3 (get_cpu w)))) w"

definition afterburn_cpu_read_msr_ext :: "u32 \<Rightarrow> 'w wedge_scheme \<Rightarrow> 'w wedge_scheme" where
  "afterburn_cpu_read_msr_ext f w = put_word (cf_eax f) 0 (put_word (cf_edx f) 0 w)"

definition afterburn_cpu_write_msr :: "u32 \<Rightarrow> u32 \<Rightarrow> u32 \<Rightarrow> 'w wedge_scheme \<Rightarrow> 'w wedge_scheme" where
  "afterburn_cpu_write_msr msr_addr lower upper w =
     (let within = (\<lambda>lo hi. lo \<le> msr_addr \<and> msr_addr \<le> hi) in
      if within 0x300 0x311 \<or> within 0x360 0x371 \<or> within 0x3a0 0x3af \<or> within 0x3b0 0x3be \<or>
        within 0x3c0 0x3cd \<or> within 0x3e0 0x3e1
      then log_event (WriteMsr msr_addr lower upper) w else w)"

definition afterburn_cpu_write_msr_ext :: "u32 \<Rightarrow> 'w wedge_scheme \<Rightarrow> 'w wedge_scheme" where
  "afterburn_cpu_write_msr_ext f w =
     afterburn_cpu_write_msr (get_word (cf_ecx f) w) (get_word (cf_eax f) w) (get_word (cf_edx f) w) w"

text \<open>
  The four registers of \<^verbatim>\<open>cpuid\<close>; \<open>hw\<close> is the instruction of the real processor. The largest
  inputs are asked for once and kept in two static variables.
\<close>

record cpuid_regs =
  r_eax :: u32
  r_ebx :: u32
  r_ecx :: u32
  r_edx :: u32

definition cpu_read_cpuid ::
    "(u32 \<Rightarrow> cpuid_regs) \<Rightarrow> u32 \<Rightarrow> u32 \<times> u32 \<Rightarrow> cpuid_regs \<times> u32 \<times> u32" where
  "cpu_read_cpuid hw func st =
     (let st = (if fst st = 0 then
                  (let max_basic = r_eax (hw 0); max_extended = r_eax (hw 0x80000000)
                   in (if max_basic = 0 then 3 else max_basic, max_extended))
                else st)
      in (hw func, st))"

definition word_text :: "u8 \<Rightarrow> u8 \<Rightarrow> u8 \<Rightarrow> u8 \<Rightarrow> u32" where
  "word_text a b c d = ucast a OR push_bit 8 (ucast b) OR push_bit 16 (ucast c) OR push_bit 24 (ucast d)"

definition without_features :: "nat list \<Rightarrow> u32 \<Rightarrow> u32" where
  "without_features bs v = fold unset_bit bs v"

definition backend_cpuid_override :: "bool \<Rightarrow> u32 \<Rightarrow> cpuid_regs \<Rightarrow> cpuid_regs" where
  "backend_cpuid_override apic func regs =
     (if func = 1 then
        (let regs = regs\<lparr>r_ebx := r_ebx regs AND 0xFF00FFFF\<rparr>;
             regs = regs\<lparr>r_ecx := without_features [3, 5, 7, 8, 10, 15, 4, 6, 18] (r_ecx regs)\<rparr>;
             regs = regs\<lparr>r_edx := without_features [16, 3, 17, 12, 6, 21, 28, 29, 22] (r_edx regs)\<rparr>
         in if apic then regs else regs\<lparr>r_edx := without_features [9] (r_edx regs)\<rparr>)
      else if func = 4 then regs\<lparr>r_eax := r_eax regs AND 0x00003FFF\<rparr>
      else if func = 0x80000001 then
        regs\<lparr>r_ecx := without_features [0] (r_ecx regs), r_edx := without_features [20, 29, 11] (r_edx regs)\<rparr>
      else if func = 0x80000002 then
        regs\<lparr>r_eax := word_text 0x4c 0x34 0x4b 0x61, r_ebx := word_text 0x3a 0x3a 0x50 0x69,
             r_ecx := word_text 0x73 0x74 0x61 0x63, r_edx := word_text 0x68 0x69 0x6f 0x20\<rparr>
      else if func = 0x80000003 then
        regs\<lparr>r_eax := word_text 0x28 0x68 0x74 0x74, r_ebx := word_text 0x70 0x3a 0x2f 0x2f,
             r_ecx := word_text 0x6c 0x34 0x6b 0x61, r_edx := word_text 0x2e 0x6f 0x72 0x67\<rparr>
      else if func = 0x80000004 then regs\<lparr>r_eax := word_text 0x29 0 0 0\<rparr>
      else regs)"

definition afterburn_cpu_read_cpuid ::
    "bool \<Rightarrow> (u32 \<Rightarrow> cpuid_regs) \<Rightarrow> u32 \<Rightarrow> u32 \<times> u32 \<Rightarrow> cpuid_regs \<times> u32 \<times> u32" where
  "afterburn_cpu_read_cpuid apic hw func st =
     (let (regs, st) = cpu_read_cpuid hw func st in (backend_cpuid_override apic func regs, st))"

section \<open>Words of the stack\<close>

lemma put_word_frame [simp]:
  "get_cpu (put_word a v w) = get_cpu w" "get_irq_vectors (put_word a v w) = get_irq_vectors w"
  "cur_vcpu (put_word a v w) = cur_vcpu w"
  by (simp_all add: put_word_def upd_mem_def get_irq_vectors_def get_cpu_def)

lemma get_word_frame [simp]:
  "get_word a (upd_cpu f w) = get_word a w" "get_word a (log_event e w) = get_word a w"
  by (simp_all add: get_word_def upd_cpu_def log_event_def)

lemma get_cpu_upd [simp]:
  "get_cpu (upd_cpu f w) = f (get_cpu w)" "get_cpu (log_event e w) = get_cpu w" "get_cpu (upd_mem h w) = get_cpu w"
  by (simp_all add: get_cpu_def upd_cpu_def log_event_def upd_mem_def)

lemma get_put_same [simp]: "get_word a (put_word a v w) = v"
  by (simp add: get_word_def put_word_def load32_store32_same upd_mem_def)

lemma get_put_other [simp]: "separate4 a b \<Longrightarrow> get_word b (put_word a v w) = get_word b w"
  by (simp add: get_word_def put_word_def load32_store32_other upd_mem_def)

text \<open>Two regions of the address space that do not overlap.\<close>

definition apart :: "u32 \<Rightarrow> nat \<Rightarrow> u32 \<Rightarrow> nat \<Rightarrow> bool" where
  "apart a n b m \<longleftrightarrow> n \<le> unat (b - a) \<and> m \<le> unat (a - b)"

lemma unat_of_nat_small: "n < 2 ^ 32 \<Longrightarrow> unat (of_nat n :: u32) = n"
  by (simp add: unat_of_nat)

lemma apart_separate4:
  assumes "apart a n b m" "i + 4 \<le> n" "j + 4 \<le> m"
  shows "separate4 (b + of_nat j) (a + of_nat i)"
proof -
  define d where "d = unat (b - a)"
  have d: "n \<le> d" "d < 2 ^ 32" using assms(1) unsigned_less [of "b - a", where 'a = nat]
    by (simp_all add: apart_def d_def)
  have "a - b = 0 - (b - a)" by simp
  then have "unat (a - b) = (if d = 0 then 0 else 2 ^ 32 - d)"
    by (simp only: unat_sub_if_size [of 0 "b - a"] d_def [symmetric]) (simp add: word_size)
  then have m: "m \<le> 2 ^ 32 - d" using assms(1,2) d by (auto simp: apart_def)
  have b: "b - a = of_nat d" by (simp add: d_def)
  have "a + of_nat i - (b + of_nat j) = of_nat (2 ^ 32 - d + i - j)" (is "_ = of_nat ?p")
    and "b + of_nat j - (a + of_nat i) = of_nat (d + j - i)" (is "_ = of_nat ?q")
  proof -
    have "of_nat (2 ^ 32 - d + i - j) = (of_nat (2 ^ 32) - of_nat d + of_nat i - of_nat j :: u32)"
      using d m assms(2,3) by (simp add: of_nat_diff)
    also have "\<dots> = of_nat i - of_nat j - (b - a)" by (simp add: b)
    finally show "a + of_nat i - (b + of_nat j) = of_nat (2 ^ 32 - d + i - j)" by simp
    have "of_nat (d + j - i) = (of_nat d + of_nat j - of_nat i :: u32)"
      using d assms(2) by (simp add: of_nat_diff)
    then show "b + of_nat j - (a + of_nat i) = of_nat (d + j - i)" by (simp add: b [symmetric])
  qed
  moreover have "?p < 2 ^ 32" "?q < 2 ^ 32" using d m assms(2,3) by linarith+
  note unat_of_nat_small [OF this(1)] unat_of_nat_small [OF this(2)]
  ultimately have "unat (a + of_nat i - (b + of_nat j)) = ?p" "unat (b + of_nat j - (a + of_nat i)) = ?q"
    by (simp_all only:)
  moreover have "4 \<le> ?p" "4 \<le> ?q" using d m assms(2,3) by linarith+
  ultimately show ?thesis unfolding separate4_def word_le_nat_alt by simp
qed

lemma apart_word:
  assumes "apart a n b m" "unat i + 4 \<le> n" "unat j + 4 \<le> m"
  shows "separate4 (b + j) (a + i)"
  using apart_separate4 [OF assms] by simp

lemma get_word_gate:
  "idt_gate vector w =
     (let a = dtr_base (cpu_idtr (get_cpu w)) + 8 * vector
      in ucast (get_word a w) OR push_bit 32 (ucast (get_word (a + 4) w)))"
  by (simp add: idt_gate_def load64_def get_word_def Let_def)

lemma checked_gate_cong:
  assumes "cpu_idtr (get_cpu w') = cpu_idtr (get_cpu w)"
    "get_word (dtr_base (cpu_idtr (get_cpu w)) + 8 * vector) w' = get_word (dtr_base (cpu_idtr (get_cpu w)) + 8 * vector) w"
    "get_word (dtr_base (cpu_idtr (get_cpu w)) + 8 * vector + 4) w' = get_word (dtr_base (cpu_idtr (get_cpu w)) + 8 * vector + 4) w"
  shows "checked_gate vector w' = checked_gate vector w"
  using assms by (simp add: checked_gate_def get_word_gate Let_def)

lemma checked_gate_put [simp]:
  assumes "separate4 a (dtr_base (cpu_idtr (get_cpu w)) + 8 * vector)"
    "separate4 a (dtr_base (cpu_idtr (get_cpu w)) + 8 * vector + 4)"
  shows "checked_gate vector (put_word a v w) = checked_gate vector w"
  using assms by (intro checked_gate_cong) simp_all

lemma checked_gate_upd_cpu [simp]:
  "cpu_idtr (f (get_cpu w)) = cpu_idtr (get_cpu w) \<Longrightarrow> checked_gate vector (upd_cpu f w) = checked_gate vector w"
  by (intro checked_gate_cong) simp_all

lemma separate4_offset [simp]:
  "separate4 a (a + j) \<longleftrightarrow> 4 \<le> j \<and> 4 \<le> - j" "separate4 (a + i) a \<longleftrightarrow> 4 \<le> i \<and> 4 \<le> - i"
  "separate4 (a + i) (a + j) \<longleftrightarrow> 4 \<le> j - i \<and> 4 \<le> i - j"
  by (auto simp: separate4_def)

section \<open>Leaving an interrupt handler\<close>

lemma no_vector_pending: "get_irq_vectors w = 0 \<Longrightarrow> intlogic_pending_vector apic w = Some (None, w)"
  by (simp add: intlogic_pending_vector_def)

lemma iret_to_kernel:
  assumes "flags_nt (get_word (x + 56) w) = 0"
    and "flags_interrupts_enabled (get_word (x + 56) w) \<longrightarrow> get_irq_vectors w = 0"
    and "get_segment_privilege (ucast (get_word (x + 52) w)) \<noteq> 3"
  shows "\<exists>w'. afterburn_cpu_iret apic wedge_cs x w = Some (x, w') \<and>
     get_cpu w' = (get_cpu w)\<lparr>cpu_flags := get_word (x + 56) w\<rparr> \<and>
     get_word (x + 36) w' = 0 \<and> get_word (x + 48) w' = get_word (x + 48) w \<and> get_word (x + 52) w' = wedge_cs \<and>
     get_word (x + 56) w' = (get_word (x + 56) w AND flags_user_mask) OR flags_system_at_user"
proof -
  have "(if flags_interrupts_enabled (get_word (x + 56) w) then intlogic_pending_vector apic w
                else Some (None, w)) = Some (None, w)"
    using assms(2) by (simp add: no_vector_pending)
  then show ?thesis
    using assms(1,3) by (simp add: afterburn_cpu_iret_def Let_def ASSERT_def)
qed

text \<open>The flags that a delivery saves: the system flags of the virtual CPU and the user flags of the processor.\<close>

definition merged_flags :: "flags_t \<Rightarrow> u32 \<Rightarrow> flags_t" where
  "merged_flags system user = (system AND NOT flags_user_mask) OR (user AND flags_user_mask)"

lemma merged_flags_user: "merged_flags a b AND flags_user_mask = b AND flags_user_mask"
  unfolding merged_flags_def by (rule bit_word_eqI) (auto simp: bit_simps)

lemma flags_nt_bit: "flags_nt f = of_bool (bit f 14)"
  unfolding flags_nt_def by (rule bit_word_eqI) (auto simp: bit_getf bit_simps)

lemma merged_flags_nt: "flags_nt (merged_flags a b) = flags_nt a"
  by (simp add: flags_nt_bit merged_flags_def flags_user_mask_def bit_or_iff bit_and_iff)

lemma ucast_u16_u32 [simp]: "ucast (ucast (v :: u16) :: u32) = v"
  by (rule bit_word_eqI) (simp add: bit_simps)

text \<open>
  The return of a handler whose frame at \<open>s\<close> is as the delivery left it; the handler's stub has pushed the
  redirection frame and the registers below it.
\<close>

lemma return_to_kernel:
  assumes "get_word s w = ip" "get_word (s + 4) w = cs" "get_word (s + 8) w = merged_flags system user"
    and "flags_nt system = 0" "get_segment_privilege (ucast cs) \<noteq> 3" "get_irq_vectors w = 0"
  shows "\<exists>w'. afterburn_cpu_iret apic wedge_cs (s - 48) w = Some (s - 48, w') \<and>
     get_cpu w' = (get_cpu w)\<lparr>cpu_flags := merged_flags system user\<rparr> \<and>
     get_word s w' = ip \<and> get_word (s + 4) w' = wedge_cs \<and>
     get_word (s + 8) w' = (user AND flags_user_mask) OR flags_system_at_user"
proof -
  have e: "s - 48 + 56 = s + 8" "s - 48 + 52 = s + 4" "s - 48 + 48 = s" by simp_all
  show ?thesis
    using iret_to_kernel [of "s - 48" w apic wedge_cs, unfolded e] assms
    by (auto simp: merged_flags_nt merged_flags_user)
qed

section \<open>Properties\<close>

text \<open>
  C12: A software interrupt is transparent. When the guest kernel executes \<^verbatim>\<open>int\<close> with a valid gate, the handler
  of the gate is entered with the flags of the gate's kind, and the saved frame is such that, whatever the
  handler does outside the frame, its \<^verbatim>\<open>iret\<close> resumes the guest behind the instruction, with the
  system flags of the virtual CPU and the user flags that it had before the \<^verbatim>\<open>int\<close>.
  The code segment register of the virtual CPU is not restored by \<^verbatim>\<open>iret\<close>.
\<close>

theorem int_iret_roundtrip:
  fixes w :: "'w apic_wedge_scheme"
  assumes "get_word (i + 20) w = vector" "vector < dtr_get_total_gates (cpu_idtr (get_cpu w))"
    and "checked_gate vector w = Some gate"
    and "apart (dtr_base (cpu_idtr (get_cpu w)) + 8 * vector) 8 i 24"
    and "flags_nt (cpu_flags (get_cpu w)) = 0" "get_segment_privilege (ucast (cpu_cs (get_cpu w))) \<noteq> 3"
  shows "\<exists>w1. afterburn_cpu_int wedge_cs (i + 12) i w = Some w1 \<and>
     get_word i w1 = gate_get_offset gate \<and> get_word (i + 4) w1 = wedge_cs \<and>
     get_irq_vectors w1 = get_irq_vectors w \<and> cpu_flags (get_cpu w1) = flags_prepare_for_gate gate (cpu_flags (get_cpu w)) \<and>
     (\<forall>w2 :: 'w apic_wedge_scheme. (\<forall>k \<in> {12, 16, 20}. get_word (i + k) w2 = get_word (i + k) w1) \<and> get_irq_vectors w2 = 0 \<longrightarrow>
       (\<exists>w'. afterburn_cpu_iret apic wedge_cs (i - 36) w2 = Some (i - 36, w') \<and>
         get_cpu w' = (get_cpu w2)\<lparr>cpu_flags :=
           merged_flags (cpu_flags (get_cpu w)) (get_word (i + 12) w)\<rparr> \<and>
         get_word (i + 12) w' = get_word (i + 16) w + 2 \<and> get_word (i + 16) w' = wedge_cs \<and>
         get_word (i + 20) w' = (get_word (i + 12) w AND flags_user_mask) OR flags_system_at_user))"
proof -
  have sep0: "separate4 (i + j) (dtr_base (cpu_idtr (get_cpu w)) + (8 * vector + k))"
    if "unat j \<le> 20" "unat k \<le> 4" for j k
    using apart_word [OF assms(4), of k j] that by (simp add: add.assoc)
  note sep = sep0 [of _ 0, simplified] sep0 [of _ 4, simplified] sep0 [of 0 0, simplified] sep0 [of 0 4, simplified]
  obtain w1 where w1: "afterburn_cpu_int wedge_cs (i + 12) i w = Some w1"
    "get_word i w1 = gate_get_offset gate" "get_word (i + 4) w1 = wedge_cs"
    "cpu_flags (get_cpu w1) = flags_prepare_for_gate gate (cpu_flags (get_cpu w))"
    "get_word (i + 12) w1 = get_word (i + 16) w + 2" "get_word (i + 16) w1 = ucast (ucast (cpu_cs (get_cpu w)) :: u16)"
    "get_word (i + 20) w1 = merged_flags (cpu_flags (get_cpu w)) (get_word (i + 12) w)"
    "get_irq_vectors w1 = get_irq_vectors w"
    using assms(1-3) by (simp add: afterburn_cpu_int_def get_irq_vectors_def ASSERT_def Let_def sep add.assoc less_imp_le merged_flags_def)
  have ret: "\<exists>w'. afterburn_cpu_iret apic wedge_cs (i - 36) w2 = Some (i - 36, w') \<and>
         get_cpu w' = (get_cpu w2)\<lparr>cpu_flags := merged_flags (cpu_flags (get_cpu w)) (get_word (i + 12) w)\<rparr> \<and>
         get_word (i + 12) w' = get_word (i + 16) w + 2 \<and> get_word (i + 16) w' = wedge_cs \<and>
         get_word (i + 20) w' = (get_word (i + 12) w AND flags_user_mask) OR flags_system_at_user"
    if "\<forall>k \<in> {12, 16, 20}. get_word (i + k) w2 = get_word (i + k) w1" "get_irq_vectors w2 = 0" for w2
    using return_to_kernel [of "i + 12" w2 "get_word (i + 16) w + 2" "ucast (ucast (cpu_cs (get_cpu w)) :: u16)"
        "cpu_flags (get_cpu w)" "get_word (i + 12) w" apic wedge_cs] assms(5,6) w1(5-7) that
    by (simp add: add.assoc)
  show ?thesis
    by (rule exI [of _ w1]) (intro conjI allI impI w1 ret; elim conjE; assumption)
qed

text \<open>A kernel with a trap gate for the vector 128 at \<open>0x401234\<close>, which executes \<^verbatim>\<open>int 128\<close> at \<open>0x100\<close>.\<close>

definition kernel_example :: apic_wedge where
  "kernel_example =
     put_word 0x5404 0x00408f00 (put_word 0x5400 0x00101234
       (upd_cpu (\<lambda>c. c\<lparr>cpu_cs := 0x10, cpu_flags := 0x202, cpu_idtr := \<lparr>dtr_limit = 0x7ff, dtr_base = 0x5000\<rparr>\<rparr>)
         (boot_apic 1)))"

definition int_example :: apic_wedge where
  "int_example = put_word 0x2014 128 (put_word 0x2010 0x100 (put_word 0x200c 0x46 kernel_example))"

lemma kernel_example_simps [simp]:
  "cpu_idtr (get_cpu kernel_example) = \<lparr>dtr_limit = 0x7ff, dtr_base = 0x5000\<rparr>"
  "cpu_cs (get_cpu kernel_example) = 0x10" "cpu_flags (get_cpu kernel_example) = 0x202"
  "get_word 0x5400 kernel_example = 0x00101234" "get_word 0x5404 kernel_example = 0x00408f00"
  by (simp_all add: kernel_example_def separate4_def)

lemma kernel_example_irq [simp]: "get_irq_vectors kernel_example = 0"
proof -
  have "get_irq_vectors (upd_cpu f (boot_apic 1)) = 0" if "cpu_irq_vectors (f frontend_init) = 0" for f
    using that by (simp add: get_irq_vectors_def) (simp add: boot_apic_def boot_vcpu_def get_cpu_def)
  then show ?thesis by (simp add: kernel_example_def frontend_init_def)
qed

lemma kernel_example_gate [simp]: "checked_gate 128 kernel_example = Some 0x00408f0000101234"
  by (simp add: checked_gate_def get_word_gate Let_def ASSERT_def gate_is_trap_def gate_is_interrupt_def gate_is_present_def
      gate_is_32bit_def getf_def)

theorem int_iret_roundtrip_witness:
  "\<exists>w1. afterburn_cpu_int 0x7b 0x200c 0x2000 int_example = Some w1 \<and>
     get_word 0x2000 w1 = 0x401234 \<and>
     (\<exists>w'. afterburn_cpu_iret False 0x7b 0x1fdc w1 = Some (0x1fdc, w') \<and> get_word 0x200c w' = 0x102)"
proof -
  let ?w = int_example
  have w: "get_cpu ?w = get_cpu kernel_example" "get_irq_vectors ?w = 0" by (simp_all add: int_example_def)
  have g: "checked_gate 128 ?w = Some 0x00408f0000101234"
    by (simp add: int_example_def separate4_def)
  have m: "get_word 0x2014 ?w = 128" "get_word 0x2010 ?w = 0x100" "get_word 0x200c ?w = 0x46"
    by (simp_all add: int_example_def separate4_def)
  have o: "gate_get_offset 0x00408f0000101234 = 0x401234" by (simp add: gate_get_offset_def getf_def)
  have a: "apart (dtr_base (cpu_idtr (get_cpu ?w)) + 8 * 128) 8 0x2000 24" by (simp add: w apart_def)
  have d: "128 < dtr_get_total_gates (cpu_idtr (get_cpu ?w))" by (simp add: w dtr_get_total_gates_def)
  have f: "flags_nt (cpu_flags (get_cpu ?w)) = 0" "get_segment_privilege (ucast (cpu_cs (get_cpu ?w))) \<noteq> 3"
    by (simp_all add: w flags_nt_bit get_segment_privilege_def)
  have v: "get_word (0x2000 + 20) ?w = 128" by (simp add: m)
  from int_iret_roundtrip [OF v d g a f, of "0x7b" False] show ?thesis
  proof (elim exE conjE, goal_cases)
    case (1 w1)
    have "(\<forall>k \<in> {12, 16, 20}. get_word (0x2000 + k) w1 = get_word (0x2000 + k) w1) \<and> get_irq_vectors w1 = 0"
      using 1(4) w by simp
    from 1(6) [THEN spec, THEN mp, OF this] obtain w' where
      "afterburn_cpu_iret False 0x7b (0x2000 - 36) w1 = Some (0x2000 - 36, w')"
      "get_word (0x2000 + 12) w' = get_word (0x2000 + 16) ?w + 2"
      by blast
    with 1(1,2) have "afterburn_cpu_int 0x7b 0x200c 0x2000 ?w = Some w1" "get_word 0x2000 w1 = 0x401234"
      "afterburn_cpu_iret False 0x7b 0x1fdc w1 = Some (0x1fdc, w')" "get_word 0x200c w' = 0x102"
      by (simp_all add: o m)
    then show ?case by blast
  qed
qed


text \<open>An interrupt of the timer waits in the master 8259A, with the vectors that start at 128.\<close>

definition timer_waiting :: "apic_wedge \<Rightarrow> apic_wedge" where
  "timer_waiting w = (upd_cpu (\<lambda>c. c\<lparr>cpu_irq_vectors := 1\<rparr>) w)
     \<lparr>master := i8259a_init\<lparr>irq_mask := 0, irq_request := 1, icw2 := 0x80\<rparr>\<rparr>"

lemma master_upd_frame [simp]:
  "get_word a (w\<lparr>master := p\<rparr>) = get_word a w" "get_cpu (w\<lparr>master := p\<rparr>) = get_cpu w"
  "checked_gate v (w\<lparr>master := p\<rparr>) = checked_gate v w"
  by (simp_all add: get_word_def get_cpu_def checked_gate_def idt_gate_def)

lemma timer_waiting_frame [simp]:
  "get_word a (timer_waiting w) = get_word a w" "get_cpu (timer_waiting w) = (get_cpu w)\<lparr>cpu_irq_vectors := 1\<rparr>"
  by (simp_all add: timer_waiting_def)

lemma timer_waiting_poll:
  assumes "get_irq_vectors w = 0"
  shows "\<exists>w0. intlogic_pending_vector False (timer_waiting w) = Some (Some (128, 0), w0) \<and>
      get_cpu w0 = get_cpu w \<and> (\<forall>a. get_word a w0 = get_word a w) \<and> (\<forall>v. checked_gate v w0 = checked_gate v w)"
proof -
  have "lsb (1 :: word_t) = 0" "shl1 0 = 1" "bt_offset 0 = 0" by code_simp+
  moreover have "c\<lparr>cpu_irq_vectors := 0\<rparr> = c" if "cpu_irq_vectors c = 0" for c :: cpu_t
    using that by (cases c) simp
  ultimately have "cpu_clear_irq_vector 0 ((get_cpu w)\<lparr>cpu_irq_vectors := 1\<rparr>) = Some (get_cpu w)"
    using assms by (simp add: cpu_clear_irq_vector_def get_irq_vectors_def unset_bit_0)
  with \<open>lsb 1 = 0\<close> \<open>shl1 0 = 1\<close> show ?thesis
    by (simp add: timer_waiting_def intlogic_pending_vector_def pic_pair_pending_vector_def i8259a_pending_vector_def
        get_irq_vectors_def clear_irq_vector_def i8259a_init_def icw2_get_idt_offset_def icw4_is_auto_eoi_def getf_def
        Let_def)
qed


section \<open>An interrupt on the way to user mode\<close>

lemma separate4_below:
  assumes "68 \<le> e - d" "k < n" "n < 17"
  shows "separate4 (d - 4 - 4 * of_nat k) (e - 4 - 4 * of_nat n)"
    and "separate4 (d - 4 - 4 * of_nat n) (d - 4 - 4 * of_nat k)"
proof -
  define c where "c = 4 * (n - k)"
  have c: "4 \<le> c" "c \<le> 64" using assms(2,3) by (simp_all add: c_def)
  have e: "4 * of_nat n - 4 * of_nat k = (of_nat c :: u32)" using assms(2) by (simp add: c_def of_nat_diff)
  have u: "unat (e - d) < 2 ^ 32" "68 \<le> unat (e - d)"
    using assms(1) unsigned_less [of "e - d", where 'a = nat] by (simp_all add: word_le_nat_alt)
  have n: "unat (of_nat c :: u32) = c" using c by (intro unat_of_nat_small) simp
  have s: "e - 4 - 4 * of_nat n - (d - 4 - 4 * of_nat k) = e - d - of_nat c"
    "d - 4 - 4 * of_nat k - (e - 4 - 4 * of_nat n) = of_nat c - (e - d)"
    "d - 4 - 4 * of_nat k - (d - 4 - 4 * of_nat n) = of_nat c"
    "d - 4 - 4 * of_nat n - (d - 4 - 4 * of_nat k) = 0 - of_nat c"
    unfolding e [symmetric] by (simp_all add: algebra_simps)
  have "unat (e - d - of_nat c) = unat (e - d) - c"
    using u c by (simp add: unat_sub_if_size n)
  moreover have "unat (of_nat c - (e - d)) = c + 2 ^ 32 - unat (e - d)"
    using u c by (simp add: unat_sub_if_size n word_size)
  moreover have "4 \<le> unat (e - d) - c" "4 \<le> c + 2 ^ 32 - unat (e - d)" using u c by linarith+
  ultimately show "separate4 (d - 4 - 4 * of_nat k) (e - 4 - 4 * of_nat n)"
    unfolding separate4_def s word_le_nat_alt by simp
  have "unat (0 - of_nat c :: u32) = 2 ^ 32 - c"
    using c unat_sub_if_size [of 0 "of_nat c :: u32"] by (simp add: n word_size)
  then show "separate4 (d - 4 - 4 * of_nat n) (d - 4 - 4 * of_nat k)"
    unfolding separate4_def s word_le_nat_alt using c n by simp
qed

lemma copy_frame_prefix:
  assumes "68 \<le> e - d" "n \<le> 17"
  shows "(\<forall>k < n. load32 (d - 4 - 4 * of_nat k) (fold (copy_frame_word d e) [0..<n] m) = load32 (e - 4 - 4 * of_nat k) m) \<and>
     (\<forall>k. n \<le> k \<and> k < 17 \<longrightarrow>
       load32 (e - 4 - 4 * of_nat k) (fold (copy_frame_word d e) [0..<n] m) = load32 (e - 4 - 4 * of_nat k) m)"
  using assms(2)
proof (induction n)
  case (Suc n)
  let ?m = "fold (copy_frame_word d e) [0..<n] m"
  from Suc have done_: "\<And>k. k < n \<Longrightarrow> load32 (d - 4 - 4 * of_nat k) ?m = load32 (e - 4 - 4 * of_nat k) m"
    and todo: "\<And>k. n \<le> k \<Longrightarrow> k < 17 \<Longrightarrow> load32 (e - 4 - 4 * of_nat k) ?m = load32 (e - 4 - 4 * of_nat k) m"
    by auto
  have step: "fold (copy_frame_word d e) [0..<Suc n] m =
      store32 (d - 4 - 4 * of_nat n) (load32 (e - 4 - 4 * of_nat n) ?m) ?m"
    by (simp add: copy_frame_word_def)
  have "load32 (d - 4 - 4 * of_nat k) (fold (copy_frame_word d e) [0..<Suc n] m) = load32 (e - 4 - 4 * of_nat k) m"
    if "k < Suc n" for k
    using that Suc.prems todo [of n] done_ [of k] separate4_below(2) [OF assms(1), of k n]
    unfolding step by (cases "k = n") (simp_all add: load32_store32_same load32_store32_other)
  moreover have "load32 (e - 4 - 4 * of_nat k) (fold (copy_frame_word d e) [0..<Suc n] m) = load32 (e - 4 - 4 * of_nat k) m"
    if "Suc n \<le> k" "k < 17" for k
    using that Suc.prems todo [of k] separate4_below(1) [OF assms(1), of n k]
    unfolding step by (simp add: load32_store32_other)
  ultimately show ?case by blast
qed simp

lemma copy_frame_correct:
  assumes "68 \<le> e - d" "j < 17"
  shows "load32 (d - 68 + 4 * of_nat j) (copy_frame d e m) = load32 (e - 68 + 4 * of_nat j) m"
proof -
  have "a - 4 - 4 * of_nat (16 - j) = a - 68 + 4 * of_nat j" for a :: u32
    using assms(2) by (simp add: of_nat_diff algebra_simps)
  then show ?thesis
    using copy_frame_prefix [OF assms(1), of 17 m] assms(2) spec [of "\<lambda>k. k < 17 \<longrightarrow> _ k" "16 - j"]
    unfolding copy_frame_def by (metis (no_types, lifting) diff_less_Suc eval_nat_numeral(3) le_refl less_Suc_eq_le)
qed

text \<open>
  C11: An interrupt that waits when the guest kernel returns to user mode is delivered as if it had interrupted
  the user program. The redirected \<^verbatim>\<open>iret\<close> continues with a frame at the top of the kernel stack of the task
  state segment, wherever the guest's own frame is, except where the two overlap with the new one below the old
  one: the registers and the frame of the user program are copied unchanged, and the
  frame below it enters the gate's handler with the flags of the wedge.
\<close>

theorem iret_redirect_to_user:
  assumes "flags_nt (get_word (x + 56) w) = 0" "flags_interrupts_enabled (get_word (x + 56) w)"
    and "intlogic_pending_vector apic w = Some (Some (vector, irq), w0)"
    and "vector < dtr_get_total_gates (cpu_idtr (get_cpu w0))" "checked_gate vector w0 = Some gate"
    and "get_segment_privilege (ucast (get_word (x + 52) w0)) = 3"
    and "esp0 = get_word (cpu_tss_base (get_cpu w0) + 4) w0" "esp0 = x + 68 \<or> 68 \<le> x + 68 - esp0"
    and "apart (cpu_tss_base (get_cpu w0) + 4) 4 (x + 36) 12"
  shows "\<exists>w'. afterburn_cpu_iret apic wedge_cs x w = Some (esp0 - 68, w') \<and>
     cpu_flags (get_cpu w') = flags_prepare_for_gate gate (get_word (x + 56) w0) \<and>
     cpu_cs (get_cpu w') = gate_get_segment_selector gate \<and>
     get_word (esp0 - 68 + 36) w' = gate_get_offset gate \<and> get_word (esp0 - 68 + 40) w' = wedge_cs \<and>
     get_word (esp0 - 68 + 44) w' = flags_system_at_user \<and>
     (\<forall>j \<in> {0..<9} \<union> {12..<17}. get_word (esp0 - 68 + 4 * of_nat j) w' = get_word (x + 4 * of_nat j) w0)"
proof -
  define w1 where "w1 = put_word (x + 36) (gate_get_offset gate) (put_word (x + 44) flags_system_at_user
    (put_word (x + 40) wedge_cs (upd_cpu (\<lambda>c. c\<lparr>cpu_flags := flags_prepare_for_gate gate (get_word (x + 56) w0),
       cpu_cs := gate_get_segment_selector gate\<rparr>) (log_event (DeviceFlush False) w0))))"
  define w2 where "w2 = (if esp0 \<noteq> x + 68 then upd_mem (copy_frame esp0 (x + 68)) w1 else w1)"
  have gate: "checked_gate vector (log_event (DeviceFlush False) w0) = Some gate"
    using assms(5) checked_gate_cong [of "log_event (DeviceFlush False) w0" w0 vector] by simp
  have "separate4 (x + 36) (cpu_tss_base (get_cpu w0) + 4)" "separate4 (x + 40) (cpu_tss_base (get_cpu w0) + 4)"
    "separate4 (x + 44) (cpu_tss_base (get_cpu w0) + 4)"
    using apart_word [OF assms(9), of 0 0] apart_word [OF assms(9), of 0 4] apart_word [OF assms(9), of 0 8]
    by (simp_all add: add.assoc)
  then have esp0: "get_word (cpu_tss_base (get_cpu w0) + 4) w1 = esp0"
    by (simp add: w1_def assms(7))
  have "afterburn_cpu_iret apic wedge_cs x w = Some (esp0 - 68, w2)"
    using assms(1-4,6) gate esp0
    by (simp add: afterburn_cpu_iret_def iret_redirect_def ASSERT_def Let_def w2_def flip: w1_def)
  moreover have copy: "get_word (esp0 - 68 + 4 * of_nat j) w2 = get_word (x + 4 * of_nat j) w1" if "j < 17" for j
    using copy_frame_correct [of "x + 68" esp0 j "mem w1"] assms(8) that
    by (auto simp: w2_def get_word_def upd_mem_def)
  from copy [of 9] copy [of 10] copy [of 11]
  have "get_word (esp0 - 68 + 36) w2 = gate_get_offset gate" "get_word (esp0 - 68 + 40) w2 = wedge_cs"
    "get_word (esp0 - 68 + 44) w2 = flags_system_at_user"
    by (simp_all add: w1_def)
  moreover have "{0..<9} \<union> {12..<17} = set [0, 1, 2, 3, 4, 5, 6, 7, 8, 12, 13, 14, 15, 16 :: nat]" by auto
  then have "\<forall>j \<in> {0..<9} \<union> {12..<17}. get_word (x + 4 * of_nat j) w1 = get_word (x + 4 * of_nat j) w0"
    by (simp add: w1_def)
  with copy have "\<forall>j \<in> {0..<9} \<union> {12..<17}. get_word (esp0 - 68 + 4 * of_nat j) w2 = get_word (x + 4 * of_nat j) w0"
    by auto
  moreover have "get_cpu w2 = get_cpu w1" by (simp add: w2_def)
  ultimately show ?thesis by (simp add: w1_def del: Ball_def)
qed

definition user_example :: apic_wedge where
  "user_example = put_word 4 0x7000 (put_word 0x6038 0x202 (put_word 0x6034 0x73 (put_word 0x6030 0x8048000 kernel_example)))"

theorem iret_redirect_to_user_witness:
  "\<exists>w'. afterburn_cpu_iret False 0x7b 0x6000 (timer_waiting user_example) = Some (0x6fbc, w') \<and>
     get_word 0x6fe0 w' = 0x401234 \<and> get_word 0x6fec w' = 0x8048000"
proof -
  let ?w = "timer_waiting user_example"
  have m: "get_word 4 user_example = 0x7000" "get_word 0x6038 user_example = 0x202"
    "get_word 0x6034 user_example = 0x73" "get_word 0x6030 user_example = 0x8048000"
    by (simp_all add: user_example_def separate4_def)
  have c: "get_cpu user_example = get_cpu kernel_example" "get_irq_vectors user_example = 0"
    by (simp_all add: user_example_def)
  have t: "cpu_tss_base (get_cpu kernel_example) = 0"
    by (simp add: kernel_example_def boot_apic_def boot_vcpu_def get_cpu_def upd_cpu_def frontend_init_def put_word_def upd_mem_def)
  obtain w0 where p: "intlogic_pending_vector False ?w = Some (Some (128, 0), w0)"
    and w0: "get_cpu w0 = get_cpu user_example" "\<And>a. get_word a w0 = get_word a user_example"
      "\<And>v. checked_gate v w0 = checked_gate v user_example"
    using timer_waiting_poll [OF c(2)] by blast
  have g: "checked_gate 128 w0 = Some 0x00408f0000101234"
    by (simp add: w0 user_example_def separate4_def)
  note w0 = w0(1) [unfolded c] w0(2)
  have o: "gate_get_offset 0x00408f0000101234 = 0x401234" by (simp add: gate_get_offset_def getf_def)
  have f: "flags_nt (get_word (0x6000 + 56) ?w) = 0" "flags_interrupts_enabled (get_word (0x6000 + 56) ?w)"
    by (simp_all add: m flags_nt_bit flags_interrupts_enabled_def getf_def)
  have d: "128 < dtr_get_total_gates (cpu_idtr (get_cpu w0))" by (simp add: w0 dtr_get_total_gates_def)
  have u: "get_segment_privilege (ucast (get_word (0x6000 + 52) w0)) = 3"
    by (simp add: w0 m get_segment_privilege_def)
  have e: "0x7000 = get_word (cpu_tss_base (get_cpu w0) + 4) w0" "0x7000 = 0x6000 + (68 :: u32) \<or> 68 \<le> 0x6000 + 68 - (0x7000 :: u32)"
    "apart (cpu_tss_base (get_cpu w0) + 4) 4 (0x6000 + 36) 12"
    by (simp_all add: w0 t m apart_def)
  from iret_redirect_to_user [OF f p d g u e, of "0x7b"] show ?thesis
  proof (elim exE conjE, goal_cases)
    case (1 w')
    from 1(7) have "get_word (0x7000 - 68 + 4 * of_nat 12) w' = get_word (0x6000 + 4 * of_nat 12) w0" by (rule bspec) simp
    with 1(1,4) show ?case by (simp add: w0 m o)
  qed
qed

section \<open>Pushing and popping the flags\<close>

lemma disable_restore:
  "cpu_restore_interrupts True (snd (cpu_disable_interrupts c)) = c \<and> fst (cpu_disable_interrupts c)"
  if "cpu_interrupts_enabled c"
proof -
  have "bt_offset fi_bit = 9" by code_simp
  moreover have "bit (cpu_flags c) 9"
    using that by (auto simp: cpu_interrupts_enabled_def flags_interrupts_enabled_def bit_eq_iff [of "getf _ _ _"] bit_getf)
  moreover from this have "set_bit 9 (unset_bit 9 (cpu_flags c)) = cpu_flags c"
    by (intro bit_word_eqI) (auto simp: bit_simps)
  ultimately show ?thesis
    by (simp add: cpu_restore_interrupts_def cpu_disable_interrupts_def bit_test_and_clear_atomic_def
        bit_test_and_set_atomic_def Let_def)
qed

lemma deliver_synchronous_none:
  assumes "get_irq_vectors w = 0" "cpu_interrupts_enabled (get_cpu w)"
  shows "\<exists>w'. deliver_synchronous_irq apic w = Some (False, w') \<and> get_cpu w' = get_cpu w"
proof -
  have "get_irq_vectors (upd_cpu (\<lambda>c. snd (cpu_disable_interrupts c)) w) = 0"
    using assms(1) by (simp add: get_irq_vectors_def cpu_disable_interrupts_def case_prod_unfold Let_def)
  then show ?thesis
    using assms(2) disable_restore [of "get_cpu w"] by (simp add: deliver_synchronous_irq_def Let_def no_vector_pending)
qed

text \<open>
  C40: \<^verbatim>\<open>popf\<close> stores all the flags in the virtual CPU and \<^verbatim>\<open>pushf\<close> combines its system flags with the user
  flags of the processor, but the value that \<^verbatim>\<open>popf\<close> hands to the processor has none of the user flags: the carry, zero,
  sign and direction flags that the guest popped are lost.
\<close>

theorem popf_loses_user_flags:
  assumes "get_irq_vectors w = 0"
  shows "\<exists>v w'. afterburn_cpu_write_flags apic flags w = Some (v, w') \<and> cpu_flags (get_cpu w') = flags \<and>
     v AND flags_user_mask = 0 \<and> afterburn_cpu_read_flags v w' = flags AND NOT flags_user_mask"
proof -
  let ?w = "upd_cpu (\<lambda>c. c\<lparr>cpu_flags := flags\<rparr>) w"
  let ?v = "(flags AND NOT flags_user_mask) OR flags_system_at_user"
  have irq: "get_irq_vectors ?w = 0" using assms by (simp add: get_irq_vectors_def)
  have s: "flags_system_at_user AND flags_user_mask = 0"
    by (simp add: flags_system_at_user_def flags_user_mask_def)
  have v: "?v AND flags_user_mask = 0"
    unfolding bit.conj_disj_distrib2 s by (simp add: and.assoc)
  have "\<exists>w'. afterburn_cpu_write_flags apic flags w = Some (?v, w') \<and> cpu_flags (get_cpu w') = flags"
    using deliver_synchronous_none [OF irq, of apic] by (auto simp: afterburn_cpu_write_flags_def Let_def)
  with v show ?thesis by (auto simp: afterburn_cpu_read_flags_def)
qed

theorem popf_loses_user_flags_witness:
  "\<exists>v w'. afterburn_cpu_write_flags True 0x246 (boot_apic 1) = Some (v, w') \<and> cpu_flags (get_cpu w') = 0x246 \<and>
     v AND flags_user_mask = 0"
proof -
  have "get_irq_vectors (boot_apic 1) = 0"
    by (simp add: get_irq_vectors_def get_cpu_def boot_apic_def boot_vcpu_def frontend_init_def)
  from popf_loses_user_flags [OF this, of True "0x246"] show ?thesis by blast
qed

end
