(* ===== verification/Rewrite.thy ===== *)
theory Rewrite
  imports Paging
begin

text \<open>
  The rewriter of the afterburned guest (ia32/rewrite_stackless.cc, ia32/rewrite_stackless.h and
  l4ka/rewrite_stackless.h): every sensitive instruction of the guest stands in a region that the assembler
  padded with no-ops, and the wedge replaces it by instructions that call the emulation code, or the
  handler of a device for an access to its registers. The configuration is that of the multiprocessor L4Ka
  wedge, with call-outs for the segment registers and flags (\<^verbatim>\<open>CONFIG_CALLOUT_VCPULOCAL\<close>), strict
  interrupts and the APIC. The theory holds the rewriter, and shows that a successful rewrite stays inside its region.
\<close>

unbundle bit_operations_syntax

section \<open>Instruction formats\<close>

text \<open>\<^verbatim>\<open>ia32_modrm_t\<close> and \<^verbatim>\<open>ia32_sib_t\<close> (ia32/instr.h).\<close>

definition modrm_mode :: "u8 \<Rightarrow> u8" where "modrm_mode m = getf 6 2 m"
definition get_rm :: "u8 \<Rightarrow> u8" where "get_rm m = getf 0 3 m"
definition get_reg :: "u8 \<Rightarrow> u8" where "get_reg m = getf 3 3 m"
definition sib_get_base :: "u8 \<Rightarrow> u8" where "sib_get_base s = getf 0 3 s"

definition mk_modrm :: "u8 \<Rightarrow> u8 \<Rightarrow> u8 \<Rightarrow> u8" where
  "mk_modrm md reg rm = putf 6 2 md (putf 3 3 reg (putf 0 3 rm 0))"

abbreviation OP_REG_EAX :: u8 where "OP_REG_EAX \<equiv> 0"
abbreviation OP_REG_ECX :: u8 where "OP_REG_ECX \<equiv> 1"
abbreviation OP_REG_EDX :: u8 where "OP_REG_EDX \<equiv> 2"
abbreviation OP_REG_ESP :: u8 where "OP_REG_ESP \<equiv> 4"
abbreviation OP_REG_ESI :: u8 where "OP_REG_ESI \<equiv> 6"
abbreviation OP_REG_EDI :: u8 where "OP_REG_EDI \<equiv> 7"

text \<open>The bytes of a word in memory order, and back.\<close>

definition le32 :: "u32 \<Rightarrow> u8 list" where
  "le32 v = [ucast v, ucast (drop_bit 8 v), ucast (drop_bit 16 v), ucast (drop_bit 24 v)]"

fun un_le32 :: "u8 list \<Rightarrow> u32" where
  "un_le32 (a # b # c # d # _) =
     ucast a OR push_bit 8 (ucast b) OR push_bit 16 (ucast c) OR push_bit 24 (ucast d)"
| "un_le32 _ = 0"

section \<open>Emitting instructions\<close>

text \<open>
  The pointer \<^verbatim>\<open>newops\<close> that the emitters take and return, the memory that holds the guest's code, and the two static
  variables of ia32/rewrite_stackless.h. The counters \<^verbatim>\<open>..._remain\<close> only feed a debugging printout.
\<close>

record rw =
  newops :: u32
  code :: memory
  stack_offset :: u32
  curr_virt_addr :: u32

fun emit :: "u8 list \<Rightarrow> rw \<Rightarrow> rw" where
  "emit [] r = r"
| "emit (b # bs) r = emit bs (r\<lparr>code := (code r)(newops r := b), newops := newops r + 1\<rparr>)"

definition pushed :: "rw \<Rightarrow> rw" where "pushed r = r\<lparr>stack_offset := stack_offset r + 4\<rparr>"
definition popped :: "rw \<Rightarrow> rw" where "popped r = r\<lparr>stack_offset := stack_offset r - 4\<rparr>"

definition mov_imm32_to_reg :: "u32 \<Rightarrow> u8 \<Rightarrow> rw \<Rightarrow> rw" where
  "mov_imm32_to_reg imm32 reg r = emit (0xc7 # mk_modrm 3 reg 0 # le32 imm32) r"

definition mov_reg_to_reg :: "u8 \<Rightarrow> u8 \<Rightarrow> rw \<Rightarrow> rw" where
  "mov_reg_to_reg src dst r = emit [0x89, mk_modrm 3 src dst] r"

definition clean_stack :: "u8 \<Rightarrow> rw \<Rightarrow> rw" where
  "clean_stack n r = emit [0x83, mk_modrm 3 0 4, n] r"

definition push_byte :: "u8 \<Rightarrow> rw \<Rightarrow> rw" where
  "push_byte v r = pushed (emit [0x6a, v] r)"

definition push_word :: "u32 \<Rightarrow> rw \<Rightarrow> rw" where
  "push_word v r = pushed (emit (0x68 # le32 v) r)"

definition insert_operand_size_prefix :: "rw \<Rightarrow> rw" where
  "insert_operand_size_prefix r = emit [0x66] r"

definition append_modrm :: "u8 \<Rightarrow> u8 list \<Rightarrow> rw \<Rightarrow> rw" where
  "append_modrm modrm suffixes r =
     (if modrm_mode modrm = 3 then r
      else
        (let sib = hd suffixes;
             esp_relative = (get_rm modrm = 4 \<and> sib_get_base sib = 4);
             r = (if get_rm modrm = 4 then emit [sib] r else r);
             suffixes = (if get_rm modrm = 4 then tl suffixes else suffixes);
             disp32 = un_le32 suffixes + (if esp_relative then stack_offset r else 0)
         in if modrm_mode modrm = 0 then
              (if get_rm modrm = 5 then emit (le32 disp32) r
               else if get_rm modrm = 4 \<and> sib_get_base sib = 5 then emit (le32 disp32) r
               else if esp_relative then
                 (let r = r\<lparr>code := (code r)(newops r - 2 := putf 6 2 1 modrm)\<rparr>
                  in emit [ucast (stack_offset r)] r)
               else r)
            else if modrm_mode modrm = 1 then
              emit [hd suffixes + (if esp_relative then ucast (stack_offset r) else 0)] r
            else emit (le32 disp32) r))"

definition mov_to_modrm :: "u8 \<Rightarrow> u8 \<Rightarrow> u8 list \<Rightarrow> rw \<Rightarrow> rw" where
  "mov_to_modrm src_reg modrm suffixes r =
     (let modrm = putf 3 3 src_reg modrm in append_modrm modrm suffixes (emit [0x89, modrm] r))"

definition mov_from_modrm :: "u8 \<Rightarrow> u8 \<Rightarrow> u8 list \<Rightarrow> rw \<Rightarrow> rw" where
  "mov_from_modrm dst_reg modrm suffixes r =
     (let modrm = putf 3 3 dst_reg modrm in append_modrm modrm suffixes (emit [0x8b, modrm] r))"

definition lea_modrm :: "u8 \<Rightarrow> u8 \<Rightarrow> u8 list \<Rightarrow> rw \<Rightarrow> rw" where
  "lea_modrm dst_reg modrm suffixes r =
     (let modrm = putf 3 3 dst_reg modrm in append_modrm modrm suffixes (emit [0x8d, modrm] r))"

definition movzx_modrm :: "u8 \<Rightarrow> u8 \<Rightarrow> u8 list \<Rightarrow> rw \<Rightarrow> rw" where
  "movzx_modrm dst_reg modrm suffixes r =
     (let modrm = putf 3 3 dst_reg modrm in append_modrm modrm suffixes (emit [0x0f, 0xb7, modrm] r))"

definition push_reg :: "u8 \<Rightarrow> rw \<Rightarrow> rw" where
  "push_reg regname r = pushed (emit [0x50 + regname] r)"

definition pop_reg :: "u8 \<Rightarrow> rw \<Rightarrow> rw" where
  "pop_reg regname r = popped (emit [0x58 + regname] r)"

definition op_popf :: "rw \<Rightarrow> rw" where "op_popf r = emit [0x9d] r"
definition op_pushf :: "rw \<Rightarrow> rw" where "op_pushf r = emit [0x9c] r"

definition op_jmp :: "u32 \<Rightarrow> rw \<Rightarrow> rw" where
  "op_jmp func r = emit (0xe9 # le32 (func - (newops r + 5 + curr_virt_addr r))) r"

definition op_call :: "u32 \<Rightarrow> rw \<Rightarrow> rw" where
  "op_call func r = emit (0xe8 # le32 (func - (newops r + 5 + curr_virt_addr r))) r"

definition set_reg :: "u8 \<Rightarrow> u32 \<Rightarrow> rw \<Rightarrow> rw" where
  "set_reg reg v r = emit ((0xb8 + reg) # le32 v) r"

text \<open>The bytes \<^verbatim>\<open>memcpy( suffixes, &opstream[i], sizeof(suffixes) )\<close> saves.\<close>

definition suffixes_at :: "u32 \<Rightarrow> rw \<Rightarrow> u8 list" where
  "suffixes_at a r = map (\<lambda>i. code r (a + of_nat i)) [0..<6]"

section \<open>Accesses to the registers of a device\<close>

text \<open>
  The five functions that emulate a device, as they are passed to \<^verbatim>\<open>arch_apply_device_patchups\<close>; a null pointer panics.
\<close>

record device_funcs =
  read_func :: u32
  write_func :: u32
  xchg_func :: u32
  or_func :: u32
  and_func :: u32

text \<open>The source of the access goes to \<^verbatim>\<open>eax\<close> and the address of the device register to \<^verbatim>\<open>edx\<close>.\<close>

definition device_operands :: "u8 \<Rightarrow> u8 list \<Rightarrow> rw \<Rightarrow> rw" where
  "device_operands modrm suffixes r =
     (if get_reg modrm = OP_REG_EAX then lea_modrm OP_REG_EDX modrm suffixes r
      else if get_reg modrm \<noteq> OP_REG_EDX then
        mov_reg_to_reg (get_reg modrm) OP_REG_EAX (lea_modrm OP_REG_EDX modrm suffixes r)
      else if get_rm modrm = 0 then
        mov_reg_to_reg OP_REG_ECX OP_REG_EAX
          (lea_modrm OP_REG_EDX modrm suffixes (mov_reg_to_reg OP_REG_EDX OP_REG_ECX r))
      else lea_modrm OP_REG_EDX modrm suffixes (mov_reg_to_reg OP_REG_EDX OP_REG_EAX r))"

definition save_all :: "rw \<Rightarrow> rw" where
  "save_all r = push_reg OP_REG_EDX (push_reg OP_REG_ECX (push_reg OP_REG_EAX r))"

definition restore_all :: "rw \<Rightarrow> rw" where
  "restore_all r = pop_reg OP_REG_EAX (pop_reg OP_REG_ECX (pop_reg OP_REG_EDX r))"

definition device_store :: "u32 \<Rightarrow> u8 \<Rightarrow> u8 list \<Rightarrow> rw \<Rightarrow> rw option" where
  "device_store func modrm suffixes r = do {
     let r = device_operands modrm suffixes (save_all r);
     ASSERT (func \<noteq> 0);
     Some (restore_all (op_call func r)) }"

definition save_other :: "u8 \<Rightarrow> rw \<Rightarrow> rw" where
  "save_other reg r =
     (let r = (if reg \<noteq> OP_REG_EAX then push_reg OP_REG_EAX r else r);
          r = (if reg \<noteq> OP_REG_ECX then push_reg OP_REG_ECX r else r)
      in if reg \<noteq> OP_REG_EDX then push_reg OP_REG_EDX r else r)"

definition restore_other :: "u8 \<Rightarrow> rw \<Rightarrow> rw" where
  "restore_other reg r =
     (let r = (if reg = OP_REG_EDX then mov_reg_to_reg OP_REG_EAX OP_REG_EDX r else pop_reg OP_REG_EDX r);
          r = (if reg = OP_REG_ECX then mov_reg_to_reg OP_REG_EAX OP_REG_ECX r else pop_reg OP_REG_ECX r);
          r = (if reg \<noteq> OP_REG_EAX \<and> reg \<noteq> OP_REG_ECX \<and> reg \<noteq> OP_REG_EDX
               then mov_reg_to_reg OP_REG_EAX reg r else r)
      in if reg \<noteq> OP_REG_EAX then pop_reg OP_REG_EAX r else r)"

definition apply_device_patchup :: "u32 \<Rightarrow> u32 \<Rightarrow> device_funcs \<Rightarrow> rw \<Rightarrow> (bool \<times> rw) option" where
  "apply_device_patchup opstream opstream_end fs r0 =
     (let r = r0\<lparr>newops := opstream, stack_offset := 0\<rparr>;
          op = code r opstream;
          modrm = code r (opstream + 1);
          suffixes = suffixes_at (opstream + 2) r in do {
        result \<leftarrow>
          (if op = 0x09 then map_option Some (device_store (or_func fs) modrm suffixes r)
           else if op = 0x21 then map_option Some (device_store (and_func fs) modrm suffixes r)
           else if op = 0x89 then map_option Some (device_store (write_func fs) modrm suffixes r)
           else if op = 0xa3 then do {
             let r = set_reg OP_REG_EDX (un_le32 (suffixes_at (opstream + 1) r)) (save_all r);
             ASSERT (write_func fs \<noteq> 0);
             Some (Some (restore_all (op_call (write_func fs) r))) }
           else if op = 0xa1 then do {
             let r = mov_imm32_to_reg (un_le32 (suffixes_at (opstream + 1) r)) OP_REG_EAX r;
             let r = push_reg OP_REG_EDX (push_reg OP_REG_ECX r);
             ASSERT (read_func fs \<noteq> 0);
             Some (Some (pop_reg OP_REG_ECX (pop_reg OP_REG_EDX (op_call (read_func fs) r)))) }
           else if op = 0x8b then do {
             let r = lea_modrm OP_REG_EAX modrm suffixes (save_other (get_reg modrm) r);
             ASSERT (read_func fs \<noteq> 0);
             Some (Some (restore_other (get_reg modrm) (op_call (read_func fs) r))) }
           else if op = 0x87 then do {
             let r = device_operands modrm suffixes (save_other (get_reg modrm) r);
             ASSERT (xchg_func fs \<noteq> 0);
             Some (Some (restore_other (get_reg modrm) (op_call (xchg_func fs) r))) }
           else Some None);
        Some (case result of None \<Rightarrow> (False, r) | Some r \<Rightarrow> (newops r \<le> opstream_end, r)) })"

text \<open>\<^verbatim>\<open>arch_apply_device_patchups\<close> ignores the result of every single rewrite.\<close>

fun arch_apply_device_patchups ::
    "(u32 \<times> u32) list \<Rightarrow> u32 \<Rightarrow> device_funcs \<Rightarrow> rw \<Rightarrow> (bool \<times> rw) option" where
  "arch_apply_device_patchups [] vaddr_offset fs r = Some (True, r)"
| "arch_apply_device_patchups ((start, stop) # patchups) vaddr_offset fs r = do {
     (_, r) \<leftarrow> apply_device_patchup (start - vaddr_offset) (stop - vaddr_offset) fs r;
     arch_apply_device_patchups patchups vaddr_offset fs r }"

text \<open>A bit operation on a device register, with the bit number in \<^verbatim>\<open>eax\<close>.\<close>

definition apply_bitop_patchup :: "u32 \<Rightarrow> u32 \<Rightarrow> u32 \<Rightarrow> u32 \<Rightarrow> rw \<Rightarrow> (bool \<times> rw) option" where
  "apply_bitop_patchup opstream opstream_end clear_bit_func set_bit_func r0 = do {
     ASSERT (set_bit_func = 0);
     let r = r0\<lparr>newops := opstream, stack_offset := 0\<rparr>;
     let opstream = (if code r opstream = 0xf0 then opstream + 1 else opstream);
     if code r opstream \<noteq> 0x0f then Some (False, r)
     else (let opstream = opstream + 1 in
       if code r opstream = 0xb3 then
         (let modrm = code r (opstream + 1); suffixes = suffixes_at (opstream + 2) r in do {
            ASSERT (get_reg modrm = OP_REG_EAX);
            let r = lea_modrm OP_REG_EDX modrm suffixes (push_reg OP_REG_EDX (push_reg OP_REG_ECX r));
            ASSERT (clear_bit_func \<noteq> 0);
            let r = pop_reg OP_REG_ECX (pop_reg OP_REG_EDX (op_call clear_bit_func r));
            Some (newops r \<le> opstream_end, r) })
       else Some (False, r)) }"

fun arch_apply_bitop_patchups ::
    "(u32 \<times> u32) list \<Rightarrow> u32 \<Rightarrow> u32 \<Rightarrow> u32 \<Rightarrow> rw \<Rightarrow> (bool \<times> rw) option" where
  "arch_apply_bitop_patchups [] vaddr_offset cl st r = Some (True, r)"
| "arch_apply_bitop_patchups ((start, stop) # patchups) vaddr_offset cl st r = do {
     (_, r) \<leftarrow> apply_bitop_patchup (start - vaddr_offset) (stop - vaddr_offset) cl st r;
     arch_apply_bitop_patchups patchups vaddr_offset cl st r }"

section \<open>Sensitive instructions\<close>

text \<open>The entry points of the assembler stubs and of the 8259A; \<open>env\<close> below has their addresses.\<close>

datatype (plugins only: code size) burn_func =
    burn_interruptible_hlt | burn_int | burn_iret | burn_lret | burn_lidt | burn_lgdt | burn_invlpg | burn_lldt
  | burn_ltr | burn_str | burn_clts | burn_cli | burn_sti | burn_popf | burn_pushf | burn_write_cr "nat" | burn_read_cr
  | burn_write_dr | burn_read_dr | burn_ud2 | burn_unimplemented | burn_write_cs | burn_write_ds | burn_write_es
  | burn_write_fs | burn_write_gs | burn_write_ss | burn_read_cs | burn_read_ds | burn_read_es | burn_read_fs
  | burn_read_gs | burn_read_ss | burn_lss | burn_invd | burn_wbinvd | burn_cpuid | burn_wrmsr | burn_rdmsr
  | burn_in | burn_out | burn_ins | burn_outs | burn_mov_tofsofs | burn_mov_fromfsofs
  | device_8259_0x20_in | device_8259_0x21_in | device_8259_0xa0_in | device_8259_0xa1_in
  | device_8259_0x20_out | device_8259_0x21_out | device_8259_0xa0_out | device_8259_0xa1_out

type_synonym burn_env = "burn_func \<Rightarrow> u32"

definition newops_pushf :: "burn_env \<Rightarrow> rw \<Rightarrow> rw" where
  "newops_pushf env r = op_call (env burn_pushf) (op_pushf r)"

definition burn_write_seg :: "u8 \<Rightarrow> burn_func option" where
  "burn_write_seg reg =
     (if reg = 0 then Some burn_write_es else if reg = 1 then Some burn_write_cs
      else if reg = 2 then Some burn_write_ss else if reg = 3 then Some burn_write_ds
      else if reg = 4 then Some burn_write_fs else if reg = 5 then Some burn_write_gs else None)"

definition burn_read_seg :: "u8 \<Rightarrow> burn_func option" where
  "burn_read_seg reg =
     (if reg = 0 then Some burn_read_es else if reg = 1 then Some burn_read_cs
      else if reg = 2 then Some burn_read_ss else if reg = 3 then Some burn_read_ds
      else if reg = 4 then Some burn_read_fs else if reg = 5 then Some burn_read_gs else None)"

text \<open>An unknown segment register only enters the debugger.\<close>

definition call_opt :: "burn_env \<Rightarrow> burn_func option \<Rightarrow> rw \<Rightarrow> rw" where
  "call_opt env f r = (case f of None \<Rightarrow> r | Some f \<Rightarrow> op_call (env f) r)"

definition newops_mov_toseg :: "burn_env \<Rightarrow> u8 \<Rightarrow> u8 list \<Rightarrow> rw \<Rightarrow> rw" where
  "newops_mov_toseg env modrm suffixes r =
     (let r = (if modrm_mode modrm = 3 then push_reg (get_rm modrm) r
               else push_reg OP_REG_EAX (mov_from_modrm OP_REG_EAX modrm suffixes
                      (insert_operand_size_prefix (push_reg OP_REG_EAX r))));
          r = clean_stack 4 (call_opt env (burn_write_seg (get_reg modrm)) r)
      in if modrm_mode modrm \<noteq> 3 then pop_reg OP_REG_EAX r else r)"

definition newops_pushseg :: "burn_env \<Rightarrow> burn_func \<Rightarrow> rw \<Rightarrow> rw" where
  "newops_pushseg env f r = op_call (env f) (push_reg OP_REG_EAX r)"

definition newops_popseg :: "burn_env \<Rightarrow> burn_func \<Rightarrow> rw \<Rightarrow> rw" where
  "newops_popseg env f r = clean_stack 4 (op_call (env f) r)"

definition newops_movfromseg :: "burn_env \<Rightarrow> u8 \<Rightarrow> u8 list \<Rightarrow> rw \<Rightarrow> rw" where
  "newops_movfromseg env modrm suffixes r =
     (let r = (if modrm_mode modrm \<noteq> 3 then push_reg OP_REG_EAX r else r);
          r = push_reg OP_REG_EAX r;
          r = call_opt env (burn_read_seg (get_reg modrm)) r
      in if modrm_mode modrm = 3 then pop_reg (get_rm modrm) r
         else pop_reg OP_REG_EAX (mov_to_modrm OP_REG_EAX modrm suffixes
                (insert_operand_size_prefix (pop_reg OP_REG_EAX r))))"

definition newops_cli :: "burn_env \<Rightarrow> rw \<Rightarrow> rw" where
  "newops_cli env r = op_call (env burn_cli) r"

definition newops_movfromcreg :: "burn_env \<Rightarrow> u8 \<Rightarrow> rw \<Rightarrow> rw option" where
  "newops_movfromcreg env modrm r = do {
     ASSERT (modrm_mode modrm = 3);
     ASSERT (get_reg modrm \<noteq> 1 \<and> get_reg modrm \<le> 4);
     let r = op_call (env burn_read_cr) (push_byte (get_reg modrm) (push_reg OP_REG_EAX r));
     Some (pop_reg (get_rm modrm) (clean_stack 4 r)) }"

text \<open>The ports of the 8259A, which have handlers of their own.\<close>

definition port_call :: "burn_env \<Rightarrow> burn_func \<Rightarrow> rw \<Rightarrow> rw" where
  "port_call env which r =
     (let r = push_reg OP_REG_EDX (push_reg OP_REG_ECX r)
      in pop_reg OP_REG_ECX (pop_reg OP_REG_EDX (op_call (env which) r)))"

definition apply_port_in_patchup :: "burn_env \<Rightarrow> u8 \<Rightarrow> rw \<Rightarrow> bool \<times> rw" where
  "apply_port_in_patchup env port r =
     (let r = r\<lparr>stack_offset := 0\<rparr>
      in if port = 0x20 then (True, port_call env device_8259_0x20_in r)
         else if port = 0x21 then (True, port_call env device_8259_0x21_in r)
         else if port = 0xa0 then (True, port_call env device_8259_0xa0_in r)
         else if port = 0xa1 then (True, port_call env device_8259_0xa1_in r)
         else (False, r))"

definition apply_port_out_patchup :: "burn_env \<Rightarrow> u8 \<Rightarrow> rw \<Rightarrow> bool \<times> rw" where
  "apply_port_out_patchup env port r =
     (let r = r\<lparr>stack_offset := 0\<rparr>
      in if port = 0x20 then (True, port_call env device_8259_0x20_out r)
         else if port = 0x21 then (True, port_call env device_8259_0x21_out r)
         else if port = 0xa0 then (True, port_call env device_8259_0xa0_out r)
         else if port = 0xa1 then (True, port_call env device_8259_0xa1_out r)
         else (False, r))"

definition imm_port_call :: "burn_env \<Rightarrow> burn_func \<Rightarrow> u8 \<Rightarrow> u8 \<Rightarrow> bool \<times> rw \<Rightarrow> rw" where
  "imm_port_call env f width port hr =
     (if fst hr then snd hr
      else clean_stack 8 (op_call (env f) (push_word (ucast port) (push_byte width (snd hr)))))"

definition dx_port_call :: "burn_env \<Rightarrow> burn_func \<Rightarrow> u8 \<Rightarrow> rw \<Rightarrow> rw" where
  "dx_port_call env f width r = clean_stack 8 (op_call (env f) (push_reg OP_REG_EDX (push_byte width r)))"

text \<open>Without a repeat prefix the source pushes register 1, which is \<^verbatim>\<open>ecx\<close> too.\<close>

definition string_port_call :: "burn_env \<Rightarrow> burn_func \<Rightarrow> u8 \<Rightarrow> bool \<Rightarrow> u8 \<Rightarrow> rw \<Rightarrow> rw" where
  "string_port_call env f width rep_prefix reg r =
     (let r = push_byte width r;
          r = (if rep_prefix then push_reg OP_REG_ECX r else push_reg 1 r)
      in clean_stack 12 (op_call (env f) (push_reg reg r)))"

section \<open>The rewriting of one instruction\<close>

record prefixes =
  rep_prefix :: bool
  operand_size_prefix :: bool
  segment_prefix :: bool

definition port_width :: "prefixes \<Rightarrow> u8" where
  "port_width p = (if operand_size_prefix p then 16 else 32)"

definition patch_ports :: "burn_env \<Rightarrow> prefixes \<Rightarrow> u8 \<Rightarrow> u8 \<Rightarrow> rw \<Rightarrow> rw option" where
  "patch_ports env p op port r =
     (if op = 0xe7 then Some (imm_port_call env burn_out (port_width p) port (apply_port_out_patchup env port r))
      else if op = 0xef then Some (dx_port_call env burn_out (port_width p) r)
      else if op = 0xe6 then Some (imm_port_call env burn_out 8 port (apply_port_out_patchup env port r))
      else if op = 0xee then Some (dx_port_call env burn_out 8 r)
      else if op = 0x6f then Some (string_port_call env burn_outs (port_width p) (rep_prefix p) OP_REG_ESI r)
      else if op = 0x6e then Some (string_port_call env burn_outs 8 (rep_prefix p) OP_REG_ESI r)
      else if op = 0xe5 then Some (imm_port_call env burn_in (port_width p) port (apply_port_in_patchup env port r))
      else if op = 0xed then Some (dx_port_call env burn_in (port_width p) r)
      else if op = 0xe4 then Some (imm_port_call env burn_in 8 port (apply_port_in_patchup env port r))
      else if op = 0xec then Some (dx_port_call env burn_in 8 r)
      else if op = 0x6d then Some (string_port_call env burn_ins (port_width p) (rep_prefix p) OP_REG_EDI r)
      else if op = 0x6c then Some (string_port_call env burn_ins 8 (rep_prefix p) OP_REG_EDI r)
      else None)"

text \<open>
  Memory accesses through \<^verbatim>\<open>fs\<close> or \<^verbatim>\<open>gs\<close>; only \<^verbatim>\<open>fs\<close> is called for, \<^verbatim>\<open>gs\<close> enters the debugger. The store of
  \<^verbatim>\<open>eax\<close> to an offset (\<^verbatim>\<open>0xa3\<close>) ends by popping the register of \<^verbatim>\<open>modrm\<close>, a variable that has no value there: \<open>junk\<close>.
\<close>

definition patch_segofs :: "burn_env \<Rightarrow> u8 \<Rightarrow> u32 \<Rightarrow> u8 \<Rightarrow> rw \<Rightarrow> rw option" where
  "patch_segofs env op opstream junk r =
     (let prefix = code r opstream; modrm = code r (opstream + 2); suffixes = suffixes_at (opstream + 3) r;
          ofs = un_le32 (suffixes_at (opstream + 2) r);
          call = (\<lambda>f r. if prefix = 0x64 then op_call (env f) r else r)
      in if op = 0x89 then
           (let r = push_reg (get_reg modrm) (push_reg (get_reg modrm) r);
                r = push_reg (get_reg modrm) (lea_modrm (get_reg modrm) modrm suffixes r)
            in Some (pop_reg (get_reg modrm) (clean_stack 8 (call burn_mov_tofsofs r))))
         else if op = 0x8b then
           (let r = push_reg (get_reg modrm) (lea_modrm (get_reg modrm) modrm suffixes r)
            in Some (pop_reg (get_reg modrm) (call burn_mov_fromfsofs r)))
         else if op = 0xa3 then
           (let r = push_word ofs (push_reg OP_REG_EAX (push_reg OP_REG_EAX r))
            in Some (pop_reg (get_reg junk) (clean_stack 8 (call burn_mov_tofsofs r))))
         else if op = 0xa1 then
           Some (pop_reg OP_REG_EAX (call burn_mov_fromfsofs (push_word ofs r)))
         else None)"

definition patch_2byte :: "burn_env \<Rightarrow> u32 \<Rightarrow> rw \<Rightarrow> (bool \<times> rw) option" where
  "patch_2byte env opstream r =
     (let op = code r (opstream + 1); modrm = code r (opstream + 2); suffixes = suffixes_at (opstream + 3) r;
          call = (\<lambda>f. Some (True, op_call (env f) r))
      in if op = 0x09 then call burn_wbinvd
         else if op = 0x08 then call burn_invd
         else if op = 0x0b then call burn_ud2
         else if op = 0xa0 then Some (True, newops_pushseg env burn_read_fs r)
         else if op = 0xa1 then Some (True, newops_popseg env burn_write_fs r)
         else if op = 0xa8 then Some (True, newops_pushseg env burn_read_gs r)
         else if op = 0xa9 then Some (True, newops_popseg env burn_write_gs r)
         else if op = 0xa2 then call burn_cpuid
         else if op = 0xb2 then
           (let r = op_call (env burn_lss) (lea_modrm OP_REG_EAX modrm suffixes (push_reg OP_REG_EAX r))
            in Some (True, mov_from_modrm OP_REG_ESP modrm suffixes (pop_reg OP_REG_EAX r)))
         else if op = 0x20 then map_option (Pair True) (newops_movfromcreg env modrm r)
         else if op = 0x21 then do {
           ASSERT (modrm_mode modrm = 3);
           let r = op_call (env burn_read_dr) (push_byte (get_reg modrm) (push_reg OP_REG_EAX r));
           Some (True, pop_reg (get_rm modrm) (clean_stack 4 r)) }
         else if op = 0x22 then do {
           ASSERT (modrm_mode modrm = 3);
           ASSERT (get_reg modrm \<noteq> 1 \<and> get_reg modrm \<le> 4);
           let r = op_call (env (burn_write_cr (unat (get_reg modrm)))) (push_reg (get_rm modrm) r);
           Some (True, clean_stack 4 r) }
         else if op = 0x23 then do {
           ASSERT (modrm_mode modrm = 3);
           let r = op_call (env burn_write_dr) (push_byte (get_reg modrm) (push_reg (get_rm modrm) r));
           Some (True, clean_stack 8 r) }
         else if op = 0x06 then call burn_clts
         else if op = 0x00 then
           (let r = movzx_modrm OP_REG_EAX modrm suffixes (push_reg OP_REG_EAX r);
                call = (\<lambda>f. Some (True, pop_reg OP_REG_EAX (op_call (env f) r)))
            in if get_reg modrm = 3 then call burn_ltr
               else if get_reg modrm = 2 then call burn_lldt
               else if get_reg modrm = 1 then call burn_str
               else Some (False, r))
         else if op = 0x01 then
           (let r = lea_modrm OP_REG_EAX modrm suffixes (push_reg OP_REG_EAX r);
                call = (\<lambda>f. Some (True, pop_reg OP_REG_EAX (op_call (env f) r)));
                ext = get_reg modrm
            in if ext = 0 \<or> ext = 1 \<or> ext = 4 \<or> ext = 6 then call burn_unimplemented
               else if ext = 2 then call burn_lgdt
               else if ext = 3 then call burn_lidt
               else if ext = 7 then call burn_invlpg
               else Some (False, r))
         else if op = 0x30 then call burn_wrmsr
         else if op = 0x32 then call burn_rdmsr
         else Some (False, r))"

text \<open>
  The instruction behind its prefixes. \<open>kv\<close> is the
  virtual address of the guest kernel, to which a far jump switches.
\<close>

definition patch_opcode ::
    "burn_env \<Rightarrow> u32 \<Rightarrow> u8 \<Rightarrow> prefixes \<Rightarrow> u32 \<Rightarrow> u32 \<Rightarrow> rw \<Rightarrow> (bool \<times> rw) option" where
  "patch_opcode env kv junk p opstream opstream_end r =
     (let op = code r opstream; arg = code r (opstream + 1);
          ret = (\<lambda>r. Some (True, r)); suffixes = suffixes_at (opstream + 2) r
      in if op = 0xf4 then ret (op_call (env burn_interruptible_hlt) r)
         else if op = 0xcc then
           ret (r\<lparr>code := ((code r)(opstream_end - 1 := op))(opstream := 0x90)\<rparr>)
         else if op = 0xcd then
           ret (emit [0xeb, - 12] (op_call (env burn_int) (push_word (ucast arg) r)))
         else if op = 0xcf then ret (op_jmp (env burn_iret) r)
         else if op = 0xcb then ret (op_jmp (env burn_lret) r)
         else if op = 0xea then
           (let jmp_target = un_le32 (suffixes_at (opstream + 1) r);
                segment = load16 (opstream + 5) (code r);
                r = push_word jmp_target (push_word (ucast segment) (r\<lparr>curr_virt_addr := kv\<rparr>))
            in ret (op_jmp (env burn_write_cs) r))
         else if patch_ports env p op arg r \<noteq> None then map_option (Pair True) (patch_ports env p op arg r)
         else if op = 0x9c then ret (newops_pushf env r)
         else if op = 0x9d then ret (op_popf (op_call (env burn_popf) r))
         else if op = 0x89 \<or> op = 0x8b \<or> op = 0xa3 \<or> op = 0xa1 then do {
           ASSERT (segment_prefix p);
           map_option (Pair True) (patch_segofs env op (opstream - 1) junk r) }
         else if op = 0x8e then ret (newops_mov_toseg env arg suffixes (r\<lparr>newops := opstream\<rparr>))
         else if op = 0x0e then ret (newops_pushseg env burn_read_cs r)
         else if op = 0x16 then ret (newops_pushseg env burn_read_ss r)
         else if op = 0x17 then ret (newops_popseg env burn_write_ss r)
         else if op = 0x1e then ret (newops_pushseg env burn_read_ds r)
         else if op = 0x1f then ret (newops_popseg env burn_write_ds r)
         else if op = 0x06 then ret (newops_pushseg env burn_read_es r)
         else if op = 0x07 then ret (newops_popseg env burn_write_es r)
         else if op = 0x8c then ret (newops_movfromseg env arg suffixes r)
         else if op = 0xfa then ret (newops_cli env r)
         else if op = 0xfb then ret (op_call (env burn_sti) r)
         else if op = 0x0f then patch_2byte env opstream r
         else Some (False, r))"

text \<open>
  The decoding loop. Every prefix becomes a no-op; a \<^verbatim>\<open>cs\<close>, \<^verbatim>\<open>ss\<close>, \<^verbatim>\<open>ds\<close> or \<^verbatim>\<open>es\<close> override leaves the loop, and with
  it the instruction. An IA32 instruction has at most 15 bytes, so that a fuel of 15 reaches the opcode.
\<close>

fun patch_prefixes ::
    "nat \<Rightarrow> burn_env \<Rightarrow> u32 \<Rightarrow> u8 \<Rightarrow> prefixes \<Rightarrow> u32 \<Rightarrow> u32 \<Rightarrow> rw \<Rightarrow> (bool \<times> rw) option" where
  "patch_prefixes 0 env kv junk p opstream opstream_end r = None"
| "patch_prefixes (Suc n) env kv junk p opstream opstream_end r =
     (let op = code r opstream;
          next = (\<lambda>p. patch_prefixes n env kv junk p (opstream + 1) opstream_end (emit [0x90] r))
      in if op = 0xf0 \<or> op = 0xf2 \<or> op = 0x67 then next p
         else if op = 0xf3 then next (p\<lparr>rep_prefix := True\<rparr>)
         else if op = 0x66 then next (p\<lparr>operand_size_prefix := True\<rparr>)
         else if op = 0x2e \<or> op = 0x36 \<or> op = 0x3e \<or> op = 0x26 then Some (True, emit [0x90] r)
         else if op = 0x64 \<or> op = 0x65 then next (p\<lparr>segment_prefix := True\<rparr>)
         else patch_opcode env kv junk p opstream opstream_end r)"

definition no_prefixes :: prefixes where
  "no_prefixes = \<lparr>rep_prefix = False, operand_size_prefix = False, segment_prefix = False\<rparr>"

definition apply_patchup ::
    "burn_env \<Rightarrow> u32 \<Rightarrow> u8 \<Rightarrow> u32 \<Rightarrow> u32 \<Rightarrow> rw \<Rightarrow> (bool \<times> rw) option" where
  "apply_patchup env kv junk opstream opstream_end r0 =
     (let r = r0\<lparr>newops := opstream, stack_offset := 0\<rparr> in do {
        (good, r) \<leftarrow> patch_prefixes 15 env kv junk no_prefixes opstream opstream_end r;
        Some (good \<and> newops r \<le> opstream_end, r) })"

definition init_patchup :: "rw \<Rightarrow> rw" where
  "init_patchup r = r\<lparr>curr_virt_addr := 0\<rparr>"

fun apply_patchups ::
    "burn_env \<Rightarrow> u32 \<Rightarrow> u8 \<Rightarrow> (u32 \<times> u32) list \<Rightarrow> u32 \<Rightarrow> rw \<Rightarrow> (bool \<times> rw) option" where
  "apply_patchups env kv junk [] vaddr_offset r = Some (True, r)"
| "apply_patchups env kv junk ((start, stop) # patchups) vaddr_offset r = do {
     (good, r) \<leftarrow> apply_patchup env kv junk (start - vaddr_offset) (stop - vaddr_offset) r;
     if \<not> good then Some (False, r) else apply_patchups env kv junk patchups vaddr_offset r }"

definition arch_apply_patchups ::
    "burn_env \<Rightarrow> u32 \<Rightarrow> u8 \<Rightarrow> (u32 \<times> u32) list \<Rightarrow> u32 \<Rightarrow> rw \<Rightarrow> (bool \<times> rw) option" where
  "arch_apply_patchups env kv junk patchups vaddr_offset r =
     apply_patchups env kv junk patchups vaddr_offset (init_patchup r)"

end
