(* ===== verification/Rewrite_Code.thy ===== *)
theory Rewrite_Code
  imports Rewrite
begin

text \<open>
  What the rewriter writes: every emitter appends the bytes of one instruction at \<^verbatim>\<open>newops\<close> and changes no other byte.
  From this follow the bytes of every rewritten instruction, which the theory of their execution uses, and that a
  rewrite that succeeds stays inside its region.
\<close>

unbundle bit_operations_syntax

section \<open>Appending bytes\<close>

fun code_at :: "memory \<Rightarrow> u32 \<Rightarrow> u8 list \<Rightarrow> bool" where
  "code_at c a [] \<longleftrightarrow> True"
| "code_at c a (b # bs) \<longleftrightarrow> c a = b \<and> code_at c (a + 1) bs"

definition appends :: "rw \<Rightarrow> rw \<Rightarrow> u8 list \<Rightarrow> bool" where
  "appends r r' bs \<longleftrightarrow> newops r' = newops r + of_nat (length bs) \<and> code_at (code r') (newops r) bs \<and>
     (\<forall>x. length bs \<le> unat (x - newops r) \<longrightarrow> code r' x = code r x)"

lemma code_at_append: "code_at c a (bs @ cs) \<longleftrightarrow> code_at c a bs \<and> code_at c (a + of_nat (length bs)) cs"
  by (induction bs arbitrary: a) (simp_all add: ac_simps)

lemma code_at_nth: "code_at c a bs \<longleftrightarrow> (\<forall>i < length bs. c (a + of_nat i) = bs ! i)"
proof (induction bs arbitrary: a)
  case (Cons b bs)
  show ?case by (simp add: Cons All_less_Suc2 add.assoc)
qed simp

lemma unat_sub_of_nat:
  "n \<le> unat (x :: u32) \<Longrightarrow> unat (x - of_nat n) = unat x - n"
proof -
  assume n: "n \<le> unat x"
  then have "n < 2 ^ 32" using unsigned_less [of x, where 'a = nat] by simp
  then have "unat (of_nat n :: u32) = n" by (simp add: unat_of_nat)
  with n show ?thesis by (simp add: unat_sub_if_size)
qed

lemma unat_minus_diff:
  assumes "i < n" "n < 2 ^ 32"
  shows "unat (of_nat i - of_nat n :: u32) = 2 ^ 32 + i - n"
proof -
  have "unat (of_nat i :: u32) = i" "unat (of_nat n :: u32) = n" using assms by (simp_all add: unat_of_nat)
  then show ?thesis using assms by (simp add: unat_sub_if_size word_size)
qed

lemma appends_trans:
  assumes "appends r r1 bs" "appends r1 r2 cs" "length bs + length cs < 2 ^ 32"
  shows "appends r r2 (bs @ cs)"
proof -
  let ?a = "newops r"
  have n1: "newops r1 = ?a + of_nat (length bs)" using assms(1) by (simp add: appends_def)
  have "code r2 (?a + of_nat i) = bs ! i" if "i < length bs" for i
  proof -
    have "?a + of_nat i - newops r1 = of_nat i - of_nat (length bs)" by (simp add: n1)
    then have "unat (?a + of_nat i - newops r1) = 2 ^ 32 + i - length bs"
      using unat_minus_diff [OF that] assms(3) by (simp only: add_lessD1)
    then have "length cs \<le> unat (?a + of_nat i - newops r1)" using assms(3) that by linarith
    then show ?thesis using assms(1,2) that by (simp add: appends_def code_at_nth)
  qed
  then have "code_at (code r2) ?a bs" by (simp add: code_at_nth)
  then have "code_at (code r2) ?a (bs @ cs)"
    using assms(2) by (simp add: code_at_append appends_def n1)
  moreover have "code r2 x = code r x" if "length (bs @ cs) \<le> unat (x - ?a)" for x
  proof -
    have "unat (x - newops r1) = unat (x - ?a) - length bs"
      using unat_sub_of_nat [of "length bs" "x - ?a"] that by (simp add: n1 diff_diff_eq)
    then have "length cs \<le> unat (x - newops r1)" using that by simp
    then show ?thesis using assms(1,2) that by (simp add: appends_def)
  qed
  ultimately show ?thesis using assms(2) by (simp add: appends_def n1)
qed

lemma appends_one: "appends r (emit [b] r) [b]"
  by (auto simp: appends_def)

lemma emit_frame [simp]:
  "newops (emit bs r) = newops r + of_nat (length bs)" "stack_offset (emit bs r) = stack_offset r"
  "curr_virt_addr (emit bs r) = curr_virt_addr r"
  by (induction bs arbitrary: r) (simp_all add: ac_simps)

lemma appends_emit: "length bs < 2 ^ 32 \<Longrightarrow> appends r (emit bs r) bs"
proof (induction bs arbitrary: r)
  case (Cons b bs)
  then show ?case using appends_trans [OF appends_one Cons.IH, of b r] by simp
qed (simp add: appends_def)

declare emit.simps [simp del]

lemma appends_then_emit:
  assumes "appends r r1 bs" "length bs + length cs < 2 ^ 32"
  shows "appends r (emit cs r1) (bs @ cs)"
  using appends_trans [OF assms(1) appends_emit] assms(2) by simp

lemma appends_frame [simp]:
  "appends r (r1\<lparr>stack_offset := v\<rparr>) bs = appends r r1 bs" "appends r (pushed r1) bs = appends r r1 bs"
  "appends r (popped r1) bs = appends r r1 bs" "appends r (r1\<lparr>curr_virt_addr := v\<rparr>) bs = appends r r1 bs"
  by (simp_all add: appends_def pushed_def popped_def)

lemma appends_patch:
  assumes "appends r r' (ps @ b # bs)" "length ps + length bs < 2 ^ 32 - 1"
  shows "appends r (r'\<lparr>code := (code r')(newops r + of_nat (length ps) := b')\<rparr>) (ps @ b' # bs)"
proof -
  have u: "unat (of_nat (length ps) :: u32) = length ps" using assms(2) by (simp add: unat_of_nat)
  have "of_nat i \<noteq> (of_nat (length ps) :: u32)" if "i \<noteq> length ps" "i < length ps + Suc (length bs)" for i
  proof -
    have "unat (of_nat i :: u32) = i" using that assms(2) by (simp add: unat_of_nat)
    then show ?thesis using u that(1) by metis
  qed
  then have "code_at ((code r')(newops r + of_nat (length ps) := b')) (newops r) (ps @ b' # bs)"
    using assms(1) by (auto simp: appends_def code_at_nth nth_append nth_Cons split: nat.splits)
  moreover have "x \<noteq> newops r + of_nat (length ps)" if "length (ps @ b # bs) \<le> unat (x - newops r)" for x
    using that u by auto
  ultimately show ?thesis using assms(1) by (auto simp: appends_def)
qed

section \<open>The bytes of the emitters\<close>

lemma length_le32 [simp]: "length (le32 v) = 4"
  by (simp add: le32_def)

text \<open>The operand bytes that \<^verbatim>\<open>append_modrm\<close> leaves behind an opcode, with the mode byte it may rewrite.\<close>

definition modrm_bytes :: "u8 \<Rightarrow> u8 list \<Rightarrow> u32 \<Rightarrow> u8 list" where
  "modrm_bytes m suf so =
     (if modrm_mode m = 3 then [m]
      else
        (let sib = hd suf; esp = (get_rm m = 4 \<and> sib_get_base sib = 4);
             ds = (if get_rm m = 4 then tl suf else suf);
             disp32 = le32 (un_le32 ds + (if esp then so else 0));
             sibs = (if get_rm m = 4 then [sib] else [])
         in if modrm_mode m = 0 then
              (if get_rm m = 5 \<or> get_rm m = 4 \<and> sib_get_base sib = 5 then m # sibs @ disp32
               else if esp then putf 6 2 1 m # sibs @ [ucast so]
               else m # sibs)
            else if modrm_mode m = 1 then m # sibs @ [hd ds + (if esp then ucast so else 0)]
            else m # sibs @ disp32))"

lemma length_modrm_bytes [simp]: "length (modrm_bytes m suf so) \<le> 6" "length (modrm_bytes m suf so) \<le> 7"
  by (simp_all add: modrm_bytes_def Let_def)

lemma append_modrm_bytes:
  assumes "length ops < 10"
  shows "appends r (append_modrm m suf (emit (ops @ [m]) r)) (ops @ modrm_bytes m suf (stack_offset r))"
    and "stack_offset (append_modrm m suf (emit (ops @ [m]) r)) = stack_offset r"
    and "curr_virt_addr (append_modrm m suf (emit (ops @ [m]) r)) = curr_virt_addr r"
proof -
  let ?r1 = "emit (ops @ [m]) r"
  have r1: "appends r ?r1 (ops @ [m])" using assms by (intro appends_emit) simp
  have more: "appends r (emit bs ?r1) (ops @ m # bs)" if "length bs < 10" for bs
    using appends_then_emit [OF r1, of bs] assms that by simp
  have two: "appends r (emit cs (emit [b] ?r1)) (ops @ m # b # cs)" if "length cs < 10" for b cs
    using appends_then_emit [OF more [of "[b]"], of cs] assms that by simp
  have sib: "appends r (emit [b'] ((emit [b] ?r1)\<lparr>code := (code (emit [b] ?r1))(newops (emit [b] ?r1) - 2 := m')\<rparr>))
      (ops @ m' # b # [b'])" for b b' m'
  proof -
    have "newops (emit [b] ?r1) - 2 = newops r + of_nat (length ops)" by simp
    moreover have "appends r ((emit [b] ?r1)\<lparr>code := (code (emit [b] ?r1))(newops r + of_nat (length ops) := m')\<rparr>) (ops @ m' # [b])"
      using appends_patch [OF more [of "[b]"]] assms by simp
    ultimately show ?thesis using appends_then_emit [of r _ "ops @ m' # [b]" "[b']"] assms by simp
  qed
  show "appends r (append_modrm m suf ?r1) (ops @ modrm_bytes m suf (stack_offset r))"
    using r1 more [of "[_]"] more [of "le32 _"] two [of "[_]"] two [of "le32 _"] more [of "[hd suf]"] sib
    by (auto simp: append_modrm_def modrm_bytes_def Let_def)
  show "stack_offset (append_modrm m suf ?r1) = stack_offset r" "curr_virt_addr (append_modrm m suf ?r1) = curr_virt_addr r"
    by (simp_all add: append_modrm_def Let_def)
qed

text \<open>Every emitter by the bytes it appends; a call is relative to the address at which the code will run.\<close>

definition call_bytes :: "u32 \<Rightarrow> rw \<Rightarrow> u8 list" where
  "call_bytes func r = 0xe8 # le32 (func - (newops r + 5 + curr_virt_addr r))"

lemma appends_ops:
  "appends r (push_reg v r) [0x50 + v]" "appends r (pop_reg v r) [0x58 + v]"
  "appends r (mov_reg_to_reg a b r) [0x89, mk_modrm 3 a b]" "appends r (clean_stack n r) [0x83, mk_modrm 3 0 4, n]"
  "appends r (push_byte n r) [0x6a, n]" "appends r (push_word u r) (0x68 # le32 u)"
  "appends r (op_call f r) (call_bytes f r)" "appends r (op_jmp f r) (0xe9 # le32 (f - (newops r + 5 + curr_virt_addr r)))"
  "appends r (set_reg v u r) ((0xb8 + v) # le32 u)" "appends r (mov_imm32_to_reg u v r) (0xc7 # mk_modrm 3 v 0 # le32 u)"
  "appends r (insert_operand_size_prefix r) [0x66]" "appends r (op_popf r) [0x9d]" "appends r (op_pushf r) [0x9c]"
  "appends r (lea_modrm v m suf r) (0x8d # modrm_bytes (putf 3 3 v m) suf (stack_offset r))"
  "appends r (mov_to_modrm v m suf r) (0x89 # modrm_bytes (putf 3 3 v m) suf (stack_offset r))"
  "appends r (mov_from_modrm v m suf r) (0x8b # modrm_bytes (putf 3 3 v m) suf (stack_offset r))"
  "appends r (movzx_modrm v m suf r) ([0x0f, 0xb7] @ modrm_bytes (putf 3 3 v m) suf (stack_offset r))"
  using append_modrm_bytes(1) [of "[_]" r] append_modrm_bytes(1) [of "[_, _]" r]
  by (simp_all add: push_reg_def pop_reg_def mov_reg_to_reg_def clean_stack_def push_byte_def push_word_def op_call_def
      op_jmp_def set_reg_def mov_imm32_to_reg_def insert_operand_size_prefix_def op_popf_def op_pushf_def
      lea_modrm_def mov_to_modrm_def mov_from_modrm_def movzx_modrm_def call_bytes_def Let_def appends_emit)

lemma offset_ops [simp]:
  "stack_offset (push_reg v r) = stack_offset r + 4" "stack_offset (pop_reg v r) = stack_offset r - 4"
  "stack_offset (mov_reg_to_reg a b r) = stack_offset r" "stack_offset (op_call f r) = stack_offset r"
  "stack_offset (set_reg v u r) = stack_offset r" "stack_offset (mov_imm32_to_reg u v r) = stack_offset r"
  "stack_offset (lea_modrm v m suf r) = stack_offset r"
  using append_modrm_bytes(2) [of "[_]"]
  by (simp_all add: push_reg_def pop_reg_def mov_reg_to_reg_def op_call_def set_reg_def mov_imm32_to_reg_def
      lea_modrm_def Let_def pushed_def popped_def)

lemma virt_ops [simp]:
  "curr_virt_addr (push_reg v r) = curr_virt_addr r" "curr_virt_addr (pop_reg v r) = curr_virt_addr r"
  "curr_virt_addr (mov_reg_to_reg a b r) = curr_virt_addr r" "curr_virt_addr (op_call f r) = curr_virt_addr r"
  "curr_virt_addr (set_reg v u r) = curr_virt_addr r" "curr_virt_addr (mov_imm32_to_reg u v r) = curr_virt_addr r"
  "curr_virt_addr (lea_modrm v m suf r) = curr_virt_addr r"
  using append_modrm_bytes(3) [of "[_]"]
  by (simp_all add: push_reg_def pop_reg_def mov_reg_to_reg_def op_call_def set_reg_def mov_imm32_to_reg_def
      lea_modrm_def Let_def pushed_def popped_def)

section \<open>A rewrite stays in its region\<close>

definition within :: "nat \<Rightarrow> rw \<Rightarrow> rw \<Rightarrow> bool" where
  "within n r r' \<longleftrightarrow> n < 2 ^ 31 \<and> (\<exists>bs. appends r r' bs \<and> length bs \<le> n)"

lemma within_trans: "within m r r1 \<Longrightarrow> within n r1 r2 \<Longrightarrow> m + n < 2 ^ 31 \<Longrightarrow> within (m + n) r r2"
  unfolding within_def
proof (elim conjE exE, intro conjI)
  fix bs cs
  assume "appends r r1 bs" "length bs \<le> m" "appends r1 r2 cs" "length cs \<le> n" "m + n < 2 ^ 31"
  then show "\<exists>ds. appends r r2 ds \<and> length ds \<le> m + n"
    using appends_trans [of r r1 bs r2 cs] by (intro exI [of _ "bs @ cs"]) auto
qed

lemma within_refl: "within 0 r r"
  by (auto simp: within_def appends_def intro: exI [of _ "[]"])

text \<open>No emitter appends more than eight bytes; a rewrite of at most fifteen prefixes and eight emitters has at most 100.\<close>

lemma withinI: "appends r r' bs \<Longrightarrow> length bs \<le> n \<Longrightarrow> n < 2 ^ 31 \<Longrightarrow> within n r r'"
  by (auto simp: within_def)

lemma within_mono: "within m r r' \<Longrightarrow> m \<le> n \<Longrightarrow> n < 2 ^ 31 \<Longrightarrow> within n r r'"
  by (auto simp: within_def)

lemma within_ops:
  "within 8 r (push_reg v r)" "within 8 r (pop_reg v r)" "within 8 r (mov_reg_to_reg a b r)" "within 8 r (clean_stack n r)"
  "within 8 r (push_byte n r)" "within 8 r (push_word u r)" "within 8 r (op_call f r)" "within 8 r (op_jmp f r)"
  "within 8 r (set_reg v u r)" "within 8 r (mov_imm32_to_reg u v r)" "within 8 r (insert_operand_size_prefix r)"
  "within 8 r (op_popf r)" "within 8 r (op_pushf r)" "within 8 r (lea_modrm v m suf r)" "within 8 r (mov_to_modrm v m suf r)"
  "within 8 r (mov_from_modrm v m suf r)" "within 8 r (movzx_modrm v m suf r)" "within 8 r (emit [b, c] r)"
  by ((rule withinI, rule appends_ops, simp_all add: call_bytes_def)+)
     (rule withinI [OF appends_emit], simp_all)

lemma within_frame:
  "within n r r1 \<Longrightarrow> within n r (r1\<lparr>stack_offset := v\<rparr>)" "within n r r1 \<Longrightarrow> within n r (r1\<lparr>curr_virt_addr := v\<rparr>)"
  by (simp_all add: within_def)

lemmas within_steps = within_ops [THEN [2] within_trans] within_frame within_refl

text \<open>The results of the rewriting functions.\<close>

definition stays :: "nat \<Rightarrow> rw \<Rightarrow> (bool \<times> rw) option \<Rightarrow> bool" where
  "stays n r res \<longleftrightarrow> (\<forall>b r'. res = Some (b, r') \<longrightarrow> within n r r')"

definition stays1 :: "nat \<Rightarrow> rw \<Rightarrow> rw option \<Rightarrow> bool" where
  "stays1 n r res \<longleftrightarrow> (\<forall>r'. res = Some r' \<longrightarrow> within n r r')"

lemma stays_rules:
  "within n r r' \<Longrightarrow> stays n r (Some (b, r'))"
  "stays1 n r res1 \<Longrightarrow> stays n r (map_option (Pair b) res1)"
  "(c \<Longrightarrow> stays n r x) \<Longrightarrow> (\<not> c \<Longrightarrow> stays n r y) \<Longrightarrow> stays n r (if c then x else y)"
  "(c \<Longrightarrow> stays n r (f ())) \<Longrightarrow> stays n r (ASSERT c \<bind> f)"
  "within n r r' \<Longrightarrow> stays1 n r (Some r')" "stays1 n r None"
  "(c \<Longrightarrow> stays1 n r x1) \<Longrightarrow> (\<not> c \<Longrightarrow> stays1 n r y1) \<Longrightarrow> stays1 n r (if c then x1 else y1)"
  "(c \<Longrightarrow> stays1 n r (f1 ())) \<Longrightarrow> stays1 n r (ASSERT c \<bind> f1)"
  by (auto simp: stays_def stays1_def)

lemma within_if:
  "(c \<Longrightarrow> within n r x) \<Longrightarrow> (\<not> c \<Longrightarrow> within n r y) \<Longrightarrow> within n r (if c then x else y)"
  by simp

lemma within_call_opt: "within 8 r (call_opt env f r)"
  by (cases f) (auto simp: call_opt_def intro: within_ops within_mono [OF within_refl])

lemma within_segs:
  "within 16 r (newops_pushf env r)" "within 16 r (newops_pushseg env f r)" "within 16 r (newops_popseg env f r)"
  "within 8 r (newops_cli env r)"
  unfolding newops_pushf_def newops_pushseg_def newops_popseg_def newops_cli_def
  by (rule within_mono, (rule within_steps)+, simp_all)+

lemmas within_steps' = within_call_opt [THEN [2] within_trans] within_steps

lemma within_mov_seg:
  "within 56 r (newops_mov_toseg env m suf r)" "within 56 r (newops_movfromseg env m suf r)"
  unfolding newops_mov_toseg_def newops_movfromseg_def Let_def
  by (cases "modrm_mode m = 3"; simp; rule within_mono, (rule within_steps')+, simp_all)+

lemma stays_movfromcreg: "stays1 56 r (newops_movfromcreg env m r)"
  unfolding newops_movfromcreg_def Let_def
  by (intro stays_rules; rule within_mono, (rule within_steps)+, simp_all)

lemma within_ports:
  "within 40 r (snd (apply_port_in_patchup env port r))" "within 40 r (snd (apply_port_out_patchup env port r))"
  "\<not> fst (apply_port_in_patchup env port r) \<Longrightarrow> within 0 r (snd (apply_port_in_patchup env port r))"
  "\<not> fst (apply_port_out_patchup env port r) \<Longrightarrow> within 0 r (snd (apply_port_out_patchup env port r))"
proof -
  have c: "within 40 r (port_call env f (r\<lparr>stack_offset := 0\<rparr>))" for f
    unfolding port_call_def Let_def by (rule within_mono, (rule within_steps)+, simp_all)
  have z: "within 0 r (r\<lparr>stack_offset := 0\<rparr>)" by (rule within_frame(1) [OF within_refl])
  have z': "within 40 r (r\<lparr>stack_offset := 0\<rparr>)" by (rule within_mono [OF z]) simp_all
  show "within 40 r (snd (apply_port_in_patchup env port r))" "within 40 r (snd (apply_port_out_patchup env port r))"
    using c z' by (simp_all add: apply_port_in_patchup_def apply_port_out_patchup_def Let_def)
  show "\<not> fst (apply_port_in_patchup env port r) \<Longrightarrow> within 0 r (snd (apply_port_in_patchup env port r))"
    "\<not> fst (apply_port_out_patchup env port r) \<Longrightarrow> within 0 r (snd (apply_port_out_patchup env port r))"
    using z by (auto simp: apply_port_in_patchup_def apply_port_out_patchup_def Let_def)
qed

lemma within_imm_port:
  assumes "within 40 r (snd hr)" "\<not> fst hr \<Longrightarrow> within 0 r (snd hr)"
  shows "within 40 r (imm_port_call env f width port hr)"
proof (cases "fst hr")
  case True
  with assms(1) show ?thesis by (simp add: imm_port_call_def)
next
  case False
  then have z: "within 0 r (snd hr)" by (rule assms(2))
  show ?thesis
    unfolding imm_port_call_def using False
    by simp (rule within_mono, (rule within_steps)+, rule z, simp_all)
qed

lemma within_dx_string:
  "within 40 r (dx_port_call env f width r)" "within 40 r (string_port_call env f width rep reg r)"
  unfolding dx_port_call_def string_port_call_def Let_def if_cancel
  by (rule within_mono, (rule within_steps)+, simp_all)+

lemma stays_ports: "stays1 56 r (patch_ports env p op port r)"
  unfolding patch_ports_def
  by (intro stays_rules; rule within_mono [OF within_imm_port] within_mono [OF within_dx_string(1)] within_mono [OF within_dx_string(2)];
      (rule within_ports)?; simp)

lemma stays_segofs: "stays1 56 r (patch_segofs env op a junk r)"
  unfolding patch_segofs_def Let_def
  by (cases "code r a = 0x64"; simp only: if_True if_False simp_thms; intro stays_rules;
      rule within_mono, (rule within_steps)+, simp_all)

lemma stays_2byte: "stays 56 r (patch_2byte env a r)"
  unfolding patch_2byte_def Let_def
  by (intro stays_rules stays_movfromcreg;
      (rule within_mono [OF within_segs(2)], simp, simp)?;
      (rule within_mono [OF within_segs(3)], simp, simp)?;
      rule within_mono, (rule within_steps)+, simp_all)

lemma stays_opcode:
  assumes "newops r = a" "code r a \<noteq> 0xcc"
  shows "stays 56 r (patch_opcode env kv junk p a e r)"
proof -
  have id: "r\<lparr>newops := a\<rparr> = r" using assms(1) by simp
  show ?thesis
    unfolding patch_opcode_def Let_def id
    by (simp only: assms(2) if_False, intro stays_rules stays_ports stays_segofs stays_2byte;
        (rule within_mov_seg)?;
        (rule within_mono [OF within_segs(1)], simp, simp)?;
        (rule within_mono [OF within_segs(2)], simp, simp)?;
        (rule within_mono [OF within_segs(3)], simp, simp)?;
        (rule within_mono [OF within_segs(4)], simp, simp)?;
        rule within_mono, (rule within_steps)+, simp_all)
qed

text \<open>All changes of the memory lie between two addresses.\<close>

definition confined :: "u32 \<Rightarrow> u32 \<Rightarrow> rw \<Rightarrow> rw \<Rightarrow> bool" where
  "confined a e r r' \<longleftrightarrow> (\<forall>x. code r' x \<noteq> code r x \<longrightarrow> a \<le> x \<and> x < e)"

lemma confined_trans: "confined a e r r1 \<Longrightarrow> confined b e r1 r2 \<Longrightarrow> a \<le> b \<Longrightarrow> confined a e r r2"
  unfolding confined_def by (metis order_trans)

lemma within_confined:
  assumes "within n r r'" "newops r' \<le> e" "unat (newops r) + n < 2 ^ 32"
  shows "confined (newops r) e r r'"
proof -
  from assms(1) obtain bs where bs: "appends r r' bs" "length bs \<le> n" by (auto simp: within_def)
  have "newops r \<le> x \<and> x < e" if "code r' x \<noteq> code r x" for x
  proof -
    have k: "unat (x - newops r) < length bs" using bs(1) that by (auto simp: appends_def not_le [symmetric])
    have "unat (newops r + of_nat (length bs)) = unat (newops r) + length bs"
      using bs(2) assms(3) by (simp add: unat_word_ariths unat_of_nat)
    then have e: "unat (newops r) + length bs \<le> unat e"
      using assms(2) bs(1) by (simp add: appends_def word_le_nat_alt)
    have "unat x = unat (newops r + (x - newops r))" by simp
    also have "\<dots> = unat (newops r) + unat (x - newops r)"
      using k bs(2) assms(3) by (subst unat_word_ariths(1)) simp
    finally show ?thesis using k e bs(2) assms(3) by (simp add: word_le_nat_alt word_less_nat_alt)
  qed
  then show ?thesis by (simp add: confined_def)
qed

lemma confined_emit_nop:
  assumes "newops r = a" "a < e"
  shows "confined a e r (emit [0x90] r)"
  using assms by (simp add: confined_def emit.simps)

lemma patch_prefixes_confined:
  assumes "patch_prefixes n env kv junk p a e r = Some (True, r')" "newops r' \<le> e"
    and "newops r = a" "a < e" "unat e + 100 \<le> 2 ^ 32" "code r (e - 1) = 0x90"
  shows "confined a e r r'"
  using assms
proof (induction n arbitrary: p a r)
  case (Suc n)
  have last: "e - 1 < e" "a \<le> e - 1" using Suc.prems(4) by (unat_arith, unat_arith)
  have nxt: "confined a e r r'"
    if "patch_prefixes n env kv junk p' (a + 1) e (emit [0x90] r) = Some (True, r')" "code r a \<noteq> 0x90" for p'
  proof (rule confined_trans)
    have "a \<noteq> e - 1" using that(2) Suc.prems(6) by metis
    then have l: "a + 1 < e" using Suc.prems(4) by unat_arith
    moreover have "code (emit [0x90] r) (e - 1) = 0x90" using Suc.prems(3,6) by (simp add: emit.simps)
    ultimately show "confined (a + 1) e (emit [0x90] r) r'"
      using that(1) Suc.prems(2,3,5) by (intro Suc.IH) (auto simp: Suc.prems(3))
    show "confined a e r (emit [0x90] r)" by (rule confined_emit_nop [OF Suc.prems(3,4)])
    show "a \<le> a + 1" using l Suc.prems(4) by unat_arith
  qed
  have opcode: "confined a e r r'" if "patch_opcode env kv junk p a e r = Some (True, r')"
  proof (cases "code r a = 0xcc")
    case True
    then have "r' = r\<lparr>code := ((code r)(e - 1 := 0xcc))(a := 0x90)\<rparr>"
      using that by (simp add: patch_opcode_def)
    then show ?thesis using last Suc.prems(4) by (simp add: confined_def)
  next
    case False
    have "unat a < unat e" using Suc.prems(4) by (simp add: word_less_nat_alt)
    moreover have "within 56 r r'" using stays_opcode [OF Suc.prems(3) False] that by (auto simp: stays_def)
    ultimately show ?thesis using within_confined [of 56 r r' e] Suc.prems(2,3,5) by simp
  qed
  have seg: "confined a e r (emit [0x90] r)" by (rule confined_emit_nop [OF Suc.prems(3,4)])
  show ?case
    using Suc.prems(1) nxt opcode seg by (auto simp: Let_def split: if_splits)
qed simp

lemma apply_patchup_confined:
  assumes "apply_patchup env kv junk a e r = Some (True, r')"
    and "a < e" "unat e + 100 \<le> 2 ^ 32" "code r (e - 1) = 0x90"
  shows "confined a e r r'"
proof -
  let ?r = "r\<lparr>newops := a, stack_offset := 0\<rparr>"
  from assms(1) have "patch_prefixes 15 env kv junk no_prefixes a e ?r = Some (True, r')" "newops r' \<le> e"
    by (auto simp: apply_patchup_def Let_def simp del: patch_prefixes.simps split: Option.bind_splits prod.splits)
  then have "confined a e ?r r'" by (rule patch_prefixes_confined) (use assms in simp_all)
  then show ?thesis by (simp add: confined_def)
qed

text \<open>
  The regions of a list of rewrites: each ends with a byte of padding, and no region holds the last byte of a later one.
\<close>

fun padded :: "(u32 \<times> u32) list \<Rightarrow> u32 \<Rightarrow> memory \<Rightarrow> bool" where
  "padded [] off m \<longleftrightarrow> True"
| "padded ((s, t) # ps) off m \<longleftrightarrow> s - off < t - off \<and> unat (t - off) + 100 \<le> 2 ^ 32 \<and> m (t - off - 1) = 0x90 \<and>
     (\<forall>(s', t') \<in> set ps. \<not> (s - off \<le> t' - off - 1 \<and> t' - off - 1 < t - off)) \<and> padded ps off m"

lemma padded_cong:
  "padded ps off m \<Longrightarrow> \<forall>q \<in> set ps. m' (snd q - off - 1) = m (snd q - off - 1) \<Longrightarrow> padded ps off m'"
  by (induction ps) auto

lemma apply_patchups_confined:
  assumes "apply_patchups env kv junk ps off r = Some (True, r')" "padded ps off (code r)" "code r' x \<noteq> code r x"
  shows "\<exists>(s, t) \<in> set ps. s - off \<le> x \<and> x < t - off"
  using assms
proof (induction ps arbitrary: r)
  case (Cons st ps)
  obtain s t where st: "st = (s, t)" by (cases st)
  from Cons.prems(1) obtain r1 where r1: "apply_patchup env kv junk (s - off) (t - off) r = Some (True, r1)"
    "apply_patchups env kv junk ps off r1 = Some (True, r')"
    by (auto simp: st split: Option.bind_splits if_splits)
  from Cons.prems(2) have c: "confined (s - off) (t - off) r r1"
    using apply_patchup_confined [OF r1(1)] by (simp add: st)
  have "padded ps off (code r1)"
  proof (rule padded_cong)
    show "padded ps off (code r)" using Cons.prems(2) by (simp add: st)
    show "\<forall>q \<in> set ps. code r1 (snd q - off - 1) = code r (snd q - off - 1)"
      using c Cons.prems(2) by (auto simp: st confined_def)
  qed
  with Cons.IH [OF r1(2)] c Cons.prems(3) show ?case
    by (cases "code r1 x = code r x") (auto simp: st confined_def)
qed simp


definition guest_example :: rw where
  "guest_example = \<lparr>newops = 0, code = (\<lambda>_. 0x90)(0x1000 := 0xfa, 0x1010 := 0xcd, 0x1011 := 0x80),
     stack_offset = 0, curr_virt_addr = 0\<rparr>"


end
