(* ===== verification/Dma_Map.thy ===== *)
theory Dma_Map
  imports Prelude
begin

text \<open>
  The translation between guest-physical and bus addresses for guests that drive devices themselves
  (\<^verbatim>\<open>l4ka/backend.cc\<close>). The memory of the virtual machine is swapped with the memory below it, so that its physical memory
  starts at zero; the fields of \<^verbatim>\<open>resourcemon_shared\<close> that describe it are the arguments \<open>vm_offset\<close>,
  \<open>vm_size\<close> and \<open>vm_end\<close>. An address above \<^verbatim>\<open>vm_end\<close> is a panic in one direction and a message in the other.
\<close>

definition backend_phys_to_dma_hook :: "u32 \<Rightarrow> u32 \<Rightarrow> u32 \<Rightarrow> u32 \<Rightarrow> u32 option" where
  "backend_phys_to_dma_hook vm_offset vm_size vm_end phys =
     (if phys > vm_end then None
      else if phys < vm_size then Some (phys + vm_offset)
      else if phys - vm_size < vm_offset then Some (phys - vm_size)
      else Some phys)"

definition backend_dma_to_phys_hook :: "u32 \<Rightarrow> u32 \<Rightarrow> u32 \<Rightarrow> u32" where
  "backend_dma_to_phys_hook vm_offset vm_size dma =
     (if 0x9f000 \<le> dma \<and> dma < 0x100000 then dma
      else if dma < vm_offset then dma + vm_size
      else if dma < vm_offset + vm_size then dma - vm_offset
      else dma)"

text \<open>The swap of the two ranges and its inverse, on numbers.\<close>

definition swap_ranges :: "nat \<Rightarrow> nat \<Rightarrow> nat \<Rightarrow> nat" where
  "swap_ranges off n x = (if x < n then x + off else if x < off + n then x - n else x)"

lemma swap_ranges_inverse: "swap_ranges n off (swap_ranges off n x) = x"
  by (auto simp: swap_ranges_def)

lemma swap_ranges_inside: "off \<le> swap_ranges off n x \<and> swap_ranges off n x < off + n \<longleftrightarrow> x < n"
  by (auto simp: swap_ranges_def)

lemma phys_to_dma_swaps:
  assumes "unat vm_offset + unat vm_size < 2 ^ 32"
  shows "(if phys > vm_end then None else Some (swap_ranges (unat vm_offset) (unat vm_size) (unat phys))) =
    map_option unat (backend_phys_to_dma_hook vm_offset vm_size vm_end phys)"
  using assms
  by (auto simp: backend_phys_to_dma_hook_def swap_ranges_def word_less_nat_alt unat_sub word_le_nat_alt unat_word_ariths)

lemma dma_to_phys_swaps:
  assumes "unat vm_offset + unat vm_size < 2 ^ 32"
  shows "unat (backend_dma_to_phys_hook vm_offset vm_size dma) =
    (if 0x9f000 \<le> dma \<and> dma < 0x100000 then unat dma else swap_ranges (unat vm_size) (unat vm_offset) (unat dma))"
  using assms
  by (auto simp: backend_dma_to_phys_hook_def swap_ranges_def word_less_nat_alt unat_sub word_le_nat_alt unat_word_ariths)

text \<open>
  C38: The bus addresses the guest programs into a device are sound. Every physical address up to the end has a bus
  address, no other physical address has the same one, and it lies in the machine memory of the virtual machine exactly if the
  physical address is the guest's own memory. The opposite translation is the inverse, except
  for the bus addresses of the shadow BIOS region, which it leaves as they are.
\<close>

theorem dma_translation_sound:
  assumes "unat vm_offset + unat vm_size < 2 ^ 32" "phys \<le> vm_end"
  shows "\<exists>dma. backend_phys_to_dma_hook vm_offset vm_size vm_end phys = Some dma \<and>
    (\<forall>phys'. backend_phys_to_dma_hook vm_offset vm_size vm_end phys' = Some dma \<longleftrightarrow> phys' = phys) \<and>
    (vm_offset \<le> dma \<and> dma < vm_offset + vm_size \<longleftrightarrow> phys < vm_size) \<and>
    backend_dma_to_phys_hook vm_offset vm_size dma = (if 0x9f000 \<le> dma \<and> dma < 0x100000 then dma else phys)"
proof -
  let ?swap = "swap_ranges (unat vm_offset) (unat vm_size)"
  have swaps: "backend_phys_to_dma_hook vm_offset vm_size vm_end p = Some d \<longleftrightarrow> p \<le> vm_end \<and> unat d = ?swap (unat p)" for p d
    using phys_to_dma_swaps [OF assms(1), where phys = p and vm_end = vm_end]
    by (cases "backend_phys_to_dma_hook vm_offset vm_size vm_end p") (auto split: if_splits dest: unsigned_word_eqI)
  obtain dma where dma: "backend_phys_to_dma_hook vm_offset vm_size vm_end phys = Some dma"
    using assms(2) by (cases "backend_phys_to_dma_hook vm_offset vm_size vm_end phys")
      (auto simp: backend_phys_to_dma_hook_def split: if_splits)
  have inj: "?swap x = ?swap y \<longleftrightarrow> x = y" for x y by (metis swap_ranges_inverse)
  have "unat (vm_offset + vm_size) = unat vm_offset + unat vm_size" using assms(1) by (simp add: unat_word_ariths)
  then have "vm_offset \<le> dma \<and> dma < vm_offset + vm_size \<longleftrightarrow> phys < vm_size"
    using dma swap_ranges_inside [of "unat vm_offset" "unat vm_size" "unat phys"] by (simp add: swaps word_less_nat_alt word_le_nat_alt)
  moreover have "backend_phys_to_dma_hook vm_offset vm_size vm_end phys' = Some dma \<longleftrightarrow> phys' = phys" for phys'
    using dma assms(2) by (auto simp: swaps inj dest: unsigned_word_eqI)
  moreover have "backend_dma_to_phys_hook vm_offset vm_size dma = (if 0x9f000 \<le> dma \<and> dma < 0x100000 then dma else phys)"
    using dma dma_to_phys_swaps [OF assms(1), of dma] by (auto simp: word_unat_eq_iff swaps swap_ranges_inverse)
  ultimately show ?thesis using dma by blast
qed

theorem dma_translation_sound_witness:
  "backend_phys_to_dma_hook 0x4000000 0x8000000 0x3fffffff 0x9000000 = Some 0x1000000 \<and>
   backend_dma_to_phys_hook 0x4000000 0x8000000 0x1000000 = 0x9000000 \<and>
   (\<forall>p. backend_phys_to_dma_hook 0x4000000 0x8000000 0x3fffffff p = Some 0x1000000 \<longleftrightarrow> p = 0x9000000)"
  using dma_translation_sound [of "0x4000000" "0x8000000" "0x9000000" "0x3fffffff"]
  by (simp add: backend_phys_to_dma_hook_def)

end
