(* ===== verification/Spec2Isabelle.thy ===== *)
theory Spec2Isabelle
  imports Numio_Props Portio Cpu_Front Rewrite_Code Dma_Map
begin

text \<open>
  A verification library for the Afterburner, a system that runs an operating system kernel on a
  hypervisor or micro-kernel after its sensitive instructions have been replaced ("afterburned"). The program
  that is linked to the guest kernel is the wedge (\<^verbatim>\<open>src/afterburn-wedge\<close>): its front-end emulates
  the IA32 processor and the devices of a PC, its back-end talks to the L4 micro-kernel.

  \<^bold>\<open>The program and its parts.\<close> At load time the rewriter (\<^verbatim>\<open>ia32/rewrite_stackless.cc\<close>) replaces every sensitive
  instruction of the guest by a call of the front-end. At run time the emulated instructions
  (\<^verbatim>\<open>ia32/cpu.cc\<close>) work on the virtual CPU (\<^verbatim>\<open>ia32/cpu.h\<close>, \<^verbatim>\<open>l4ka/vcpu.h\<close>); port instructions go through the
  port dispatch (\<^verbatim>\<open>device/portio.cc\<close>) to the device models (\<^verbatim>\<open>device/\<close>). A device raises an interrupt in the interrupt logic
  (\<^verbatim>\<open>ia32/intlogic.h\<close>), which stands over two 8259A controllers or the local APICs and IO-APICs
  and which the emulated \<^verbatim>\<open>sti\<close>, \<^verbatim>\<open>popf\<close> and \<^verbatim>\<open>iret\<close> and the delivery between two instructions poll for a vector. Freestanding library
  code (\<^verbatim>\<open>common/\<close>) serves all of them.

  \<^bold>\<open>Configuration.\<close> The IA32 wedge on L4Ka in a build with assertions, with \<^verbatim>\<open>CONFIG_IA32_STRICT_IRQ\<close>; where an
  interrupt routine depends on \<^verbatim>\<open>CONFIG_DEVICE_APIC\<close> the argument \<open>apic\<close> selects the variant. A failed
  assertion, a division by zero and an access outside an array are the result \<open>None\<close> of an option type. Machine
  integers are words of their width. Calls into the back-end are appended to the list \<open>events\<close> of the
  state. Printing and performance counters are left out.

  \<^bold>\<open>Theories and sources.\<close>

  \<^item> \<^verbatim>\<open>Prelude\<close>: machine integers, assertions, bit-fields, bit sets and the shared lemmas. \<^verbatim>\<open>Bitops\<close>: the
    bit-scan and bit-test operations of \<^verbatim>\<open>ia32/bitops.h\<close>.
  \<^item> \<^verbatim>\<open>Cpu_State\<close>: gates, segment descriptors, control registers, flags and the record of the virtual CPU
    (\<^verbatim>\<open>ia32/cpu.h\<close>). \<^verbatim>\<open>Wedge_State\<close>: the state that all components share, the record \<open>wedge\<close> with the virtual
    CPUs, the hardware interrupt words of the interrupt logic, the memory and the back-end calls. The records
    \<open>pic_wedge\<close> and \<open>apic_wedge\<close> extend it with the controllers.
  \<^item> \<^verbatim>\<open>Paging\<close>: accesses to guest memory and the page walk \<^verbatim>\<open>backend_resolve_addr\<close> (\<^verbatim>\<open>l4ka/common/backend.cc\<close>).
  \<^item> \<^verbatim>\<open>I8259a\<close>: the 8259A (\<^verbatim>\<open>device/i8259a.h\<close>, \<^verbatim>\<open>device/i8259a.cc\<close>). \<^verbatim>\<open>Lapic\<close> and \<^verbatim>\<open>Lapic_Regs\<close>: the local APIC and its
    register writes (\<^verbatim>\<open>device/lapic.h\<close>, \<^verbatim>\<open>device/lapic.cc\<close>). \<^verbatim>\<open>Ioapic\<close>: the IO-APIC (\<^verbatim>\<open>device/i82093.h\<close>,
    \<^verbatim>\<open>device/i82093.cc\<close>). \<^verbatim>\<open>Intlogic\<close>: the interrupt logic (\<^verbatim>\<open>ia32/intlogic.h\<close>, \<^verbatim>\<open>ia32/intlogic.cc\<close>).
    \<^verbatim>\<open>Lapic_Service\<close>, \<^verbatim>\<open>Apic_Protocol\<close> and \<^verbatim>\<open>Int_Routing\<close> hold what these promise together.
  \<^item> \<^verbatim>\<open>Cpu_Front\<close>: the emulated instructions of \<^verbatim>\<open>ia32/cpu.cc\<close>, with the frames they find on the stack as words of the
    guest's memory, and the processor identification of \<^verbatim>\<open>l4ka/backend.cc\<close>.
  \<^item> \<^verbatim>\<open>Rewrite\<close>: the rewriter (\<^verbatim>\<open>ia32/rewrite_stackless.cc\<close>, \<^verbatim>\<open>ia32/rewrite_stackless.h\<close>,
    \<^verbatim>\<open>l4ka/rewrite_stackless.h\<close>), with the pointer \<^verbatim>\<open>newops\<close>, the guest's code and the static variables as the record \<open>rw\<close>.
    \<^verbatim>\<open>Rewrite_Code\<close>: the bytes it writes.
  \<^item> \<^verbatim>\<open>Port_Device\<close>: the contract of a device behind I/O ports. \<^verbatim>\<open>Rtc\<close>: the clock and the CMOS memory
    (\<^verbatim>\<open>device/mc146818rtc.cc\<close>, \<^verbatim>\<open>device/rtc.h\<close>). \<^verbatim>\<open>Pit\<close>: the i8253 timer and the integer helpers (\<^verbatim>\<open>device/i8253.cc\<close>,
    \<^verbatim>\<open>l4ka/intmath.h\<close>). \<^verbatim>\<open>Pit8254\<close>: the i8254 timer (\<^verbatim>\<open>device/i8254.cc\<close>). \<^verbatim>\<open>Serial8250\<close>: the serial ports and the
    console buffer shared with the resource monitor (\<^verbatim>\<open>device/8250.cc\<close>, \<^verbatim>\<open>l4ka/resourcemon.h\<close>).
    \<^verbatim>\<open>Kbc\<close>: the keyboard controller and the PS/2 devices (\<^verbatim>\<open>device/i8042.cc\<close>, \<^verbatim>\<open>device/ps2.cc\<close>).
  \<^item> \<^verbatim>\<open>Portio\<close>: the dispatch of port instructions over all device models (\<^verbatim>\<open>device/portio.cc\<close>), the composition of
    the devices into one platform.
  \<^item> \<^verbatim>\<open>Calendar\<close>: \<^verbatim>\<open>common/aftertime.cc\<close>. \<^verbatim>\<open>Cstring\<close>: \<^verbatim>\<open>common/string.cc\<close> and \<^verbatim>\<open>common/memory.cc\<close>. \<^verbatim>\<open>Numio\<close>:
    number parsing and formatted output (\<^verbatim>\<open>common/sprintf.cc\<close>), with their properties in \<^verbatim>\<open>Numio_Props\<close>.

  \<^bold>\<open>Contracts.\<close> The locale \<open>int_controller\<close> (\<^verbatim>\<open>Int_Contract\<close>) is what the wedge relies on when it polls a controller;
  both 8259As and the local APIC are interpretations. \<open>vector_bank\<close> (\<^verbatim>\<open>Lapic\<close>) is a 256-bit register of
  the local APIC. \<open>port_device\<close> is a port handler that no access of the guest can make panic, with the 8259A pair, the timer,
  the serial ports and the keyboard controller as interpretations. \<open>byte_fifo\<close> (\<^verbatim>\<open>Kbc\<close>) is a bounded queue,
  which the ring buffer of the PS/2 devices implements.

  \<^bold>\<open>What is shown.\<close>

  \<^item> The platform as a whole: no sequence of port instructions, console input, timer ticks and polls makes
    a device handler panic or breaks an invariant.
  \<^item> Interrupt controllers: no request is lost, each is delivered once and in the order of priority, interrupts nest, the
    pair of 8259As refines a set of pending numbers, inter-processor interrupts reach the right processors.
  \<^item> Interrupt delivery: \<^verbatim>\<open>int\<close>, the delivery between two instructions and the redirected \<^verbatim>\<open>iret\<close> are transparent to the interrupted
    code.
  \<^item> Rewriter: a successful rewrite changes no byte outside the regions that were padded for it.
  \<^item> Devices: the status bits of the keyboard controller announce exactly the bytes that wait, the timer fires when it
    is due, counters and the clock read as they should.
  \<^item> Library code: copying, searching, number parsing and printing, calendar arithmetic.
  \<^item> Defects of the code that the model exposed are properties of the kind error, or hypotheses of the properties that
    hold up to them.

  \<^bold>\<open>Loops, bounds and fuel.\<close> Loops over memory are recursions on the number of bytes or words that is left. String functions that
  scan for a terminator use \<open>partial_function\<close> and are proved to return on terminated strings. The decoding
  loop of the rewriter has a fuel of 15 prefixes, since an IA32 instruction has at most 15 bytes. A rewritten
  instruction has at most 100 bytes, so that a region must end 100 bytes below the end of the address space.

  \<^bold>\<open>Not modelled.\<close> The assembler stubs (\<^verbatim>\<open>ia32/burn.S\<close>, \<^verbatim>\<open>frontend.S\<close>, \<^verbatim>\<open>vmi-stub.S\<close>) are represented by the frames
  they push. The back-ends (\<^verbatim>\<open>l4ka/\<close>, \<^verbatim>\<open>kaxen/\<close>) exchange messages with a micro-kernel or hypervisor whose
  code is not part of the repository; only their pure parts are modelled. The AMD64 front-end repeats the IA32 one.
  The IDE, floppy, DMA, PCI, ACPI and network device models need host memory and host devices behind them; the
  resource monitor and the driver servers are L4 servers; the assembler pre-processor is generated from a grammar; benchmarks,
  configurations and patches are not code of the wedge.
\<close>

end
